theory Spec2Isabelle
  imports Complex_Main "HOL-Library.Word" "HOL-Library.Sublist" "HOL-Library.Log_Nat"
begin

section \<open>Data model (package models)\<close>

text \<open>
  Go's \<open>int\<close> is a 64-bit two's-complement integer on the platforms the gateway runs on;
  the in-memory slot counters and limits are kept at that width, read with \<open>sint\<close> and
  compared with the signed orders. Row identifiers (\<open>int64\<close>) are only ever compared for
  equality and sorted, never computed with, so they are plain integers. A \<open>time.Time\<close> is
  an instant counted in nanoseconds; a nullable \<open>*time.Time\<close> is an option.
\<close>

type_synonym go_int = "64 word"
type_synonym token_id = int
type_synonym time = int

text \<open>
  \<open>models.Token\<close>, with the fields the services read or write. A row of the \<open>tokens\<close>
  table is kept in the form \<open>Database.GetToken\<close> hands it out: a NULL text column reads
  back as the empty string, a NULL datetime as \<open>nil\<close>.
\<close>

record Token =
  ID :: token_id
  ST :: string
  AT :: string
  ATExpires :: "time option"
  IsActive :: bool
  LastUsedAt :: "time option"
  Credits :: go_int
  UserPaygateTier :: string
  CurrentProjectID :: string
  CurrentProjectName :: string
  ImageEnabled :: bool
  VideoEnabled :: bool
  ImageConcurrency :: go_int
  VideoConcurrency :: go_int
  BanReason :: string
  BannedAt :: "time option"

section \<open>ConcurrencyManager (services/concurrency_manager.go)\<close>

record limit_pair =
  imageLimit :: go_int
  videoLimit :: go_int

record ConcurrencyManager =
  imageSlots :: "token_id \<rightharpoonup> go_int"
  videoSlots :: "token_id \<rightharpoonup> go_int"
  limits :: "token_id \<rightharpoonup> limit_pair"

text \<open>Reading a Go map at a key it does not hold yields the zero value.\<close>

definition slot_count :: "(token_id \<rightharpoonup> go_int) \<Rightarrow> token_id \<Rightarrow> go_int" where
  "slot_count m k = (case m k of None \<Rightarrow> 0 | Some c \<Rightarrow> c)"

definition NewConcurrencyManager :: ConcurrencyManager where
  "NewConcurrencyManager = \<lparr>imageSlots = Map.empty, videoSlots = Map.empty, limits = Map.empty\<rparr>"

fun Initialize :: "ConcurrencyManager \<Rightarrow> Token list \<Rightarrow> ConcurrencyManager" where
  "Initialize cm [] = cm"
| "Initialize cm (token # tokens) =
     Initialize
       (cm\<lparr>limits := (limits cm)(ID token \<mapsto>
          \<lparr>imageLimit = ImageConcurrency token, videoLimit = VideoConcurrency token\<rparr>)\<rparr>)
       tokens"

definition UpdateTokenLimits ::
  "ConcurrencyManager \<Rightarrow> token_id \<Rightarrow> go_int \<Rightarrow> go_int \<Rightarrow> ConcurrencyManager" where
  "UpdateTokenLimits cm tokenID il vl =
     cm\<lparr>limits := (limits cm)(tokenID \<mapsto> \<lparr>imageLimit = il, videoLimit = vl\<rparr>)\<rparr>"

definition CanAcquireImage :: "ConcurrencyManager \<Rightarrow> token_id \<Rightarrow> bool" where
  "CanAcquireImage cm tokenID =
     (case limits cm tokenID of
        None \<Rightarrow> True
      | Some l \<Rightarrow>
          if imageLimit l <s 0 then True
          else slot_count (imageSlots cm) tokenID <s imageLimit l)"

definition CanAcquireVideo :: "ConcurrencyManager \<Rightarrow> token_id \<Rightarrow> bool" where
  "CanAcquireVideo cm tokenID =
     (case limits cm tokenID of
        None \<Rightarrow> True
      | Some l \<Rightarrow>
          if videoLimit l <s 0 then True
          else slot_count (videoSlots cm) tokenID <s videoLimit l)"

text \<open>\<open>cm.imageSlots[tokenID]++\<close>: the 64-bit addition wraps.\<close>

definition incImage :: "ConcurrencyManager \<Rightarrow> token_id \<Rightarrow> ConcurrencyManager" where
  "incImage cm tokenID =
     cm\<lparr>imageSlots := (imageSlots cm)(tokenID \<mapsto> slot_count (imageSlots cm) tokenID + 1)\<rparr>"

definition incVideo :: "ConcurrencyManager \<Rightarrow> token_id \<Rightarrow> ConcurrencyManager" where
  "incVideo cm tokenID =
     cm\<lparr>videoSlots := (videoSlots cm)(tokenID \<mapsto> slot_count (videoSlots cm) tokenID + 1)\<rparr>"

text \<open>The mutex makes each call one step; the result pairs the returned flag with the new state.\<close>

definition AcquireImage :: "ConcurrencyManager \<Rightarrow> token_id \<Rightarrow> bool \<times> ConcurrencyManager" where
  "AcquireImage cm tokenID =
     (case limits cm tokenID of
        None \<Rightarrow> (True, incImage cm tokenID)
      | Some l \<Rightarrow>
          if imageLimit l <s 0 then (True, incImage cm tokenID)
          else if imageLimit l \<le>s slot_count (imageSlots cm) tokenID then (False, cm)
          else (True, incImage cm tokenID))"

definition ReleaseImage :: "ConcurrencyManager \<Rightarrow> token_id \<Rightarrow> ConcurrencyManager" where
  "ReleaseImage cm tokenID =
     (if 0 <s slot_count (imageSlots cm) tokenID
      then cm\<lparr>imageSlots := (imageSlots cm)(tokenID \<mapsto> slot_count (imageSlots cm) tokenID - 1)\<rparr>
      else cm)"

definition AcquireVideo :: "ConcurrencyManager \<Rightarrow> token_id \<Rightarrow> bool \<times> ConcurrencyManager" where
  "AcquireVideo cm tokenID =
     (case limits cm tokenID of
        None \<Rightarrow> (True, incVideo cm tokenID)
      | Some l \<Rightarrow>
          if videoLimit l <s 0 then (True, incVideo cm tokenID)
          else if videoLimit l \<le>s slot_count (videoSlots cm) tokenID then (False, cm)
          else (True, incVideo cm tokenID))"

definition ReleaseVideo :: "ConcurrencyManager \<Rightarrow> token_id \<Rightarrow> ConcurrencyManager" where
  "ReleaseVideo cm tokenID =
     (if 0 <s slot_count (videoSlots cm) tokenID
      then cm\<lparr>videoSlots := (videoSlots cm)(tokenID \<mapsto> slot_count (videoSlots cm) tokenID - 1)\<rparr>
      else cm)"

text \<open>
  Drivers for the properties below: \<open>n\<close> consecutive calls of an acquire operation on one
  credential, the returned flags in call order, and a sequence of arbitrary manager calls.
\<close>

fun acquireImageTimes :: "nat \<Rightarrow> ConcurrencyManager \<Rightarrow> token_id \<Rightarrow> bool list \<times> ConcurrencyManager" where
  "acquireImageTimes 0 cm tokenID = ([], cm)"
| "acquireImageTimes (Suc n) cm tokenID =
     (let (ok, cm') = AcquireImage cm tokenID;
          (oks, cm'') = acquireImageTimes n cm' tokenID
      in (ok # oks, cm''))"

fun acquireVideoTimes :: "nat \<Rightarrow> ConcurrencyManager \<Rightarrow> token_id \<Rightarrow> bool list \<times> ConcurrencyManager" where
  "acquireVideoTimes 0 cm tokenID = ([], cm)"
| "acquireVideoTimes (Suc n) cm tokenID =
     (let (ok, cm') = AcquireVideo cm tokenID;
          (oks, cm'') = acquireVideoTimes n cm' tokenID
      in (ok # oks, cm''))"

datatype cm_call =
    CallInitialize "Token list"
  | CallUpdateTokenLimits token_id go_int go_int
  | CallAcquireImage token_id
  | CallReleaseImage token_id
  | CallAcquireVideo token_id
  | CallReleaseVideo token_id

fun cm_step :: "ConcurrencyManager \<Rightarrow> cm_call \<Rightarrow> ConcurrencyManager" where
  "cm_step cm (CallInitialize tokens) = Initialize cm tokens"
| "cm_step cm (CallUpdateTokenLimits tokenID il vl) = UpdateTokenLimits cm tokenID il vl"
| "cm_step cm (CallAcquireImage tokenID) = snd (AcquireImage cm tokenID)"
| "cm_step cm (CallReleaseImage tokenID) = ReleaseImage cm tokenID"
| "cm_step cm (CallAcquireVideo tokenID) = snd (AcquireVideo cm tokenID)"
| "cm_step cm (CallReleaseVideo tokenID) = ReleaseVideo cm tokenID"

fun cm_run :: "ConcurrencyManager \<Rightarrow> cm_call list \<Rightarrow> ConcurrencyManager" where
  "cm_run cm [] = cm"
| "cm_run cm (c # cs) = cm_run (cm_step cm c) cs"

text \<open>A call registers a credential when it stores a limit pair for it.\<close>

fun registers :: "cm_call \<Rightarrow> token_id \<Rightarrow> bool" where
  "registers (CallInitialize tokens) i = (i \<in> set (map ID tokens))"
| "registers (CallUpdateTokenLimits tokenID il vl) i = (tokenID = i)"
| "registers (CallAcquireImage tokenID) i = False"
| "registers (CallReleaseImage tokenID) i = False"
| "registers (CallAcquireVideo tokenID) i = False"
| "registers (CallReleaseVideo tokenID) i = False"

section \<open>Database (package database)\<close>

text \<open>
  The SQLite tables the services use, as in-memory tables: \<open>tokens\<close> is a list of rows
  (\<open>QueryRow\<close> takes the first row that matches, \<open>UPDATE\<close> changes every row that matches),
  \<open>token_stats\<close> is keyed by its primary key, \<open>admin_config\<close> holds at most the row with
  id 1. The counters of \<open>token_stats\<close> are SQLite integers incremented by SQL; they stay far
  from the 64-bit boundary and are plain integers. A statement that reaches the engine
  succeeds; \<open>sql.ErrNoRows\<close> is the one error the queries produce. An error is the text
  that its \<open>Error()\<close> method returns, which is what the generation handler inspects.
\<close>

type_synonym error = string

definition ErrNoRows :: error where
  "ErrNoRows = ''sql: no rows in result set''"

record TokenStats =
  ImageCount :: int
  VideoCount :: int
  SuccessCount :: int
  ErrorCount :: int
  LastSuccessAt :: "time option"
  LastErrorAt :: "time option"
  TodayImageCount :: int
  TodayVideoCount :: int
  TodayErrorCount :: int
  TodayDate :: string
  ConsecutiveErrorCount :: int

record AdminConfig =
  Username :: string
  Password :: string
  APIKey :: string
  ErrorBanThreshold :: int

record Project =
  ProjectID :: string
  ProjectTokenID :: token_id
  ProjectName :: string
  ToolName :: string
  ProjectIsActive :: bool

record Task =
  TaskID :: string
  TaskTokenID :: token_id
  TaskModel :: string
  TaskPrompt :: string
  TaskStatus :: string
  TaskProgress :: int
  TaskResultURLs :: "string list"
  TaskCompletedAt :: "time option"

record Database =
  tokens_tbl :: "Token list"
  token_stats_tbl :: "token_id \<rightharpoonup> TokenStats"
  admin_config_tbl :: "AdminConfig option"
  projects_tbl :: "Project list"
  tasks_tbl :: "Task list"

definition GetToken :: "Database \<Rightarrow> token_id \<Rightarrow> error + Token" where
  "GetToken d tokenID =
     (case find (\<lambda>t. ID t = tokenID) (tokens_tbl d) of
        None \<Rightarrow> Inl ErrNoRows
      | Some t \<Rightarrow> Inr t)"

text \<open>The second loop of \<open>GetAllTokens\<close>/\<open>GetActiveTokens\<close>: keep the ids that \<open>GetToken\<close> finds.\<close>

fun fetch_tokens :: "Database \<Rightarrow> token_id list \<Rightarrow> Token list" where
  "fetch_tokens d [] = []"
| "fetch_tokens d (tokenID # ids) =
     (case GetToken d tokenID of
        Inr token \<Rightarrow> token # fetch_tokens d ids
      | Inl err \<Rightarrow> fetch_tokens d ids)"

definition GetAllTokens :: "Database \<Rightarrow> Token list" where
  "GetAllTokens d = fetch_tokens d (sort (map ID (tokens_tbl d)))"

definition GetActiveTokens :: "Database \<Rightarrow> Token list" where
  "GetActiveTokens d = fetch_tokens d (sort (map ID (filter IsActive (tokens_tbl d))))"

text \<open>
  \<open>UpdateToken\<close> takes a map from column names to values. The columns the services write
  are the constructors below; a \<open>nil\<close> value stores NULL.
\<close>

datatype token_update =
    Set_is_active bool
  | Set_ban_reason "string option"
  | Set_banned_at "time option"
  | Set_at string
  | Set_at_expires time
  | Set_credits go_int
  | Set_last_used_at time
  | Set_current_project_id string
  | Set_current_project_name string

fun apply_update :: "Token \<Rightarrow> token_update \<Rightarrow> Token" where
  "apply_update t (Set_is_active b) = t\<lparr>IsActive := b\<rparr>"
| "apply_update t (Set_ban_reason r) = t\<lparr>BanReason := (case r of None \<Rightarrow> [] | Some s \<Rightarrow> s)\<rparr>"
| "apply_update t (Set_banned_at b) = t\<lparr>BannedAt := b\<rparr>"
| "apply_update t (Set_at a) = t\<lparr>AT := a\<rparr>"
| "apply_update t (Set_at_expires e) = t\<lparr>ATExpires := Some e\<rparr>"
| "apply_update t (Set_credits c) = t\<lparr>Credits := c\<rparr>"
| "apply_update t (Set_last_used_at u) = t\<lparr>LastUsedAt := Some u\<rparr>"
| "apply_update t (Set_current_project_id p) = t\<lparr>CurrentProjectID := p\<rparr>"
| "apply_update t (Set_current_project_name p) = t\<lparr>CurrentProjectName := p\<rparr>"

definition UpdateToken :: "Database \<Rightarrow> token_id \<Rightarrow> token_update list \<Rightarrow> Database" where
  "UpdateToken d tokenID updates =
     (if updates = [] then d
      else d\<lparr>tokens_tbl :=
             map (\<lambda>t. if ID t = tokenID then foldl apply_update t updates else t) (tokens_tbl d)\<rparr>)"

definition empty_stats :: TokenStats where
  "empty_stats =
     \<lparr>ImageCount = 0, VideoCount = 0, SuccessCount = 0, ErrorCount = 0,
      LastSuccessAt = None, LastErrorAt = None,
      TodayImageCount = 0, TodayVideoCount = 0, TodayErrorCount = 0, TodayDate = [],
      ConsecutiveErrorCount = 0\<rparr>"

text \<open>\<open>GetTokenStats\<close> answers a missing row with the zero value of the struct.\<close>

definition GetTokenStats :: "Database \<Rightarrow> token_id \<Rightarrow> TokenStats" where
  "GetTokenStats d tokenID =
     (case token_stats_tbl d tokenID of None \<Rightarrow> empty_stats | Some s \<Rightarrow> s)"

text \<open>An \<open>UPDATE token_stats ... WHERE token_id = ?\<close> changes the row when there is one.\<close>

definition update_stats :: "Database \<Rightarrow> token_id \<Rightarrow> (TokenStats \<Rightarrow> TokenStats) \<Rightarrow> Database" where
  "update_stats d tokenID f =
     (case token_stats_tbl d tokenID of
        None \<Rightarrow> d
      | Some s \<Rightarrow> d\<lparr>token_stats_tbl := (token_stats_tbl d)(tokenID \<mapsto> f s)\<rparr>)"

text \<open>
  \<open>IncrementTokenStats\<close> first resets the counters of the day when the stored date is not
  \<open>today\<close> (the local date, formatted by the caller's clock), then runs the statement of
  the statistic; an unknown statistic is an error raised after the reset.
\<close>

definition reset_today :: "string \<Rightarrow> TokenStats \<Rightarrow> TokenStats" where
  "reset_today today s =
     (if TodayDate s \<noteq> today
      then s\<lparr>TodayImageCount := 0, TodayVideoCount := 0, TodayErrorCount := 0, TodayDate := today\<rparr>
      else s)"

definition IncrementTokenStats ::
  "Database \<Rightarrow> token_id \<Rightarrow> string \<Rightarrow> time \<Rightarrow> string \<Rightarrow> error option \<times> Database" where
  "IncrementTokenStats d tokenID statType now today =
     (let d1 = update_stats d tokenID (reset_today today) in
      if statType = ''image'' then
        (None, update_stats d1 tokenID (\<lambda>s. s\<lparr>ImageCount := ImageCount s + 1,
           TodayImageCount := TodayImageCount s + 1, SuccessCount := SuccessCount s + 1,
           LastSuccessAt := Some now, ConsecutiveErrorCount := 0\<rparr>))
      else if statType = ''video'' then
        (None, update_stats d1 tokenID (\<lambda>s. s\<lparr>VideoCount := VideoCount s + 1,
           TodayVideoCount := TodayVideoCount s + 1, SuccessCount := SuccessCount s + 1,
           LastSuccessAt := Some now, ConsecutiveErrorCount := 0\<rparr>))
      else if statType = ''error'' then
        (None, update_stats d1 tokenID (\<lambda>s. s\<lparr>ErrorCount := ErrorCount s + 1,
           TodayErrorCount := TodayErrorCount s + 1, LastErrorAt := Some now,
           ConsecutiveErrorCount := ConsecutiveErrorCount s + 1\<rparr>))
      else (Some (''unknown stat type: '' @ statType), d1))"

definition ResetErrorCount :: "Database \<Rightarrow> token_id \<Rightarrow> Database" where
  "ResetErrorCount d tokenID = update_stats d tokenID (\<lambda>s. s\<lparr>ConsecutiveErrorCount := 0\<rparr>)"

definition GetAdminConfig :: "Database \<Rightarrow> error + AdminConfig" where
  "GetAdminConfig d = (case admin_config_tbl d of None \<Rightarrow> Inl ErrNoRows | Some c \<Rightarrow> Inr c)"

definition AddProject :: "Database \<Rightarrow> Project \<Rightarrow> Database" where
  "AddProject d project = d\<lparr>projects_tbl := projects_tbl d @ [project]\<rparr>"

text \<open>\<open>task_id\<close> is UNIQUE: a second insert with the same id fails and the caller drops the error.\<close>

definition CreateTask :: "Database \<Rightarrow> Task \<Rightarrow> Database" where
  "CreateTask d task =
     (if TaskID task \<in> set (map TaskID (tasks_tbl d)) then d
      else d\<lparr>tasks_tbl := tasks_tbl d @ [task]\<rparr>)"

definition CompleteTask :: "Database \<Rightarrow> string \<Rightarrow> string \<Rightarrow> time \<Rightarrow> Database" where
  "CompleteTask d taskID localURL now =
     d\<lparr>tasks_tbl :=
         map (\<lambda>t. if TaskID t = taskID
                  then t\<lparr>TaskStatus := ''completed'', TaskProgress := 100,
                         TaskResultURLs := [localURL], TaskCompletedAt := Some now\<rparr>
                  else t) (tasks_tbl d)\<rparr>"

section \<open>binary64 arithmetic\<close>

text \<open>
  A \<open>float64\<close> is the rational number it denotes, and an operation is the exact
  operation followed by rounding to the nearest number with a 53-bit significand, ties
  to the even significand. The numbers that occur here (credit balances, durations,
  minutes, percentages) are far from overflow and from the subnormal range, where this
  is what IEEE 754 binary64 computes. \<open>exponent x\<close> is the \<open>e\<close> with
  \<open>2^e \<le> x < 2^(e+1)\<close> for a positive \<open>x\<close>.
\<close>

definition round_even :: "rat \<Rightarrow> int" where
  "round_even r =
     (let f = \<lfloor>r\<rfloor> in
      if r - of_int f < 1 / 2 then f
      else if 1 / 2 < r - of_int f then f + 1
      else if even f then f else f + 1)"

definition exponent :: "rat \<Rightarrow> int" where
  "exponent x =
     (case quotient_of x of
        (p, q) \<Rightarrow> let k = bitlen p - bitlen q in if 2 powi k \<le> x then k else k - 1)"

definition fl_pos :: "rat \<Rightarrow> rat" where
  "fl_pos x = of_int (round_even (x / 2 powi (exponent x - 52))) * 2 powi (exponent x - 52)"

definition fl :: "rat \<Rightarrow> rat" where
  "fl x = (if x = 0 then 0 else if 0 < x then fl_pos x else - fl_pos (- x))"

text \<open>The conversion \<open>float64(n)\<close> of an integer.\<close>

definition float64_of_int :: "int \<Rightarrow> rat" where
  "float64_of_int n = fl (of_int n)"

text \<open>Go's integer division truncates towards zero, and the remainder has the sign of the dividend.\<close>

definition go_div :: "int \<Rightarrow> int \<Rightarrow> int" where
  "go_div a b = sgn a * sgn b * (\<bar>a\<bar> div \<bar>b\<bar>)"

definition go_mod :: "int \<Rightarrow> int \<Rightarrow> int" where
  "go_mod a b = a - b * go_div a b"

text \<open>The conversion \<open>int(x)\<close> of a \<open>float64\<close> drops the fraction.\<close>

definition int_of_float64 :: "rat \<Rightarrow> int" where
  "int_of_float64 x = (if 0 \<le> x then \<lfloor>x\<rfloor> else \<lceil>x\<rceil>)"

text \<open>
  \<open>Duration.Seconds\<close> of package time:
  \<open>sec := d / Second; nsec := d % Second; return float64(sec) + float64(nsec)/1e9\<close>.
\<close>

definition Duration_Seconds :: "int \<Rightarrow> rat" where
  "Duration_Seconds d =
     fl (float64_of_int (go_div d 1000000000) +
         fl (float64_of_int (go_mod d 1000000000) / 1000000000))"

section \<open>Time (package time)\<close>

text \<open>
  A \<open>time.Duration\<close> is a signed 64-bit count of nanoseconds; \<open>Time.Sub\<close> saturates at
  the smallest and largest duration.
\<close>

definition Hour :: int where
  "Hour = 3600000000000"

definition time_Sub :: "time \<Rightarrow> time \<Rightarrow> int" where
  "time_Sub t u = max (- 9223372036854775808) (min 9223372036854775807 (t - u))"

definition time_Before :: "time \<Rightarrow> time \<Rightarrow> bool" where
  "time_Before t u = (t < u)"

text \<open>\<open>token.ATExpires != nil && token.ATExpires.Before(now)\<close>\<close>

definition at_expired :: "Token \<Rightarrow> time \<Rightarrow> bool" where
  "at_expired token now = (case ATExpires token of None \<Rightarrow> False | Some e \<Rightarrow> time_Before e now)"

section \<open>The upstream client, as the services see it\<close>

text \<open>
  The calls of \<open>client.FlowClient\<close> are answers given by the environment: each is a function
  from the arguments of the call to an error text or a value. \<open>STToAT\<close> answers with the
  access token and the expiry, \<open>None\<close> when the field is missing or does not parse as
  RFC 3339; \<open>GetCredits\<close> with the credit balance when the field is a number. The status
  probe is answered per attempt. The calls made, and the sleeps of the poll loop, are
  recorded in order. \<open>formatVerbs\<close> is what package fmt makes of a format that has a
  percent sign and is given no operand.
\<close>

text \<open>
  A status probe answers with an error, with no operation, with a first operation that is
  not an object (the unchecked type assertion panics), or with a status text and, when
  the fields are there, the video URL and the operation name.
\<close>

datatype probe =
    ProbeError error
  | ProbeNoOperations
  | ProbeMalformed
  | ProbeStatus string "(string \<times> string option) option"

text \<open>What a submission returns: no entry, an entry that is not of the expected shape, or the value.\<close>

datatype submitted =
    NoEntry
  | MalformedEntry
  | Entry string

record Upstream =
  STToAT :: "string \<Rightarrow> error + (string \<times> time option)"
  GetCredits :: "string \<Rightarrow> error + go_int option"
  CreateProject :: "string \<Rightarrow> string \<Rightarrow> error + string"
  UploadImage :: "string \<Rightarrow> string \<Rightarrow> string \<Rightarrow> error + string"
  GenerateImage :: "string \<Rightarrow> string \<Rightarrow> string \<Rightarrow> string \<Rightarrow> string \<Rightarrow> string list \<Rightarrow> error + submitted"
  GenerateVideoText :: "string \<Rightarrow> string \<Rightarrow> string \<Rightarrow> string \<Rightarrow> string \<Rightarrow> string \<Rightarrow> error + submitted"
  GenerateVideoStartEnd ::
    "string \<Rightarrow> string \<Rightarrow> string \<Rightarrow> string \<Rightarrow> string \<Rightarrow> string \<Rightarrow> string \<Rightarrow> string \<Rightarrow> error + submitted"
  GenerateVideoReferenceImages ::
    "string \<Rightarrow> string \<Rightarrow> string \<Rightarrow> string \<Rightarrow> string \<Rightarrow> string list \<Rightarrow> string \<Rightarrow> error + submitted"
  CheckVideoStatus :: "nat \<Rightarrow> probe"
  cacheFile :: "string \<Rightarrow> string \<Rightarrow> error + string"
  formatVerbs :: "string \<Rightarrow> string"

datatype upstream_call =
    Call_STToAT string
  | Call_GetCredits string
  | Call_CreateProject string string
  | Call_UploadImage string string
  | Call_GenerateImage string "string list"
  | Call_GenerateVideoText string
  | Call_GenerateVideoStartEnd string string string
  | Call_GenerateVideoReferenceImages string "string list"
  | Call_Sleep int
  | Call_CheckVideoStatus nat
  | Call_cacheFile string

record world =
  w_db :: Database
  w_cm :: ConcurrencyManager
  w_calls :: "upstream_call list"

definition called :: "world \<Rightarrow> upstream_call \<Rightarrow> world" where
  "called w c = w\<lparr>w_calls := w_calls w @ [c]\<rparr>"

section \<open>TokenManager (services/concurrency_manager.go)\<close>

definition EnableToken :: "Database \<Rightarrow> token_id \<Rightarrow> Database" where
  "EnableToken d tokenID = ResetErrorCount (UpdateToken d tokenID [Set_is_active True]) tokenID"

definition DisableToken :: "Database \<Rightarrow> token_id \<Rightarrow> Database" where
  "DisableToken d tokenID = UpdateToken d tokenID [Set_is_active False]"

definition refreshATInternal :: "Upstream \<Rightarrow> world \<Rightarrow> token_id \<Rightarrow> (bool \<times> error option) \<times> world" where
  "refreshATInternal up w tokenID =
     (case GetToken (w_db w) tokenID of
        Inl err \<Rightarrow> ((False, Some err), w)
      | Inr token \<Rightarrow>
          let w1 = called w (Call_STToAT (ST token)) in
          (case STToAT up (ST token) of
             Inl err \<Rightarrow> ((False, Some err), w1\<lparr>w_db := DisableToken (w_db w1) tokenID\<rparr>)
           | Inr (newAT, newATExpires) \<Rightarrow>
               let updates = Set_at newAT #
                     (case newATExpires of None \<Rightarrow> [] | Some e \<Rightarrow> [Set_at_expires e]);
                   w2 = w1\<lparr>w_db := UpdateToken (w_db w1) tokenID updates\<rparr>;
                   w3 = called w2 (Call_GetCredits newAT)
               in (case GetCredits up newAT of
                     Inr (Some credits) \<Rightarrow>
                       ((True, None), w3\<lparr>w_db := UpdateToken (w_db w3) tokenID [Set_credits credits]\<rparr>)
                   | Inr None \<Rightarrow> ((True, None), w3)
                   | Inl err \<Rightarrow> ((True, None), w3))))"

definition IsATValid :: "Upstream \<Rightarrow> time \<Rightarrow> world \<Rightarrow> token_id \<Rightarrow> (bool \<times> error option) \<times> world" where
  "IsATValid up now w tokenID =
     (case GetToken (w_db w) tokenID of
        Inl err \<Rightarrow> ((False, Some err), w)
      | Inr token \<Rightarrow>
          if AT token = [] then refreshATInternal up w tokenID
          else (case ATExpires token of
                  None \<Rightarrow> refreshATInternal up w tokenID
                | Some e \<Rightarrow>
                    if time_Sub e now < Hour then refreshATInternal up w tokenID
                    else ((True, None), w)))"

text \<open>The project name is the formatted local time, handed in as \<open>projectName\<close>.\<close>

definition EnsureProjectExists :: "Upstream \<Rightarrow> string \<Rightarrow> world \<Rightarrow> token_id \<Rightarrow> (error + string) \<times> world" where
  "EnsureProjectExists up projectName w tokenID =
     (case GetToken (w_db w) tokenID of
        Inl err \<Rightarrow> (Inl ''token not found'', w)
      | Inr token \<Rightarrow>
          if CurrentProjectID token \<noteq> [] then (Inr (CurrentProjectID token), w)
          else
            let w1 = called w (Call_CreateProject (ST token) projectName) in
            (case CreateProject up (ST token) projectName of
               Inl err \<Rightarrow> (Inl (''failed to create project: '' @ err), w1)
             | Inr projectID \<Rightarrow>
                 let d1 = UpdateToken (w_db w1) tokenID
                            [Set_current_project_id projectID, Set_current_project_name projectName];
                     d2 = AddProject d1
                            \<lparr>ProjectID = projectID, ProjectTokenID = tokenID,
                             ProjectName = projectName, ToolName = ''PINHOLE'', ProjectIsActive = True\<rparr>
                 in (Inr projectID, w1\<lparr>w_db := d2\<rparr>)))"

definition RecordUsage :: "Database \<Rightarrow> token_id \<Rightarrow> bool \<Rightarrow> time \<Rightarrow> string \<Rightarrow> error option \<times> Database" where
  "RecordUsage d tokenID isVideo now today =
     IncrementTokenStats (UpdateToken d tokenID [Set_last_used_at now]) tokenID
       (if isVideo then ''video'' else ''image'') now today"

definition RecordError :: "Database \<Rightarrow> token_id \<Rightarrow> time \<Rightarrow> string \<Rightarrow> error option \<times> Database" where
  "RecordError d tokenID now today =
     (case IncrementTokenStats d tokenID ''error'' now today of
        (Some err, d1) \<Rightarrow> (Some err, d1)
      | (None, d1) \<Rightarrow>
          let stats = GetTokenStats d1 tokenID in
          (case GetAdminConfig d1 of
             Inl err \<Rightarrow> (Some err, d1)
           | Inr adminConfig \<Rightarrow>
               if ErrorBanThreshold adminConfig \<le> ConsecutiveErrorCount stats
               then (None, DisableToken d1 tokenID)
               else (None, d1)))"

definition RecordSuccess :: "Database \<Rightarrow> token_id \<Rightarrow> Database" where
  "RecordSuccess d tokenID = ResetErrorCount d tokenID"

definition BanTokenFor429 :: "Database \<Rightarrow> token_id \<Rightarrow> time \<Rightarrow> Database" where
  "BanTokenFor429 d tokenID now =
     UpdateToken d tokenID
       [Set_is_active False, Set_ban_reason (Some ''429_rate_limit''), Set_banned_at (Some now)]"

text \<open>The body of the loop of \<open>AutoUnban429Tokens\<close>, for one token of the list read at the start.\<close>

definition unban_token :: "time \<Rightarrow> Database \<Rightarrow> Token \<Rightarrow> Database" where
  "unban_token now d token =
     (case BannedAt token of
        None \<Rightarrow> d
      | Some bannedAt \<Rightarrow>
          if BanReason token \<noteq> ''429_rate_limit'' \<or> IsActive token then d
          else if at_expired token now then d
          else if 12 * Hour \<le> time_Sub now bannedAt
          then ResetErrorCount
                 (UpdateToken d (ID token)
                    [Set_is_active True, Set_ban_reason None, Set_banned_at None])
                 (ID token)
          else d)"

definition AutoUnban429Tokens :: "Database \<Rightarrow> time \<Rightarrow> Database" where
  "AutoUnban429Tokens d now = foldl (unban_token now) d (GetAllTokens d)"

section \<open>LoadBalancer (services/concurrency_manager.go)\<close>

text \<open>
  The score is a \<open>float64\<close>: the credits converted, plus the minutes since the last use
  (\<open>timeSinceUse.Seconds() / 60\<close>) or 1000, each operation rounded.
\<close>

definition token_score :: "time \<Rightarrow> Token \<Rightarrow> rat" where
  "token_score now token =
     (case LastUsedAt token of
        Some lastUsedAt \<Rightarrow>
          fl (float64_of_int (sint (Credits token)) +
              fl (Duration_Seconds (time_Sub now lastUsedAt) / 60))
      | None \<Rightarrow> fl (float64_of_int (sint (Credits token)) + 1000))"

fun select_loop ::
  "ConcurrencyManager \<Rightarrow> bool \<Rightarrow> bool \<Rightarrow> time \<Rightarrow> Token list \<Rightarrow> Token option \<times> rat \<Rightarrow> Token option \<times> rat" where
  "select_loop cm forImage forVideo now [] best = best"
| "select_loop cm forImage forVideo now (token # rest) (bestToken, bestScore) =
     (if forImage \<and> \<not> ImageEnabled token
      then select_loop cm forImage forVideo now rest (bestToken, bestScore)
      else if forVideo \<and> \<not> VideoEnabled token
      then select_loop cm forImage forVideo now rest (bestToken, bestScore)
      else if at_expired token now
      then select_loop cm forImage forVideo now rest (bestToken, bestScore)
      else if forImage \<and> 0 <s ImageConcurrency token \<and> \<not> CanAcquireImage cm (ID token)
      then select_loop cm forImage forVideo now rest (bestToken, bestScore)
      else if forVideo \<and> 0 <s VideoConcurrency token \<and> \<not> CanAcquireVideo cm (ID token)
      then select_loop cm forImage forVideo now rest (bestToken, bestScore)
      else if bestScore < token_score now token
      then select_loop cm forImage forVideo now rest (Some token, token_score now token)
      else select_loop cm forImage forVideo now rest (bestToken, bestScore))"

definition SelectToken ::
  "Database \<Rightarrow> ConcurrencyManager \<Rightarrow> bool \<Rightarrow> bool \<Rightarrow> string \<Rightarrow> time \<Rightarrow> Token option" where
  "SelectToken d cm forImage forVideo model now =
     fst (select_loop cm forImage forVideo now (GetActiveTokens d) (None, - 1))"

text \<open>
  The three filters of the scheduler as one predicate: the capability flag of the requested
  kind, a known expiry that has passed, and, for a positive declared limit only, the
  non-mutating slot check.
\<close>

definition survives :: "ConcurrencyManager \<Rightarrow> bool \<Rightarrow> bool \<Rightarrow> time \<Rightarrow> Token \<Rightarrow> bool" where
  "survives cm forImage forVideo now token =
     ((forImage \<longrightarrow> ImageEnabled token) \<and>
      (forVideo \<longrightarrow> VideoEnabled token) \<and>
      \<not> at_expired token now \<and>
      (forImage \<and> 0 <s ImageConcurrency token \<longrightarrow> CanAcquireImage cm (ID token)) \<and>
      (forVideo \<and> 0 <s VideoConcurrency token \<longrightarrow> CanAcquireVideo cm (ID token)))"

text \<open>
  Driver: consecutive calls of \<open>RecordError\<close> for one credential, one per clock reading
  (the instant and the local date of the call).
\<close>

fun recordErrors :: "Database \<Rightarrow> token_id \<Rightarrow> (time \<times> string) list \<Rightarrow> Database" where
  "recordErrors d tokenID [] = d"
| "recordErrors d tokenID ((now, today) # clock) =
     recordErrors (snd (RecordError d tokenID now today)) tokenID clock"

text \<open>
  The credentials the sweep is meant to reactivate, in the words of the specification:
  inactive, banned for the rate limit, with a recorded ban time at least twelve hours
  before \<open>now\<close>, and with no known expiry of the access token before \<open>now\<close>.
\<close>

definition unban_due :: "time \<Rightarrow> Token \<Rightarrow> bool" where
  "unban_due now t =
     (\<not> IsActive t \<and> BanReason t = ''429_rate_limit'' \<and>
      (case BannedAt t of None \<Rightarrow> False | Some b \<Rightarrow> 12 * Hour \<le> now - b) \<and>
      (case ATExpires t of None \<Rightarrow> True | Some e \<Rightarrow> \<not> e < now))"

definition unbanned :: "Token \<Rightarrow> Token" where
  "unbanned t = t\<lparr>IsActive := True, BanReason := [], BannedAt := None\<rparr>"

section \<open>GenerationHandler (services/generation_handler.go)\<close>

text \<open>
  The configuration values the handler reads, the readings of the clock during one
  request (the instant the scheduler scores at, the instant the freshness check compares
  with, the instant of the accounting at the end, the local date and the generated
  project name), and the messages put on the channel: a progress line
  (\<open>createStreamChunk\<close> with reasoning content), the final content, the structured error
  and the answer of the availability check. The text of a message is kept without its
  leading pictograph, its newline and its JSON envelope.
\<close>

record Config =
  MaxPollAttempts :: int
  PollInterval :: int
  CacheEnabled :: bool

record readings =
  ck_select :: time
  ck_check :: time
  ck_record :: time
  ck_today :: string
  ck_project_name :: string

datatype chunk =
    Progress string
  | Content string
  | ErrorResponse string
  | Completion string

text \<open>How a call ends: with \<open>nil\<close>, with an error, or in a panic of an unchecked type assertion.\<close>

datatype outcome = Done | Failed error | Panicked

record ModelConfig =
  Type :: string
  VideoType :: string
  ModelName :: string
  ModelKey :: string
  AspectRatio :: string
  SupportsImages :: bool
  MinImages :: int
  MaxImages :: int

definition ModelConfigs :: "string \<rightharpoonup> ModelConfig" where
  "ModelConfigs =
     map_of
      [(''gemini-2.5-flash-image-landscape'',
        \<lparr>Type = ''image'', VideoType = [], ModelName = ''GEM_PIX'', ModelKey = [],
         AspectRatio = ''IMAGE_ASPECT_RATIO_LANDSCAPE'',
         SupportsImages = False, MinImages = 0, MaxImages = 0\<rparr>),
       (''gemini-2.5-flash-image-portrait'',
        \<lparr>Type = ''image'', VideoType = [], ModelName = ''GEM_PIX'', ModelKey = [],
         AspectRatio = ''IMAGE_ASPECT_RATIO_PORTRAIT'',
         SupportsImages = False, MinImages = 0, MaxImages = 0\<rparr>),
       (''gemini-3.0-pro-image-landscape'',
        \<lparr>Type = ''image'', VideoType = [], ModelName = ''GEM_PIX_2'', ModelKey = [],
         AspectRatio = ''IMAGE_ASPECT_RATIO_LANDSCAPE'',
         SupportsImages = False, MinImages = 0, MaxImages = 0\<rparr>),
       (''gemini-3.0-pro-image-portrait'',
        \<lparr>Type = ''image'', VideoType = [], ModelName = ''GEM_PIX_2'', ModelKey = [],
         AspectRatio = ''IMAGE_ASPECT_RATIO_PORTRAIT'',
         SupportsImages = False, MinImages = 0, MaxImages = 0\<rparr>),
       (''imagen-4.0-generate-preview-landscape'',
        \<lparr>Type = ''image'', VideoType = [], ModelName = ''IMAGEN_3_5'', ModelKey = [],
         AspectRatio = ''IMAGE_ASPECT_RATIO_LANDSCAPE'',
         SupportsImages = False, MinImages = 0, MaxImages = 0\<rparr>),
       (''imagen-4.0-generate-preview-portrait'',
        \<lparr>Type = ''image'', VideoType = [], ModelName = ''IMAGEN_3_5'', ModelKey = [],
         AspectRatio = ''IMAGE_ASPECT_RATIO_PORTRAIT'',
         SupportsImages = False, MinImages = 0, MaxImages = 0\<rparr>),
       (''veo_3_1_t2v_fast_portrait'',
        \<lparr>Type = ''video'', VideoType = ''t2v'', ModelName = [], ModelKey = ''veo_3_1_t2v_fast_portrait'',
         AspectRatio = ''VIDEO_ASPECT_RATIO_PORTRAIT'',
         SupportsImages = False, MinImages = 0, MaxImages = 0\<rparr>),
       (''veo_3_1_t2v_fast_landscape'',
        \<lparr>Type = ''video'', VideoType = ''t2v'', ModelName = [], ModelKey = ''veo_3_1_t2v_fast'',
         AspectRatio = ''VIDEO_ASPECT_RATIO_LANDSCAPE'',
         SupportsImages = False, MinImages = 0, MaxImages = 0\<rparr>),
       (''veo_2_1_fast_d_15_t2v_portrait'',
        \<lparr>Type = ''video'', VideoType = ''t2v'', ModelName = [], ModelKey = ''veo_2_1_fast_d_15_t2v'',
         AspectRatio = ''VIDEO_ASPECT_RATIO_PORTRAIT'',
         SupportsImages = False, MinImages = 0, MaxImages = 0\<rparr>),
       (''veo_2_1_fast_d_15_t2v_landscape'',
        \<lparr>Type = ''video'', VideoType = ''t2v'', ModelName = [], ModelKey = ''veo_2_1_fast_d_15_t2v'',
         AspectRatio = ''VIDEO_ASPECT_RATIO_LANDSCAPE'',
         SupportsImages = False, MinImages = 0, MaxImages = 0\<rparr>),
       (''veo_2_0_t2v_portrait'',
        \<lparr>Type = ''video'', VideoType = ''t2v'', ModelName = [], ModelKey = ''veo_2_0_t2v'',
         AspectRatio = ''VIDEO_ASPECT_RATIO_PORTRAIT'',
         SupportsImages = False, MinImages = 0, MaxImages = 0\<rparr>),
       (''veo_2_0_t2v_landscape'',
        \<lparr>Type = ''video'', VideoType = ''t2v'', ModelName = [], ModelKey = ''veo_2_0_t2v'',
         AspectRatio = ''VIDEO_ASPECT_RATIO_LANDSCAPE'',
         SupportsImages = False, MinImages = 0, MaxImages = 0\<rparr>),
       (''veo_3_1_i2v_s_fast_fl_portrait'',
        \<lparr>Type = ''video'', VideoType = ''i2v'', ModelName = [], ModelKey = ''veo_3_1_i2v_s_fast_fl'',
         AspectRatio = ''VIDEO_ASPECT_RATIO_PORTRAIT'',
         SupportsImages = True, MinImages = 1, MaxImages = 2\<rparr>),
       (''veo_3_1_i2v_s_fast_fl_landscape'',
        \<lparr>Type = ''video'', VideoType = ''i2v'', ModelName = [], ModelKey = ''veo_3_1_i2v_s_fast_fl'',
         AspectRatio = ''VIDEO_ASPECT_RATIO_LANDSCAPE'',
         SupportsImages = True, MinImages = 1, MaxImages = 2\<rparr>),
       (''veo_2_1_fast_d_15_i2v_portrait'',
        \<lparr>Type = ''video'', VideoType = ''i2v'', ModelName = [], ModelKey = ''veo_2_1_fast_d_15_i2v'',
         AspectRatio = ''VIDEO_ASPECT_RATIO_PORTRAIT'',
         SupportsImages = True, MinImages = 1, MaxImages = 2\<rparr>),
       (''veo_2_1_fast_d_15_i2v_landscape'',
        \<lparr>Type = ''video'', VideoType = ''i2v'', ModelName = [], ModelKey = ''veo_2_1_fast_d_15_i2v'',
         AspectRatio = ''VIDEO_ASPECT_RATIO_LANDSCAPE'',
         SupportsImages = True, MinImages = 1, MaxImages = 2\<rparr>),
       (''veo_2_0_i2v_portrait'',
        \<lparr>Type = ''video'', VideoType = ''i2v'', ModelName = [], ModelKey = ''veo_2_0_i2v'',
         AspectRatio = ''VIDEO_ASPECT_RATIO_PORTRAIT'',
         SupportsImages = True, MinImages = 1, MaxImages = 2\<rparr>),
       (''veo_2_0_i2v_landscape'',
        \<lparr>Type = ''video'', VideoType = ''i2v'', ModelName = [], ModelKey = ''veo_2_0_i2v'',
         AspectRatio = ''VIDEO_ASPECT_RATIO_LANDSCAPE'',
         SupportsImages = True, MinImages = 1, MaxImages = 2\<rparr>),
       (''veo_3_0_r2v_fast_portrait'',
        \<lparr>Type = ''video'', VideoType = ''r2v'', ModelName = [], ModelKey = ''veo_3_0_r2v_fast'',
         AspectRatio = ''VIDEO_ASPECT_RATIO_PORTRAIT'',
         SupportsImages = True, MinImages = 0, MaxImages = - 1\<rparr>),
       (''veo_3_0_r2v_fast_landscape'',
        \<lparr>Type = ''video'', VideoType = ''r2v'', ModelName = [], ModelKey = ''veo_3_0_r2v_fast'',
         AspectRatio = ''VIDEO_ASPECT_RATIO_LANDSCAPE'',
         SupportsImages = True, MinImages = 0, MaxImages = - 1\<rparr>)]"

subsection \<open>Strings\<close>

definition strings_Contains :: "string \<Rightarrow> string \<Rightarrow> bool" where
  "strings_Contains s substr = sublist substr s"

definition strings_HasPrefix :: "string \<Rightarrow> string \<Rightarrow> bool" where
  "strings_HasPrefix s p = prefix p s"

text \<open>The \<open>%d\<close> verb: decimal digits, with a minus sign for a negative number.\<close>

function string_of_nat :: "nat \<Rightarrow> string" where
  "string_of_nat n =
     (if n < 10 then [''0123456789'' ! n]
      else string_of_nat (n div 10) @ [''0123456789'' ! (n mod 10)])"
  by pat_completeness auto
termination
  by (relation "measure id") auto

declare string_of_nat.simps [simp del]

definition string_of_int :: "int \<Rightarrow> string" where
  "string_of_int i = (if i < 0 then ''-'' @ string_of_nat (nat (- i)) else string_of_nat (nat i))"

subsection \<open>Polling a video operation\<close>

text \<open>
  \<open>pollVideoResult\<close>: the \<open>for\<close> loop from \<open>attempt\<close> on. Each round sleeps, then probes.
  A successful status carries the video URL and, when present, the operation name; a
  missing field panics at the place the source reads it.
\<close>

text \<open>\<open>min(int(float64(attempt) / float64(maxAttempts) * 100), 95)\<close>\<close>

definition progress_percent :: "int \<Rightarrow> int \<Rightarrow> int" where
  "progress_percent attempt maxAttempts =
     min (int_of_float64 (fl (fl (float64_of_int attempt / float64_of_int maxAttempts) * 100))) 95"

text \<open>
  \<open>fmt.Errorf(errMsg)\<close> reads the message as a format and is given no operand: a text
  without a percent sign is copied; for one with a percent sign the text of the error is
  the answer of \<open>formatVerbs\<close>. Only the message made of a status text can have one;
  the others are fixed texts and decimal numbers.
\<close>

definition fmt_Errorf :: "Upstream \<Rightarrow> string \<Rightarrow> error" where
  "fmt_Errorf up format = (if CHR ''%'' \<in> set format then formatVerbs up format else format)"

text \<open>\<open><video src='%s' controls style='max-width:100%%'></video>\<close>\<close>

definition video_tag :: "string \<Rightarrow> string" where
  "video_tag url =
     ''<video src='' @ [CHR 0x27] @ url @ [CHR 0x27] @ '' controls style='' @ [CHR 0x27] @
     ''max-width:100%'' @ [CHR 0x27] @ ''></video>''"

definition timeout_message :: "Config \<Rightarrow> string" where
  "timeout_message cfg =
     ''Video generation timeout (polled '' @ string_of_int (MaxPollAttempts cfg) @ '' times)''"

function poll_loop ::
  "Upstream \<Rightarrow> Config \<Rightarrow> readings \<Rightarrow> int \<Rightarrow> world \<Rightarrow> chunk list \<Rightarrow> outcome \<times> world \<times> chunk list" where
  "poll_loop up cfg rd attempt w out =
     (if attempt < MaxPollAttempts cfg then
        let w1 = called (called w (Call_Sleep (PollInterval cfg))) (Call_CheckVideoStatus (nat attempt)) in
        (case CheckVideoStatus up (nat attempt) of
           ProbeError err \<Rightarrow> poll_loop up cfg rd (attempt + 1) w1 out
         | ProbeNoOperations \<Rightarrow> poll_loop up cfg rd (attempt + 1) w1 out
         | ProbeMalformed \<Rightarrow> (Panicked, w1, out)
         | ProbeStatus status payload \<Rightarrow>
             let out1 =
                   (if attempt mod 7 = 0
                    then out @ [Progress (''Progress: '' @
                           string_of_int (progress_percent attempt (MaxPollAttempts cfg)) @ ''%'')]
                    else out)
             in
             if status = ''MEDIA_GENERATION_STATUS_SUCCESSFUL'' then
               (case payload of
                  None \<Rightarrow> (Panicked, w1, out1)
                | Some (videoURL, name) \<Rightarrow>
                    let cached =
                          (if CacheEnabled cfg then
                             (case cacheFile up videoURL ''video'' of
                                Inr cachedURL \<Rightarrow>
                                  (cachedURL, called w1 (Call_cacheFile videoURL),
                                   out1 @ [Progress ''Caching video...'', Progress ''Video cached''])
                              | Inl err \<Rightarrow>
                                  (videoURL, called w1 (Call_cacheFile videoURL),
                                   out1 @ [Progress ''Caching video...'']))
                           else (videoURL, w1, out1))
                    in
                    (case cached of
                       (localURL, w2, out2) \<Rightarrow>
                         (case name of
                            None \<Rightarrow> (Panicked, w2, out2)
                          | Some taskID \<Rightarrow>
                              (Done,
                               w2\<lparr>w_db := CompleteTask (w_db w2) taskID localURL (ck_record rd)\<rparr>,
                               out2 @ [Content (video_tag localURL)]))))
             else if strings_HasPrefix status ''MEDIA_GENERATION_STATUS_ERROR'' then
               (Failed (fmt_Errorf up (''Video generation failed: '' @ status)), w1,
                out1 @ [Progress (''Video generation failed: '' @ status),
                        ErrorResponse (''Video generation failed: '' @ status)])
             else poll_loop up cfg rd (attempt + 1) w1 out1)
      else
        (Failed (timeout_message cfg), w,
         out @ [Progress (timeout_message cfg), ErrorResponse (timeout_message cfg)]))"
  by pat_completeness auto
termination
  by (relation "measure (\<lambda>(up, cfg, rd, attempt, w, out). nat (MaxPollAttempts cfg - attempt))") auto

declare poll_loop.simps [simp del]

definition pollVideoResult ::
  "Upstream \<Rightarrow> Config \<Rightarrow> readings \<Rightarrow> world \<Rightarrow> outcome \<times> world \<times> chunk list" where
  "pollVideoResult up cfg rd w = poll_loop up cfg rd 0 w []"

text \<open>
  For the properties of the loop: the calls that \<open>n - a\<close> rounds from attempt \<open>a\<close> make,
  the status probes among a list of calls, and the probe answers that do not end the loop.
\<close>

definition poll_calls :: "Config \<Rightarrow> nat \<Rightarrow> nat \<Rightarrow> upstream_call list" where
  "poll_calls cfg a n =
     concat (map (\<lambda>k. [Call_Sleep (PollInterval cfg), Call_CheckVideoStatus k]) [a..<n])"

fun is_probe :: "upstream_call \<Rightarrow> bool" where
  "is_probe (Call_CheckVideoStatus k) = True"
| "is_probe c = False"

fun is_sleep :: "upstream_call \<Rightarrow> bool" where
  "is_sleep (Call_Sleep d) = True"
| "is_sleep c = False"

fun keeps_polling :: "probe \<Rightarrow> bool" where
  "keeps_polling (ProbeError err) = True"
| "keeps_polling ProbeNoOperations = True"
| "keeps_polling ProbeMalformed = False"
| "keeps_polling (ProbeStatus status payload) =
     (status \<noteq> ''MEDIA_GENERATION_STATUS_SUCCESSFUL'' \<and>
      \<not> strings_HasPrefix status ''MEDIA_GENERATION_STATUS_ERROR'')"

subsection \<open>Image generation\<close>

text \<open>
  The upload loop of \<open>handleImageGeneration\<close>: the media ids in order, or the error of
  the first upload that fails. \<open>idx\<close> is the loop index, \<open>imageTotal\<close> the number of images.
\<close>

fun upload_references ::
  "Upstream \<Rightarrow> Token \<Rightarrow> string \<Rightarrow> nat \<Rightarrow> nat \<Rightarrow> string list \<Rightarrow> world \<Rightarrow> chunk list \<Rightarrow> string list
   \<Rightarrow> (error + string list) \<times> world \<times> chunk list" where
  "upload_references up token aspect imageTotal idx [] w out inputs = (Inr inputs, w, out)"
| "upload_references up token aspect imageTotal idx (img # rest) w out inputs =
     (let w1 = called w (Call_UploadImage (AT token) img) in
      case UploadImage up (AT token) img aspect of
        Inl err \<Rightarrow>
          (Inl (''failed to upload image '' @ string_of_nat (idx + 1) @ '': '' @ err), w1, out)
      | Inr mediaID \<Rightarrow>
          upload_references up token aspect imageTotal (idx + 1) rest w1
            (out @ [Progress (''Uploaded image '' @ string_of_nat (idx + 1) @ ''/'' @ string_of_nat imageTotal)])
            (inputs @ [mediaID]))"

text \<open>The body of \<open>handleImageGeneration\<close> after the slot was acquired.\<close>

definition image_body ::
  "Upstream \<Rightarrow> Config \<Rightarrow> world \<Rightarrow> Token \<Rightarrow> string \<Rightarrow> ModelConfig \<Rightarrow> string \<Rightarrow> string list
   \<Rightarrow> outcome \<times> world \<times> chunk list" where
  "image_body up cfg w token projectID modelConfig prompt images =
     (case upload_references up token (AspectRatio modelConfig) (length images) 0 images w
             (if images \<noteq> []
              then [Progress (''Uploading '' @ string_of_nat (length images) @ '' reference image(s)...'')]
              else [])
             [] of
        (Inl err, w1, out1) \<Rightarrow> (Failed err, w1, out1)
      | (Inr imageInputs, w1, out1) \<Rightarrow>
          let out2 = out1 @ [Progress ''Generating image...''];
              w2 = called w1 (Call_GenerateImage (AT token) imageInputs)
          in
          (case GenerateImage up (AT token) projectID prompt (ModelName modelConfig)
                  (AspectRatio modelConfig) imageInputs of
             Inl err \<Rightarrow>
               (Failed err, w2,
                out2 @ [Progress (''Generation failed: '' @ err), ErrorResponse (''Generation failed: '' @ err)])
           | Inr NoEntry \<Rightarrow>
               (Failed ''Empty generation result'', w2,
                out2 @ [Progress ''Empty generation result'', ErrorResponse ''Empty generation result''])
           | Inr MalformedEntry \<Rightarrow> (Panicked, w2, out2)
           | Inr (Entry imageURL) \<Rightarrow>
               if CacheEnabled cfg then
                 (case cacheFile up imageURL ''image'' of
                    Inr cachedURL \<Rightarrow>
                      (Done, called w2 (Call_cacheFile imageURL),
                       out2 @ [Progress ''Caching image...'', Progress ''Image cached'',
                               Content (''![Generated Image]('' @ cachedURL @ '')'')])
                  | Inl err \<Rightarrow>
                      (Done, called w2 (Call_cacheFile imageURL),
                       out2 @ [Progress ''Caching image...'', Progress (''Cache failed: '' @ err),
                               Content (''![Generated Image]('' @ imageURL @ '')'')]))
               else (Done, w2, out2 @ [Content (''![Generated Image]('' @ imageURL @ '')'')])))"

text \<open>
  \<open>handleImageGeneration\<close>: a denied slot returns at once; after a granted slot the
  deferred \<open>ReleaseImage\<close> runs on every exit, a panic included.
\<close>

definition handleImageGeneration ::
  "Upstream \<Rightarrow> Config \<Rightarrow> world \<Rightarrow> Token \<Rightarrow> string \<Rightarrow> ModelConfig \<Rightarrow> string \<Rightarrow> string list
   \<Rightarrow> outcome \<times> world \<times> chunk list" where
  "handleImageGeneration up cfg w token projectID modelConfig prompt images =
     (case AcquireImage (w_cm w) (ID token) of
        (False, cm1) \<Rightarrow>
          (Failed ''Image concurrency limit reached'', w\<lparr>w_cm := cm1\<rparr>,
           [Progress ''Image concurrency limit reached'', ErrorResponse ''Image concurrency limit reached''])
      | (True, cm1) \<Rightarrow>
          (case image_body up cfg (w\<lparr>w_cm := cm1\<rparr>) token projectID modelConfig prompt images of
             (result, w1, out) \<Rightarrow> (result, w1\<lparr>w_cm := ReleaseImage (w_cm w1) (ID token)\<rparr>, out)))"

subsection \<open>Video generation\<close>

fun upload_reference_assets ::
  "Upstream \<Rightarrow> Token \<Rightarrow> string \<Rightarrow> nat \<Rightarrow> string list \<Rightarrow> world \<Rightarrow> string list
   \<Rightarrow> (error + string list) \<times> world" where
  "upload_reference_assets up token aspect idx [] w refs = (Inr refs, w)"
| "upload_reference_assets up token aspect idx (img # rest) w refs =
     (let w1 = called w (Call_UploadImage (AT token) img) in
      case UploadImage up (AT token) img aspect of
        Inl err \<Rightarrow>
          (Inl (''failed to upload reference image '' @ string_of_nat (idx + 1) @ '': '' @ err), w1)
      | Inr mediaID \<Rightarrow> upload_reference_assets up token aspect (idx + 1) rest w1 (refs @ [mediaID]))"

text \<open>
  The uploads of \<open>handleVideoGeneration\<close>: the start frame, the end frame and the
  reference assets (empty when not uploaded), or the error of the upload that failed.
\<close>

definition upload_video_inputs ::
  "Upstream \<Rightarrow> Token \<Rightarrow> ModelConfig \<Rightarrow> string list \<Rightarrow> world \<Rightarrow> chunk list
   \<Rightarrow> (error + string \<times> string \<times> string list) \<times> world \<times> chunk list" where
  "upload_video_inputs up token modelConfig images w out =
     (if VideoType modelConfig = ''i2v'' \<and> images \<noteq> [] then
        (case images of
           [img] \<Rightarrow>
             (let w1 = called w (Call_UploadImage (AT token) img);
                  out1 = out @ [Progress ''Uploading start frame...'']
              in case UploadImage up (AT token) img (AspectRatio modelConfig) of
                   Inl err \<Rightarrow> (Inl (''failed to upload start frame: '' @ err), w1, out1)
                 | Inr startID \<Rightarrow> (Inr (startID, [], []), w1, out1))
         | img0 # img1 # others \<Rightarrow>
             (let w1 = called w (Call_UploadImage (AT token) img0);
                  out1 = out @ [Progress ''Uploading start and end frames...'']
              in case UploadImage up (AT token) img0 (AspectRatio modelConfig) of
                   Inl err \<Rightarrow> (Inl (''failed to upload start frame: '' @ err), w1, out1)
                 | Inr startID \<Rightarrow>
                     (let w2 = called w1 (Call_UploadImage (AT token) img1)
                      in case UploadImage up (AT token) img1 (AspectRatio modelConfig) of
                           Inl err \<Rightarrow> (Inl (''failed to upload end frame: '' @ err), w2, out1)
                         | Inr endID \<Rightarrow> (Inr (startID, endID, []), w2, out1)))
         | [] \<Rightarrow> (Inr ([], [], []), w, out))
      else if VideoType modelConfig = ''r2v'' \<and> images \<noteq> [] then
        (case upload_reference_assets up token (AspectRatio modelConfig) 0 images w [] of
           (Inl err, w1) \<Rightarrow>
             (Inl err, w1,
              out @ [Progress (''Uploading '' @ string_of_nat (length images) @ '' reference images...'')])
         | (Inr refs, w1) \<Rightarrow>
             (Inr ([], [], refs), w1,
              out @ [Progress (''Uploading '' @ string_of_nat (length images) @ '' reference images...'')]))
      else (Inr ([], [], []), w, out))"

definition i2v_count_message :: "ModelConfig \<Rightarrow> nat \<Rightarrow> string" where
  "i2v_count_message modelConfig imageCount =
     ''I2V model requires '' @ string_of_int (MinImages modelConfig) @ ''-'' @
     string_of_int (MaxImages modelConfig) @ '' images, got '' @ string_of_nat imageCount"

text \<open>The body of \<open>handleVideoGeneration\<close> after the slot was acquired.\<close>

definition video_body ::
  "Upstream \<Rightarrow> Config \<Rightarrow> readings \<Rightarrow> world \<Rightarrow> Token \<Rightarrow> string \<Rightarrow> ModelConfig \<Rightarrow> string \<Rightarrow> string list
   \<Rightarrow> outcome \<times> world \<times> chunk list" where
  "video_body up cfg rd w token projectID modelConfig prompt images0 =
     (if VideoType modelConfig = ''i2v'' \<and>
         (int (length images0) < MinImages modelConfig \<or> MaxImages modelConfig < int (length images0))
      then
        (Failed (i2v_count_message modelConfig (length images0)), w,
         [Progress (i2v_count_message modelConfig (length images0)),
          ErrorResponse (i2v_count_message modelConfig (length images0))])
      else
        let dropped = (VideoType modelConfig = ''t2v'' \<and> images0 \<noteq> []);
            images = (if dropped then [] else images0);
            out0 = (if dropped then [Progress ''T2V model does not support images, ignoring...''] else [])
        in
        (case upload_video_inputs up token modelConfig images w out0 of
           (Inl err, w1, out1) \<Rightarrow> (Failed err, w1, out1)
         | (Inr (startMediaID, endMediaID, referenceImages), w1, out1) \<Rightarrow>
             let out2 = out1 @ [Progress ''Submitting video generation task...''];
                 userPaygateTier =
                   (if UserPaygateTier token = [] then ''PAYGATE_TIER_ONE'' else UserPaygateTier token);
                 submission =
                   (if VideoType modelConfig = ''i2v'' \<and> startMediaID \<noteq> [] then
                      (GenerateVideoStartEnd up (AT token) projectID prompt (ModelKey modelConfig)
                         (AspectRatio modelConfig) startMediaID endMediaID userPaygateTier,
                       called w1 (Call_GenerateVideoStartEnd (AT token) startMediaID endMediaID))
                    else if VideoType modelConfig = ''r2v'' \<and> referenceImages \<noteq> [] then
                      (GenerateVideoReferenceImages up (AT token) projectID prompt (ModelKey modelConfig)
                         (AspectRatio modelConfig) referenceImages userPaygateTier,
                       called w1 (Call_GenerateVideoReferenceImages (AT token) referenceImages))
                    else
                      (GenerateVideoText up (AT token) projectID prompt (ModelKey modelConfig)
                         (AspectRatio modelConfig) userPaygateTier,
                       called w1 (Call_GenerateVideoText (AT token))))
             in
             (case submission of
                (Inl err, w2) \<Rightarrow>
                  (Failed err, w2,
                   out2 @ [Progress (''Video generation failed: '' @ err),
                           ErrorResponse (''Video generation failed: '' @ err)])
              | (Inr NoEntry, w2) \<Rightarrow>
                  (Failed ''No operations in response'', w2,
                   out2 @ [Progress ''No operations in response'', ErrorResponse ''No operations in response''])
              | (Inr MalformedEntry, w2) \<Rightarrow> (Panicked, w2, out2)
              | (Inr (Entry taskID), w2) \<Rightarrow>
                  let w3 = w2\<lparr>w_db := CreateTask (w_db w2)
                             \<lparr>TaskID = taskID, TaskTokenID = ID token, TaskModel = ModelKey modelConfig,
                              TaskPrompt = prompt, TaskStatus = ''processing'', TaskProgress = 0,
                              TaskResultURLs = [], TaskCompletedAt = None\<rparr>\<rparr>
                  in poll_loop up cfg rd 0 w3 (out2 @ [Progress ''Video generating...'']))))"

definition handleVideoGeneration ::
  "Upstream \<Rightarrow> Config \<Rightarrow> readings \<Rightarrow> world \<Rightarrow> Token \<Rightarrow> string \<Rightarrow> ModelConfig \<Rightarrow> string \<Rightarrow> string list
   \<Rightarrow> outcome \<times> world \<times> chunk list" where
  "handleVideoGeneration up cfg rd w token projectID modelConfig prompt images =
     (case AcquireVideo (w_cm w) (ID token) of
        (False, cm1) \<Rightarrow>
          (Failed ''Video concurrency limit reached'', w\<lparr>w_cm := cm1\<rparr>,
           [Progress ''Video concurrency limit reached'', ErrorResponse ''Video concurrency limit reached''])
      | (True, cm1) \<Rightarrow>
          (case video_body up cfg rd (w\<lparr>w_cm := cm1\<rparr>) token projectID modelConfig prompt images of
             (result, w1, out) \<Rightarrow> (result, w1\<lparr>w_cm := ReleaseVideo (w_cm w1) (ID token)\<rparr>, out)))"

subsection \<open>The request\<close>

text \<open>
  Lines 149 to 175 of \<open>HandleGeneration\<close>: dispatch on the kind of the model, then the
  accounting. Any error of the dispatch is accounted: a ban when its text contains
  \<open>429\<close>, \<open>RecordError\<close> otherwise. A panic unwinds past the accounting.
\<close>

definition generate ::
  "Upstream \<Rightarrow> Config \<Rightarrow> readings \<Rightarrow> world \<Rightarrow> Token \<Rightarrow> string \<Rightarrow> ModelConfig \<Rightarrow> string \<Rightarrow> string list
   \<Rightarrow> outcome \<times> world \<times> chunk list" where
  "generate up cfg rd w token projectID modelConfig prompt images =
     (case (if Type modelConfig = ''image''
            then handleImageGeneration up cfg w token projectID modelConfig prompt images
            else handleVideoGeneration up cfg rd w token projectID modelConfig prompt images) of
        (Failed genErr, w1, out) \<Rightarrow>
          if strings_Contains genErr ''429''
          then (Failed genErr, w1\<lparr>w_db := BanTokenFor429 (w_db w1) (ID token) (ck_record rd)\<rparr>, out)
          else (Failed genErr,
                w1\<lparr>w_db := snd (RecordError (w_db w1) (ID token) (ck_record rd) (ck_today rd))\<rparr>, out)
      | (Panicked, w1, out) \<Rightarrow> (Panicked, w1, out)
      | (Done, w1, out) \<Rightarrow>
          (Done,
           w1\<lparr>w_db := RecordSuccess
                  (snd (RecordUsage (w_db w1) (ID token) (Type modelConfig = ''video'')
                          (ck_record rd) (ck_today rd)))
                  (ID token)\<rparr>,
           out))"

definition getNoTokenErrorMessage :: "string \<Rightarrow> string" where
  "getNoTokenErrorMessage genType =
     (if genType = ''image''
      then ''No tokens available for image generation. All tokens are disabled, cooling, locked, or expired.''
      else ''No tokens available for video generation. All tokens are disabled, cooling, quota exhausted, or expired.'')"

definition HandleGeneration ::
  "Upstream \<Rightarrow> Config \<Rightarrow> readings \<Rightarrow> world \<Rightarrow> string \<Rightarrow> string \<Rightarrow> string list \<Rightarrow> bool
   \<Rightarrow> outcome \<times> world \<times> chunk list" where
  "HandleGeneration up cfg rd w model prompt images stream =
     (case ModelConfigs model of
        None \<Rightarrow> (Failed (''unsupported model: '' @ model), w, [ErrorResponse (''Unsupported model: '' @ model)])
      | Some modelConfig \<Rightarrow>
          let isImage = (Type modelConfig = ''image'');
              isVideo = (Type modelConfig = ''video'');
              selected = SelectToken (w_db w) (w_cm w) isImage isVideo model (ck_select rd)
          in
          if \<not> stream then
            (Done, w,
             [Completion
                (case selected of
                   Some token \<Rightarrow>
                     if isImage
                     then ''Tokens available for image generation. Enable streaming to use generation.''
                     else ''Tokens available for video generation. Enable streaming to use generation.''
                 | None \<Rightarrow>
                     if isImage then ''No tokens available for image generation''
                     else ''No tokens available for video generation'')])
          else
            let out0 = [Progress ((if isVideo then ''Video'' else ''Image'') @ '' generation task started'')] in
            (case selected of
               None \<Rightarrow>
                 (Failed (getNoTokenErrorMessage (Type modelConfig)), w,
                  out0 @ [Progress (getNoTokenErrorMessage (Type modelConfig)),
                          ErrorResponse (getNoTokenErrorMessage (Type modelConfig))])
             | Some token0 \<Rightarrow>
                 let out1 = out0 @ [Progress ''Initializing generation environment...''] in
                 (case IsATValid up (ck_check rd) w (ID token0) of
                    ((valid, err), w1) \<Rightarrow>
                      if \<not> valid \<or> err \<noteq> None then
                        (Failed ''Token AT invalid or refresh failed'', w1,
                         out1 @ [Progress ''Token AT invalid or refresh failed'',
                                 ErrorResponse ''Token AT invalid or refresh failed''])
                      else
                        (case GetToken (w_db w1) (ID token0) of
                           Inl e \<Rightarrow> (Panicked, w1, out1)
                         | Inr token \<Rightarrow>
                             (case EnsureProjectExists up (ck_project_name rd) w1 (ID token) of
                                (Inl e, w2) \<Rightarrow>
                                  (Failed e, w2,
                                   out1 @ [Progress (''Failed to ensure project: '' @ e),
                                           ErrorResponse (''Failed to ensure project: '' @ e)])
                              | (Inr projectID, w2) \<Rightarrow>
                                  (case generate up cfg rd w2 token projectID modelConfig prompt images of
                                     (result, w3, out) \<Rightarrow> (result, w3, out1 @ out)))))))"

section \<open>Concrete states used to exercise the theorems\<close>

definition cm_example :: ConcurrencyManager where
  "cm_example =
     \<lparr>imageSlots = Map.empty, videoSlots = [7 \<mapsto> 1],
      limits = [7 \<mapsto> \<lparr>imageLimit = 2, videoLimit = 1\<rparr>, 8 \<mapsto> \<lparr>imageLimit = - 1, videoLimit = - 1\<rparr>]\<rparr>"

definition calls_lowering :: "cm_call list" where
  "calls_lowering =
     [CallUpdateTokenLimits 1 5 5, CallAcquireImage 1, CallAcquireImage 1, CallAcquireImage 1,
      CallUpdateTokenLimits 1 1 1]"

definition calls_steady :: "cm_call list" where
  "calls_steady =
     [CallAcquireImage 7, CallReleaseVideo 7, CallReleaseVideo 7, CallAcquireImage 7,
      CallAcquireImage 7, CallAcquireVideo 7, CallUpdateTokenLimits 8 0 0]"

definition tok :: "token_id \<Rightarrow> Token" where
  "tok i =
     \<lparr>ID = i, ST = ''st'', AT = ''at'', ATExpires = None, IsActive = True, LastUsedAt = None,
      Credits = 10, UserPaygateTier = [], CurrentProjectID = ''p'', CurrentProjectName = ''n'',
      ImageEnabled = True, VideoEnabled = True, ImageConcurrency = - 1, VideoConcurrency = - 1,
      BanReason = [], BannedAt = None\<rparr>"

definition db_of :: "Token list \<Rightarrow> Database" where
  "db_of ts =
     \<lparr>tokens_tbl = ts,
      token_stats_tbl = map_of (map (\<lambda>t. (ID t, empty_stats)) ts),
      admin_config_tbl =
        Some \<lparr>Username = ''admin'', Password = ''admin123'', APIKey = ''flow2api'', ErrorBanThreshold = 3\<rparr>,
      projects_tbl = [], tasks_tbl = []\<rparr>"

definition tok_used :: "token_id \<Rightarrow> time \<Rightarrow> Token" where
  "tok_used i usedAt = (tok i)\<lparr>LastUsedAt := Some usedAt\<rparr>"

text \<open>A credential with a balance of 300000 credits that was last used at a given time.\<close>

definition tok_rich :: "token_id \<Rightarrow> time \<Rightarrow> Token" where
  "tok_rich i usedAt = (tok i)\<lparr>LastUsedAt := Some usedAt, Credits := 300000\<rparr>"

definition admin_example :: AdminConfig where
  "admin_example =
     \<lparr>Username = ''admin'', Password = ''admin123'', APIKey = ''flow2api'', ErrorBanThreshold = 3\<rparr>"

definition clock_example :: "(time \<times> string) list" where
  "clock_example = [(1, ''2026-01-01''), (2, ''2026-01-01'')]"

definition tok_banned :: "token_id \<Rightarrow> time \<Rightarrow> Token" where
  "tok_banned i bannedAt =
     (tok i)\<lparr>IsActive := False, BanReason := ''429_rate_limit'', BannedAt := Some bannedAt\<rparr>"

text \<open>An upstream with a given answer to the exchange and given answers to the status probes.\<close>

definition upstream_example :: "(error + (string \<times> time option)) \<Rightarrow> (nat \<Rightarrow> probe) \<Rightarrow> Upstream" where
  "upstream_example exchange probes =
     \<lparr>STToAT = (\<lambda>st. exchange),
      GetCredits = (\<lambda>tk. Inr (Some 50)),
      CreateProject = (\<lambda>st name. Inr ''project-1''),
      UploadImage = (\<lambda>tk img aspect. Inr ''media-1''),
      GenerateImage = (\<lambda>tk project prompt modelName aspect inputs. Inr (Entry ''https://img'')),
      GenerateVideoText = (\<lambda>tk project prompt modelKey aspect tier. Inr (Entry ''op-1'')),
      GenerateVideoStartEnd =
        (\<lambda>tk project prompt modelKey aspect startID endID tier. Inr (Entry ''op-1'')),
      GenerateVideoReferenceImages =
        (\<lambda>tk project prompt modelKey aspect refs tier. Inr (Entry ''op-1'')),
      CheckVideoStatus = probes,
      cacheFile = (\<lambda>url mediaType. Inl ''cache off''),
      formatVerbs = (\<lambda>format. format)\<rparr>"

definition world_of :: "Token list \<Rightarrow> world" where
  "world_of ts = \<lparr>w_db = db_of ts, w_cm = Initialize NewConcurrencyManager ts, w_calls = []\<rparr>"

definition pending :: "nat \<Rightarrow> probe" where
  "pending n = ProbeStatus ''MEDIA_GENERATION_STATUS_PENDING'' None"

definition cfg_example :: Config where
  "cfg_example = \<lparr>MaxPollAttempts = 3, PollInterval = 1000000, CacheEnabled = False\<rparr>"

definition rd_example :: readings where
  "rd_example =
     \<lparr>ck_select = 0, ck_check = 0, ck_record = 5, ck_today = ''2026-01-01'',
      ck_project_name = ''Jan 01 - 00:00''\<rparr>"

text \<open>
  A credential whose declared image limit is 0 (the scheduler only consults the slot
  check for a positive limit), and one without limits, both with a fresh access token.
\<close>

definition tok_zero_limit :: Token where
  "tok_zero_limit = (tok 1)\<lparr>ImageConcurrency := 0, ATExpires := Some (3 * Hour)\<rparr>"

definition tok_ready :: Token where
  "tok_ready = (tok 1)\<lparr>ATExpires := Some (3 * Hour)\<rparr>"

definition up_example :: Upstream where
  "up_example = upstream_example (Inr (''at2'', None)) pending"

text \<open>
  A credential whose declared video limit is 0, and three rows of the model table: an
  image model, a text-to-video model and an image-to-video model that takes one or two
  images.
\<close>

definition tok_zero_video :: Token where
  "tok_zero_video = (tok 1)\<lparr>VideoConcurrency := 0, ATExpires := Some (3 * Hour)\<rparr>"

definition mc_image :: ModelConfig where
  "mc_image =
     \<lparr>Type = ''image'', VideoType = [], ModelName = ''GEM_PIX'', ModelKey = [],
      AspectRatio = ''IMAGE_ASPECT_RATIO_LANDSCAPE'',
      SupportsImages = False, MinImages = 0, MaxImages = 0\<rparr>"

definition mc_t2v :: ModelConfig where
  "mc_t2v =
     \<lparr>Type = ''video'', VideoType = ''t2v'', ModelName = [], ModelKey = ''veo_3_1_t2v_fast_portrait'',
      AspectRatio = ''VIDEO_ASPECT_RATIO_PORTRAIT'',
      SupportsImages = False, MinImages = 0, MaxImages = 0\<rparr>"

definition mc_i2v :: ModelConfig where
  "mc_i2v =
     \<lparr>Type = ''video'', VideoType = ''i2v'', ModelName = [], ModelKey = ''veo_3_1_i2v_s_fast_fl'',
      AspectRatio = ''VIDEO_ASPECT_RATIO_PORTRAIT'',
      SupportsImages = True, MinImages = 1, MaxImages = 2\<rparr>"

section \<open>Properties of the binary64 rounding\<close>

lemma round_even_bounds: "\<lfloor>r\<rfloor> \<le> round_even r" "round_even r \<le> \<lfloor>r\<rfloor> + 1"
  by (simp_all add: round_even_def Let_def)

lemma round_even_of_int [simp]: "round_even (of_int n) = n"
  by (simp add: round_even_def)

lemma round_even_mono: "r \<le> s \<Longrightarrow> round_even r \<le> round_even s"
proof -
  assume rs: "r \<le> s"
  then have fl: "\<lfloor>r\<rfloor> \<le> \<lfloor>s\<rfloor>" by (rule floor_mono)
  show ?thesis
  proof (cases "\<lfloor>r\<rfloor> = \<lfloor>s\<rfloor>")
    case True
    then show ?thesis using rs by (auto simp: round_even_def Let_def)
  next
    case False
    then have "\<lfloor>r\<rfloor> + 1 \<le> \<lfloor>s\<rfloor>" using fl by simp
    then show ?thesis using round_even_bounds(2) [of r] round_even_bounds(1) [of s] by linarith
  qed
qed

lemma round_even_ge: "of_int n \<le> r \<Longrightarrow> n \<le> round_even r"
  using round_even_mono [of "of_int n" r] by simp

lemma round_even_le: "r \<le> of_int n \<Longrightarrow> round_even r \<le> n"
  using round_even_mono [of r "of_int n"] by simp

lemma pow2_pos [simp]: "0 < (2::rat) powi k"
  by simp

lemma pow2_mono: "a \<le> b \<Longrightarrow> (2::rat) powi a \<le> 2 powi b"
  by (rule power_int_increasing) simp_all

lemma pow2_strict: "a < b \<Longrightarrow> (2::rat) powi a < 2 powi b"
  by (rule power_int_strict_increasing) simp_all

lemma exponent_bounds:
  assumes "0 < x"
  shows "2 powi exponent x \<le> x" "x < 2 powi (exponent x + 1)"
proof -
  obtain p q where pq: "quotient_of x = (p, q)" by (cases "quotient_of x")
  then have q: "0 < q" using quotient_of_denom_pos by blast
  have x: "x = of_int p / of_int q" using pq by (rule quotient_of_div)
  have p: "0 < p" using assms q unfolding x by (simp add: zero_less_divide_iff)
  let ?k = "bitlen p - bitlen q"
  have bp: "1 \<le> bitlen p" "1 \<le> bitlen q"
    using p q bitlen_eq_zero_iff [of p] bitlen_eq_zero_iff [of q] bitlen_nonneg [of p] bitlen_nonneg [of q]
    by linarith+
  have pw: "(of_int ((2::int) ^ nat n) :: rat) = 2 powi n" if "0 \<le> n" for n
    using that by (simp add: power_int_def)
  have p_hi: "(of_int p :: rat) < 2 powi bitlen p"
    using bitlen_bounds [OF p] bp(1) pw [of "bitlen p"]
    by (metis of_int_less_iff order_trans zero_le_one)
  have p_lo: "(2::rat) powi (bitlen p - 1) \<le> of_int p"
    using bitlen_bounds [OF p] bp(1) pw [of "bitlen p - 1"]
    by (metis diff_ge_0_iff_ge of_int_le_iff)
  have q_hi: "(of_int q :: rat) < 2 powi bitlen q"
    using bitlen_bounds [OF q] bp(2) pw [of "bitlen q"]
    by (metis of_int_less_iff order_trans zero_le_one)
  have q_lo: "(2::rat) powi (bitlen q - 1) \<le> of_int q"
    using bitlen_bounds [OF q] bp(2) pw [of "bitlen q - 1"]
    by (metis diff_ge_0_iff_ge of_int_le_iff)
  have qpos: "(0::rat) < of_int q" using q by simp
  have upper: "x < 2 powi (?k + 1)"
  proof -
    have "of_int p < (2::rat) powi (?k + 1) * 2 powi (bitlen q - 1)"
      using p_hi by (simp flip: power_int_add)
    also have "\<dots> \<le> 2 powi (?k + 1) * of_int q"
      using q_lo by (intro mult_left_mono) simp_all
    finally show ?thesis unfolding x using qpos by (simp add: pos_divide_less_eq)
  qed
  have lower: "2 powi (?k - 1) < x"
  proof -
    have "(2::rat) powi (?k - 1) * of_int q < 2 powi (?k - 1) * 2 powi bitlen q"
      using q_hi by (intro mult_strict_left_mono) simp_all
    also have "\<dots> = 2 powi (bitlen p - 1)" by (simp flip: power_int_add)
    also have "\<dots> \<le> of_int p" by (rule p_lo)
    finally show ?thesis unfolding x using qpos by (simp add: pos_less_divide_eq)
  qed
  have e: "exponent x = (if 2 powi ?k \<le> x then ?k else ?k - 1)"
    by (simp add: exponent_def pq Let_def)
  show "2 powi exponent x \<le> x" using lower by (simp add: e)
  show "x < 2 powi (exponent x + 1)" using upper by (auto simp add: e not_le)
qed

lemma exponent_unique:
  assumes "0 < x" "2 powi e \<le> x" "x < 2 powi (e + 1)"
  shows "exponent x = e"
proof (rule ccontr)
  assume ne: "exponent x \<noteq> e"
  note b = exponent_bounds [OF assms(1)]
  show False
  proof (cases "exponent x < e")
    case True
    then have "(2::rat) powi (exponent x + 1) \<le> 2 powi e" by (intro pow2_mono) simp
    then show False using b(2) assms(2) by simp
  next
    case False
    then have "e + 1 \<le> exponent x" using ne by simp
    then have "(2::rat) powi (e + 1) \<le> 2 powi exponent x" by (rule pow2_mono)
    then show False using b(1) assms(3) by simp
  qed
qed

lemma exponent_mono:
  assumes "0 < x" "x \<le> y"
  shows "exponent x \<le> exponent y"
proof (rule ccontr)
  assume "\<not> exponent x \<le> exponent y"
  then have "exponent y + 1 \<le> exponent x" by simp
  then have "(2::rat) powi (exponent y + 1) \<le> 2 powi exponent x" by (rule pow2_mono)
  moreover have "0 < y" using assms by simp
  ultimately show False
    using exponent_bounds(1) [OF assms(1)] exponent_bounds(2) [of y] assms(2) by simp
qed

lemma fl_pos_bounds:
  assumes "0 < x"
  shows "2 powi exponent x \<le> fl_pos x" "fl_pos x \<le> 2 powi (exponent x + 1)"
proof -
  let ?e = "exponent x"
  let ?u = "(2::rat) powi (?e - 52)"
  note b = exponent_bounds [OF assms]
  have split_lo: "(2::rat) powi ?e = of_int (2 ^ 52) * ?u"
    using power_int_add [of "2::rat" 52 "?e - 52"] by simp
  have split_hi: "(2::rat) powi (?e + 1) = of_int (2 ^ 53) * ?u"
    using power_int_add [of "2::rat" 53 "?e - 52"] by (simp add: add.commute)
  have "of_int (2 ^ 52) \<le> x / ?u"
    using b(1) unfolding split_lo by (simp add: pos_le_divide_eq)
  then have lo: "2 ^ 52 \<le> round_even (x / ?u)" by (rule round_even_ge)
  have "x / ?u \<le> of_int (2 ^ 53)"
    using b(2) unfolding split_hi by (simp add: pos_divide_le_eq)
  then have hi: "round_even (x / ?u) \<le> 2 ^ 53" by (rule round_even_le)
  have "of_int (2 ^ 52) * ?u \<le> of_int (round_even (x / ?u)) * ?u"
    using lo by (intro mult_right_mono) (simp_all only: of_int_le_iff, simp)
  then show "2 powi ?e \<le> fl_pos x" unfolding split_lo fl_pos_def .
  have "of_int (round_even (x / ?u)) * ?u \<le> of_int (2 ^ 53) * ?u"
    using hi by (intro mult_right_mono) (simp_all only: of_int_le_iff, simp)
  then show "fl_pos x \<le> 2 powi (?e + 1)" unfolding split_hi fl_pos_def .
qed

lemma fl_pos_positive: "0 < x \<Longrightarrow> 0 < fl_pos x"
  using fl_pos_bounds(1) [of x] pow2_pos [of "exponent x"] by linarith

lemma fl_pos_mono:
  assumes "0 < x" "x \<le> y"
  shows "fl_pos x \<le> fl_pos y"
proof (cases "exponent x = exponent y")
  case True
  let ?u = "(2::rat) powi (exponent y - 52)"
  have "x / ?u \<le> y / ?u" using assms(2) by (simp add: divide_right_mono)
  then have "round_even (x / ?u) \<le> round_even (y / ?u)" by (rule round_even_mono)
  then have "of_int (round_even (x / ?u)) * ?u \<le> of_int (round_even (y / ?u)) * ?u"
    by (intro mult_right_mono) simp_all
  then show ?thesis by (simp add: fl_pos_def True)
next
  case False
  then have "exponent x + 1 \<le> exponent y" using exponent_mono [OF assms] by simp
  then have "(2::rat) powi (exponent x + 1) \<le> 2 powi exponent y" by (rule pow2_mono)
  moreover have "0 < y" using assms by simp
  ultimately show ?thesis
    using fl_pos_bounds(2) [OF assms(1)] fl_pos_bounds(1) [of y] by linarith
qed

lemma fl_zero [simp]: "fl 0 = 0"
  by (simp add: fl_def)

lemma fl_minus: "fl (- x) = - fl x"
  by (simp add: fl_def)

lemma fl_mono:
  assumes "x \<le> y"
  shows "fl x \<le> fl y"
proof -
  consider "0 < x" | "x = 0" | "x < 0" "y < 0" | "x < 0" "0 \<le> y" by linarith
  then show ?thesis
  proof cases
    case 1
    then show ?thesis using assms fl_pos_mono [of x y] by (simp add: fl_def)
  next
    case 2
    then show ?thesis using assms fl_pos_positive [of y] by (auto simp: fl_def)
  next
    case 3
    then show ?thesis using assms fl_pos_mono [of "- y" "- x"] by (simp add: fl_def)
  next
    case 4
    then show ?thesis
      using fl_pos_positive [of "- x"] fl_pos_positive [of y] by (auto simp: fl_def)
  qed
qed

lemma fl_nonneg: "0 \<le> x \<Longrightarrow> 0 \<le> fl x"
  using fl_mono [of 0 x] by simp

lemma fl_of_int_pos:
  assumes "0 < n" "n < 2 ^ 53"
  shows "fl (of_int n) = of_int n"
proof -
  let ?x = "of_int n :: rat"
  let ?e = "exponent ?x"
  have pos: "0 < ?x" using assms(1) by simp
  have "(2::rat) powi ?e \<le> ?x" by (rule exponent_bounds(1) [OF pos])
  also have "?x < of_int (2 ^ 53)" using assms(2) by (simp only: of_int_less_iff)
  finally have lt: "(2::rat) powi ?e < 2 powi 53" by simp
  have e: "?e \<le> 52"
  proof (rule ccontr)
    assume "\<not> ?e \<le> 52"
    then have "53 \<le> ?e" by simp
    then have "(2::rat) powi 53 \<le> 2 powi ?e" by (rule pow2_mono)
    with lt show False by simp
  qed
  have u: "(2::rat) powi (?e - 52) = inverse (2 ^ nat (52 - ?e))"
    using e power_int_minus [of "2::rat" "52 - ?e"] by (simp add: power_int_def)
  have "?x / 2 powi (?e - 52) = of_int (n * 2 ^ nat (52 - ?e))"
    by (simp add: u divide_inverse)
  then have "round_even (?x / 2 powi (?e - 52)) = n * 2 ^ nat (52 - ?e)"
    by (simp only: round_even_of_int)
  then have "fl_pos ?x = ?x" by (simp add: fl_pos_def u)
  then show ?thesis using pos by (simp add: fl_def)
qed

lemma fl_of_int:
  assumes "\<bar>n\<bar> < 2 ^ 53"
  shows "fl (of_int n) = of_int n"
proof -
  consider "0 < n" | "n = 0" | "n < 0" by linarith
  then show ?thesis
  proof cases
    case 1
    then show ?thesis using assms by (intro fl_of_int_pos) simp_all
  next
    case 2
    then show ?thesis by simp
  next
    case 3
    then have "fl (of_int (- n)) = of_int (- n)" using assms by (intro fl_of_int_pos) simp_all
    then show ?thesis using fl_minus [of "of_int n"] by simp
  qed
qed

section \<open>Properties of the slot manager\<close>

subsection \<open>Signed 64-bit arithmetic\<close>

lemma sint_inc:
  fixes c :: go_int
  assumes "sint c < 9223372036854775807"
  shows "sint (c + 1) = sint c + 1"
proof -
  have lo: "- (2 ^ 63) \<le> sint c" using sint_ge [of c] by simp
  have "sint (c + 1) = signed_take_bit 63 (sint c + 1)"
    by (simp add: sint_word_ariths)
  also have "\<dots> = sint c + 1"
    using lo assms by (intro signed_take_bit_int_eq_self) simp_all
  finally show ?thesis .
qed

lemma sint_dec:
  fixes c :: go_int
  assumes "0 < sint c"
  shows "sint (c - 1) = sint c - 1"
proof -
  have hi: "sint c < 2 ^ 63" using sint_lt [of c] by simp
  have "sint (c - 1) = signed_take_bit 63 (sint c - 1)"
    by (simp add: sint_word_ariths)
  also have "\<dots> = sint c - 1"
    using hi assms by (intro signed_take_bit_int_eq_self) simp_all
  finally show ?thesis .
qed

lemma sint_inc_below:
  fixes c L :: go_int
  assumes "sint c < sint L"
  shows "sint (c + 1) = sint c + 1"
proof -
  have "sint L < 2 ^ 63" using sint_lt [of L] by simp
  with assms show ?thesis by (intro sint_inc) simp
qed

subsection \<open>Image slots\<close>

lemma slot_count_incImage [simp]:
  "slot_count (imageSlots (incImage cm i)) j =
     (if j = i then slot_count (imageSlots cm) i + 1 else slot_count (imageSlots cm) j)"
  by (simp add: incImage_def slot_count_def)

lemma limits_incImage [simp]: "limits (incImage cm i) = limits cm"
  by (simp add: incImage_def)

lemma videoSlots_incImage [simp]: "videoSlots (incImage cm i) = videoSlots cm"
  by (simp add: incImage_def)

lemma AcquireImage_denied:
  "limits cm i = Some l \<Longrightarrow> 0 \<le>s imageLimit l \<Longrightarrow> imageLimit l \<le>s slot_count (imageSlots cm) i
   \<Longrightarrow> AcquireImage cm i = (False, cm)"
  by (auto simp: AcquireImage_def word_sle_eq word_sless_alt)

lemma AcquireImage_granted:
  "limits cm i = Some l \<Longrightarrow> imageLimit l <s 0 \<or> slot_count (imageSlots cm) i <s imageLimit l
   \<Longrightarrow> AcquireImage cm i = (True, incImage cm i)"
  by (auto simp: AcquireImage_def word_sle_eq word_sless_alt)

lemma AcquireImage_unregistered:
  "limits cm i = None \<Longrightarrow> AcquireImage cm i = (True, incImage cm i)"
  by (simp add: AcquireImage_def)

lemma acquireImageTimes_full:
  "limits cm i = Some l \<Longrightarrow> imageLimit l \<le>s slot_count (imageSlots cm) i \<Longrightarrow> 0 \<le>s imageLimit l \<Longrightarrow>
   acquireImageTimes m cm i = (replicate m False, cm)"
  by (induction m) (simp_all add: AcquireImage_denied replicate_app_Cons_same)

lemma acquireImageTimes_upto_limit:
  "limits cm i = Some l \<Longrightarrow> 0 \<le> sint (slot_count (imageSlots cm) i) \<Longrightarrow>
   sint (slot_count (imageSlots cm) i) + int k = sint (imageLimit l) \<Longrightarrow>
   fst (acquireImageTimes (k + m) cm i) = replicate k True @ replicate m False \<and>
   slot_count (imageSlots (snd (acquireImageTimes (k + m) cm i))) i = imageLimit l \<and>
   limits (snd (acquireImageTimes (k + m) cm i)) = limits cm"
proof (induction k arbitrary: cm)
  case 0
  then have eq: "slot_count (imageSlots cm) i = imageLimit l"
    by (intro signed_word_eqI [where ?'a = int]) simp
  have "acquireImageTimes m cm i = (replicate m False, cm)"
    using 0 by (intro acquireImageTimes_full) (simp_all add: word_sle_eq)
  then show ?case using eq by simp
next
  case (Suc k)
  let ?c = "slot_count (imageSlots cm) i"
  have lt: "sint ?c < sint (imageLimit l)" using Suc.prems by simp
  then have inc: "sint (?c + 1) = sint ?c + 1" by (rule sint_inc_below)
  have acq: "AcquireImage cm i = (True, incImage cm i)"
  proof (rule AcquireImage_granted [OF Suc.prems(1)])
    show "imageLimit l <s 0 \<or> ?c <s imageLimit l" using lt by (simp add: word_sless_alt)
  qed
  have IH: "fst (acquireImageTimes (k + m) (incImage cm i) i) = replicate k True @ replicate m False \<and>
     slot_count (imageSlots (snd (acquireImageTimes (k + m) (incImage cm i) i))) i = imageLimit l \<and>
     limits (snd (acquireImageTimes (k + m) (incImage cm i) i)) = limits (incImage cm i)"
    using Suc.prems inc by (intro Suc.IH) simp_all
  then show ?case
    using acq by (simp add: case_prod_beta)
qed

lemma acquireImageTimes_unlimited:
  "limits cm i = None \<or> (\<exists>l. limits cm i = Some l \<and> imageLimit l <s 0) \<Longrightarrow>
   fst (acquireImageTimes n cm i) = replicate n True \<and>
   limits (snd (acquireImageTimes n cm i)) = limits cm"
proof (induction n arbitrary: cm)
  case 0
  then show ?case by simp
next
  case (Suc n)
  have acq: "AcquireImage cm i = (True, incImage cm i)"
    using Suc.prems by (auto simp: AcquireImage_def)
  have "fst (acquireImageTimes n (incImage cm i) i) = replicate n True \<and>
        limits (snd (acquireImageTimes n (incImage cm i) i)) = limits (incImage cm i)"
    using Suc.prems by (intro Suc.IH) simp
  then show ?case using acq by (simp add: case_prod_beta)
qed

lemma ReleaseImage_then_acquire:
  assumes "limits cm i = Some l" "0 <s imageLimit l" "slot_count (imageSlots cm) i = imageLimit l"
  shows "fst (AcquireImage (ReleaseImage cm i) i) = True"
proof -
  let ?c = "slot_count (imageSlots cm) i"
  have pos: "0 < sint ?c" using assms by (simp add: word_sless_alt)
  then have dec: "sint (?c - 1) = sint ?c - 1" by (rule sint_dec)
  have rel: "slot_count (imageSlots (ReleaseImage cm i)) i = ?c - 1"
    using pos by (simp add: ReleaseImage_def word_sless_alt slot_count_def)
  have lim: "limits (ReleaseImage cm i) i = Some l"
    using assms by (simp add: ReleaseImage_def)
  have "slot_count (imageSlots (ReleaseImage cm i)) i <s imageLimit l"
    using dec assms(3) by (simp add: rel word_sless_alt)
  then show ?thesis using lim by (simp add: AcquireImage_granted)
qed

subsection \<open>Video slots\<close>


lemma slot_count_incVideo [simp]:
  "slot_count (videoSlots (incVideo cm i)) j =
     (if j = i then slot_count (videoSlots cm) i + 1 else slot_count (videoSlots cm) j)"
  by (simp add: incVideo_def slot_count_def)

lemma limits_incVideo [simp]: "limits (incVideo cm i) = limits cm"
  by (simp add: incVideo_def)

lemma imageSlots_incVideo [simp]: "imageSlots (incVideo cm i) = imageSlots cm"
  by (simp add: incVideo_def)

lemma AcquireVideo_denied:
  "limits cm i = Some l \<Longrightarrow> 0 \<le>s videoLimit l \<Longrightarrow> videoLimit l \<le>s slot_count (videoSlots cm) i
   \<Longrightarrow> AcquireVideo cm i = (False, cm)"
  by (auto simp: AcquireVideo_def word_sle_eq word_sless_alt)

lemma AcquireVideo_granted:
  "limits cm i = Some l \<Longrightarrow> videoLimit l <s 0 \<or> slot_count (videoSlots cm) i <s videoLimit l
   \<Longrightarrow> AcquireVideo cm i = (True, incVideo cm i)"
  by (auto simp: AcquireVideo_def word_sle_eq word_sless_alt)

lemma AcquireVideo_unregistered:
  "limits cm i = None \<Longrightarrow> AcquireVideo cm i = (True, incVideo cm i)"
  by (simp add: AcquireVideo_def)

lemma acquireVideoTimes_full:
  "limits cm i = Some l \<Longrightarrow> videoLimit l \<le>s slot_count (videoSlots cm) i \<Longrightarrow> 0 \<le>s videoLimit l \<Longrightarrow>
   acquireVideoTimes m cm i = (replicate m False, cm)"
  by (induction m) (simp_all add: AcquireVideo_denied replicate_app_Cons_same)

lemma acquireVideoTimes_upto_limit:
  "limits cm i = Some l \<Longrightarrow> 0 \<le> sint (slot_count (videoSlots cm) i) \<Longrightarrow>
   sint (slot_count (videoSlots cm) i) + int k = sint (videoLimit l) \<Longrightarrow>
   fst (acquireVideoTimes (k + m) cm i) = replicate k True @ replicate m False \<and>
   slot_count (videoSlots (snd (acquireVideoTimes (k + m) cm i))) i = videoLimit l \<and>
   limits (snd (acquireVideoTimes (k + m) cm i)) = limits cm"
proof (induction k arbitrary: cm)
  case 0
  then have eq: "slot_count (videoSlots cm) i = videoLimit l"
    by (intro signed_word_eqI [where ?'a = int]) simp
  have "acquireVideoTimes m cm i = (replicate m False, cm)"
    using 0 by (intro acquireVideoTimes_full) (simp_all add: word_sle_eq)
  then show ?case using eq by simp
next
  case (Suc k)
  let ?c = "slot_count (videoSlots cm) i"
  have lt: "sint ?c < sint (videoLimit l)" using Suc.prems by simp
  then have inc: "sint (?c + 1) = sint ?c + 1" by (rule sint_inc_below)
  have acq: "AcquireVideo cm i = (True, incVideo cm i)"
  proof (rule AcquireVideo_granted [OF Suc.prems(1)])
    show "videoLimit l <s 0 \<or> ?c <s videoLimit l" using lt by (simp add: word_sless_alt)
  qed
  have IH: "fst (acquireVideoTimes (k + m) (incVideo cm i) i) = replicate k True @ replicate m False \<and>
     slot_count (videoSlots (snd (acquireVideoTimes (k + m) (incVideo cm i) i))) i = videoLimit l \<and>
     limits (snd (acquireVideoTimes (k + m) (incVideo cm i) i)) = limits (incVideo cm i)"
    using Suc.prems inc by (intro Suc.IH) simp_all
  then show ?case
    using acq by (simp add: case_prod_beta)
qed

lemma acquireVideoTimes_unlimited:
  "limits cm i = None \<or> (\<exists>l. limits cm i = Some l \<and> videoLimit l <s 0) \<Longrightarrow>
   fst (acquireVideoTimes n cm i) = replicate n True \<and>
   limits (snd (acquireVideoTimes n cm i)) = limits cm"
proof (induction n arbitrary: cm)
  case 0
  then show ?case by simp
next
  case (Suc n)
  have acq: "AcquireVideo cm i = (True, incVideo cm i)"
    using Suc.prems by (auto simp: AcquireVideo_def)
  have "fst (acquireVideoTimes n (incVideo cm i) i) = replicate n True \<and>
        limits (snd (acquireVideoTimes n (incVideo cm i) i)) = limits (incVideo cm i)"
    using Suc.prems by (intro Suc.IH) simp
  then show ?case using acq by (simp add: case_prod_beta)
qed

lemma ReleaseVideo_then_acquire:
  assumes "limits cm i = Some l" "0 <s videoLimit l" "slot_count (videoSlots cm) i = videoLimit l"
  shows "fst (AcquireVideo (ReleaseVideo cm i) i) = True"
proof -
  let ?c = "slot_count (videoSlots cm) i"
  have pos: "0 < sint ?c" using assms by (simp add: word_sless_alt)
  then have dec: "sint (?c - 1) = sint ?c - 1" by (rule sint_dec)
  have rel: "slot_count (videoSlots (ReleaseVideo cm i)) i = ?c - 1"
    using pos by (simp add: ReleaseVideo_def word_sless_alt slot_count_def)
  have lim: "limits (ReleaseVideo cm i) i = Some l"
    using assms by (simp add: ReleaseVideo_def)
  have "slot_count (videoSlots (ReleaseVideo cm i)) i <s videoLimit l"
    using dec assms(3) by (simp add: rel word_sless_alt)
  then show ?thesis using lim by (simp add: AcquireVideo_granted)
qed


lemma image_acquire_props:
  assumes reg: "limits cm i = Some l"
  shows "(0 \<le>s imageLimit l \<and> imageLimit l \<le>s slot_count (imageSlots cm) i \<longrightarrow>
         AcquireImage cm i = (False, cm)) \<and>
      (imageLimit l <s 0 \<or> slot_count (imageSlots cm) i <s imageLimit l \<longrightarrow>
         AcquireImage cm i =
           (True, cm\<lparr>imageSlots := (imageSlots cm)(i \<mapsto> slot_count (imageSlots cm) i + 1)\<rparr>)) \<and>
      (0 \<le>s imageLimit l \<and> slot_count (imageSlots cm) i <s imageLimit l \<longrightarrow>
         sint (slot_count (imageSlots (snd (AcquireImage cm i))) i) =
           sint (slot_count (imageSlots cm) i) + 1) \<and>
      (0 \<le>s imageLimit l \<and> slot_count (imageSlots cm) i = 0 \<longrightarrow>
         fst (acquireImageTimes (nat (sint (imageLimit l)) + Suc m) cm i) =
           replicate (nat (sint (imageLimit l))) True @ replicate (Suc m) False \<and>
         (0 <s imageLimit l \<longrightarrow>
            fst (AcquireImage
                  (ReleaseImage (snd (acquireImageTimes (nat (sint (imageLimit l)) + Suc m) cm i)) i) i))) \<and>
      (imageLimit l <s 0 \<longrightarrow> fst (acquireImageTimes n cm i) = replicate n True)"
proof (intro conjI impI)
  assume "0 \<le>s imageLimit l \<and> imageLimit l \<le>s slot_count (imageSlots cm) i"
  then show "AcquireImage cm i = (False, cm)"
    using reg by (simp add: AcquireImage_denied)
next
  assume "imageLimit l <s 0 \<or> slot_count (imageSlots cm) i <s imageLimit l"
  then have "AcquireImage cm i = (True, incImage cm i)"
    by (rule AcquireImage_granted [OF reg])
  then show "AcquireImage cm i =
      (True, cm\<lparr>imageSlots := (imageSlots cm)(i \<mapsto> slot_count (imageSlots cm) i + 1)\<rparr>)"
    by (simp add: incImage_def)
next
  assume a: "0 \<le>s imageLimit l \<and> slot_count (imageSlots cm) i <s imageLimit l"
  then have "AcquireImage cm i = (True, incImage cm i)"
    by (intro AcquireImage_granted [OF reg]) simp
  moreover have "sint (slot_count (imageSlots cm) i + 1) = sint (slot_count (imageSlots cm) i) + 1"
    using a by (intro sint_inc_below [of _ "imageLimit l"]) (simp add: word_sless_alt)
  ultimately show "sint (slot_count (imageSlots (snd (AcquireImage cm i))) i) =
      sint (slot_count (imageSlots cm) i) + 1"
    by simp
next
  assume a: "0 \<le>s imageLimit l \<and> slot_count (imageSlots cm) i = 0"
  then have k: "sint (slot_count (imageSlots cm) i) + int (nat (sint (imageLimit l))) = sint (imageLimit l)"
    by (simp add: word_sle_eq)
  have z: "0 \<le> sint (slot_count (imageSlots cm) i)" using a by simp
  note run = acquireImageTimes_upto_limit [OF reg z k, of "Suc m"]
  from run show "fst (acquireImageTimes (nat (sint (imageLimit l)) + Suc m) cm i) =
      replicate (nat (sint (imageLimit l))) True @ replicate (Suc m) False"
    by blast
  assume pos: "0 <s imageLimit l"
  let ?cm = "snd (acquireImageTimes (nat (sint (imageLimit l)) + Suc m) cm i)"
  have "limits ?cm i = Some l" using run reg by simp
  moreover have "slot_count (imageSlots ?cm) i = imageLimit l" using run by blast
  ultimately show "fst (AcquireImage (ReleaseImage ?cm i) i)"
    using pos ReleaseImage_then_acquire [of ?cm i l] by simp
next
  assume "imageLimit l <s 0"
  then show "fst (acquireImageTimes n cm i) = replicate n True"
    using reg acquireImageTimes_unlimited [of cm i n] by simp
qed

lemma video_acquire_props:
  assumes reg: "limits cm i = Some l"
  shows "(0 \<le>s videoLimit l \<and> videoLimit l \<le>s slot_count (videoSlots cm) i \<longrightarrow>
         AcquireVideo cm i = (False, cm)) \<and>
      (videoLimit l <s 0 \<or> slot_count (videoSlots cm) i <s videoLimit l \<longrightarrow>
         AcquireVideo cm i =
           (True, cm\<lparr>videoSlots := (videoSlots cm)(i \<mapsto> slot_count (videoSlots cm) i + 1)\<rparr>)) \<and>
      (0 \<le>s videoLimit l \<and> slot_count (videoSlots cm) i <s videoLimit l \<longrightarrow>
         sint (slot_count (videoSlots (snd (AcquireVideo cm i))) i) =
           sint (slot_count (videoSlots cm) i) + 1) \<and>
      (0 \<le>s videoLimit l \<and> slot_count (videoSlots cm) i = 0 \<longrightarrow>
         fst (acquireVideoTimes (nat (sint (videoLimit l)) + Suc m) cm i) =
           replicate (nat (sint (videoLimit l))) True @ replicate (Suc m) False \<and>
         (0 <s videoLimit l \<longrightarrow>
            fst (AcquireVideo
                  (ReleaseVideo (snd (acquireVideoTimes (nat (sint (videoLimit l)) + Suc m) cm i)) i) i))) \<and>
      (videoLimit l <s 0 \<longrightarrow> fst (acquireVideoTimes n cm i) = replicate n True)"
proof (intro conjI impI)
  assume "0 \<le>s videoLimit l \<and> videoLimit l \<le>s slot_count (videoSlots cm) i"
  then show "AcquireVideo cm i = (False, cm)"
    using reg by (simp add: AcquireVideo_denied)
next
  assume "videoLimit l <s 0 \<or> slot_count (videoSlots cm) i <s videoLimit l"
  then have "AcquireVideo cm i = (True, incVideo cm i)"
    by (rule AcquireVideo_granted [OF reg])
  then show "AcquireVideo cm i =
      (True, cm\<lparr>videoSlots := (videoSlots cm)(i \<mapsto> slot_count (videoSlots cm) i + 1)\<rparr>)"
    by (simp add: incVideo_def)
next
  assume a: "0 \<le>s videoLimit l \<and> slot_count (videoSlots cm) i <s videoLimit l"
  then have "AcquireVideo cm i = (True, incVideo cm i)"
    by (intro AcquireVideo_granted [OF reg]) simp
  moreover have "sint (slot_count (videoSlots cm) i + 1) = sint (slot_count (videoSlots cm) i) + 1"
    using a by (intro sint_inc_below [of _ "videoLimit l"]) (simp add: word_sless_alt)
  ultimately show "sint (slot_count (videoSlots (snd (AcquireVideo cm i))) i) =
      sint (slot_count (videoSlots cm) i) + 1"
    by simp
next
  assume a: "0 \<le>s videoLimit l \<and> slot_count (videoSlots cm) i = 0"
  then have k: "sint (slot_count (videoSlots cm) i) + int (nat (sint (videoLimit l))) = sint (videoLimit l)"
    by (simp add: word_sle_eq)
  have z: "0 \<le> sint (slot_count (videoSlots cm) i)" using a by simp
  note run = acquireVideoTimes_upto_limit [OF reg z k, of "Suc m"]
  from run show "fst (acquireVideoTimes (nat (sint (videoLimit l)) + Suc m) cm i) =
      replicate (nat (sint (videoLimit l))) True @ replicate (Suc m) False"
    by blast
  assume pos: "0 <s videoLimit l"
  let ?cm = "snd (acquireVideoTimes (nat (sint (videoLimit l)) + Suc m) cm i)"
  have "limits ?cm i = Some l" using run reg by simp
  moreover have "slot_count (videoSlots ?cm) i = videoLimit l" using run by blast
  ultimately show "fst (AcquireVideo (ReleaseVideo ?cm i) i)"
    using pos ReleaseVideo_then_acquire [of ?cm i l] by simp
next
  assume "videoLimit l <s 0"
  then show "fst (acquireVideoTimes n cm i) = replicate n True"
    using reg acquireVideoTimes_unlimited [of cm i n] by simp
qed


text \<open>
  C1. \<open>acquire\<close> checks and increments in one step. With a stored limit \<open>L \<ge> 0\<close> and a
  counter that has reached it, the call returns false and the state is unchanged; with a
  negative limit or a counter below the limit it returns true and the counter is one
  higher. From a zero counter, the first \<open>L\<close> calls succeed and every later one fails as
  long as nothing is released; after one release the next call succeeds again. With a
  negative limit any number of calls succeed. The same holds for image and video slots.
\<close>

theorem acquire_checks_and_increments:
  "(limits cm i = Some l \<longrightarrow>
      (0 \<le>s imageLimit l \<and> imageLimit l \<le>s slot_count (imageSlots cm) i \<longrightarrow>
         AcquireImage cm i = (False, cm)) \<and>
      (imageLimit l <s 0 \<or> slot_count (imageSlots cm) i <s imageLimit l \<longrightarrow>
         AcquireImage cm i =
           (True, cm\<lparr>imageSlots := (imageSlots cm)(i \<mapsto> slot_count (imageSlots cm) i + 1)\<rparr>)) \<and>
      (0 \<le>s imageLimit l \<and> slot_count (imageSlots cm) i <s imageLimit l \<longrightarrow>
         sint (slot_count (imageSlots (snd (AcquireImage cm i))) i) =
           sint (slot_count (imageSlots cm) i) + 1) \<and>
      (0 \<le>s imageLimit l \<and> slot_count (imageSlots cm) i = 0 \<longrightarrow>
         fst (acquireImageTimes (nat (sint (imageLimit l)) + Suc m) cm i) =
           replicate (nat (sint (imageLimit l))) True @ replicate (Suc m) False \<and>
         (0 <s imageLimit l \<longrightarrow>
            fst (AcquireImage
                  (ReleaseImage (snd (acquireImageTimes (nat (sint (imageLimit l)) + Suc m) cm i)) i) i))) \<and>
      (imageLimit l <s 0 \<longrightarrow> fst (acquireImageTimes n cm i) = replicate n True)) \<and>
   (limits cm i = Some l \<longrightarrow>
      (0 \<le>s videoLimit l \<and> videoLimit l \<le>s slot_count (videoSlots cm) i \<longrightarrow>
         AcquireVideo cm i = (False, cm)) \<and>
      (videoLimit l <s 0 \<or> slot_count (videoSlots cm) i <s videoLimit l \<longrightarrow>
         AcquireVideo cm i =
           (True, cm\<lparr>videoSlots := (videoSlots cm)(i \<mapsto> slot_count (videoSlots cm) i + 1)\<rparr>)) \<and>
      (0 \<le>s videoLimit l \<and> slot_count (videoSlots cm) i <s videoLimit l \<longrightarrow>
         sint (slot_count (videoSlots (snd (AcquireVideo cm i))) i) =
           sint (slot_count (videoSlots cm) i) + 1) \<and>
      (0 \<le>s videoLimit l \<and> slot_count (videoSlots cm) i = 0 \<longrightarrow>
         fst (acquireVideoTimes (nat (sint (videoLimit l)) + Suc m) cm i) =
           replicate (nat (sint (videoLimit l))) True @ replicate (Suc m) False \<and>
         (0 <s videoLimit l \<longrightarrow>
            fst (AcquireVideo
                  (ReleaseVideo (snd (acquireVideoTimes (nat (sint (videoLimit l)) + Suc m) cm i)) i) i))) \<and>
      (videoLimit l <s 0 \<longrightarrow> fst (acquireVideoTimes n cm i) = replicate n True))"
  using image_acquire_props [of cm i l m n] video_acquire_props [of cm i l m n]
  by blast


theorem acquire_checks_and_increments_witness:
  "limits cm_example 7 = Some \<lparr>imageLimit = 2, videoLimit = 1\<rparr> \<and>
   (0::go_int) \<le>s 2 \<and> slot_count (imageSlots cm_example) 7 = 0 \<and>
   slot_count (imageSlots cm_example) 7 <s 2 \<and>
   fst (acquireImageTimes 4 cm_example 7) = [True, True, False, False] \<and>
   (0::go_int) <s 2 \<and>
   fst (AcquireImage (ReleaseImage (snd (acquireImageTimes 4 cm_example 7)) 7) 7) \<and>
   (0::go_int) \<le>s 1 \<and> (1::go_int) \<le>s slot_count (videoSlots cm_example) 7 \<and>
   AcquireVideo cm_example 7 = (False, cm_example) \<and>
   limits cm_example 8 = Some \<lparr>imageLimit = - 1, videoLimit = - 1\<rparr> \<and>
   (- 1 :: go_int) <s 0 \<and>
   fst (acquireImageTimes 3 cm_example 8) = [True, True, True] \<and>
   fst (acquireVideoTimes 3 cm_example 8) = [True, True, True]"
  using acquire_checks_and_increments
          [of cm_example 7 "\<lparr>imageLimit = 2, videoLimit = 1\<rparr>" 1 3]
        acquire_checks_and_increments
          [of cm_example 8 "\<lparr>imageLimit = - 1, videoLimit = - 1\<rparr>" 1 3]
  by (simp add: cm_example_def slot_count_def word_sle_eq word_sless_alt numeral_eq_Suc
      AcquireImage_def AcquireVideo_def incImage_def incVideo_def ReleaseImage_def)

subsection \<open>Calls that leave parts of the state alone\<close>

lemma Initialize_slots [simp]:
  "imageSlots (Initialize cm ts) = imageSlots cm" "videoSlots (Initialize cm ts) = videoSlots cm"
  by (induction ts arbitrary: cm) simp_all

lemma Initialize_limits_other:
  "i \<notin> set (map ID ts) \<Longrightarrow> limits (Initialize cm ts) i = limits cm i"
  by (induction ts arbitrary: cm) simp_all

lemma ReleaseImage_frame [simp]:
  "limits (ReleaseImage cm i) = limits cm" "videoSlots (ReleaseImage cm i) = videoSlots cm"
  by (simp_all add: ReleaseImage_def)

lemma ReleaseVideo_frame [simp]:
  "limits (ReleaseVideo cm i) = limits cm" "imageSlots (ReleaseVideo cm i) = imageSlots cm"
  by (simp_all add: ReleaseVideo_def)

lemma AcquireImage_frame [simp]:
  "limits (snd (AcquireImage cm i)) = limits cm" "videoSlots (snd (AcquireImage cm i)) = videoSlots cm"
  by (simp_all add: AcquireImage_def split: option.splits)

lemma AcquireVideo_frame [simp]:
  "limits (snd (AcquireVideo cm i)) = limits cm" "imageSlots (snd (AcquireVideo cm i)) = imageSlots cm"
  by (simp_all add: AcquireVideo_def split: option.splits)

lemma cm_step_limits_unregistered:
  "\<not> registers c i \<Longrightarrow> limits (cm_step cm c) i = limits cm i"
  by (cases c) (simp_all add: Initialize_limits_other UpdateTokenLimits_def)

lemma cm_run_limits_unregistered:
  "\<forall>c \<in> set cs. \<not> registers c i \<Longrightarrow> limits (cm_run cm cs) i = limits cm i"
  by (induction cs arbitrary: cm) (simp_all add: cm_step_limits_unregistered)

text \<open>
  C10. A credential for which no limit pair was ever stored is unlimited: the check and
  the acquisition return true for both kinds, the acquisition still adds one to the
  counter, and this holds after any calls that did not register it and for any number of
  consecutive acquisitions.
\<close>

theorem unregistered_is_unlimited:
  "(limits cm i = None \<longrightarrow>
      CanAcquireImage cm i \<and> CanAcquireVideo cm i \<and>
      AcquireImage cm i =
        (True, cm\<lparr>imageSlots := (imageSlots cm)(i \<mapsto> slot_count (imageSlots cm) i + 1)\<rparr>) \<and>
      AcquireVideo cm i =
        (True, cm\<lparr>videoSlots := (videoSlots cm)(i \<mapsto> slot_count (videoSlots cm) i + 1)\<rparr>) \<and>
      fst (acquireImageTimes n cm i) = replicate n True \<and>
      fst (acquireVideoTimes n cm i) = replicate n True) \<and>
   ((\<forall>c \<in> set cs. \<not> registers c i) \<longrightarrow>
      limits (cm_run NewConcurrencyManager cs) i = None \<and>
      CanAcquireImage (cm_run NewConcurrencyManager cs) i \<and>
      CanAcquireVideo (cm_run NewConcurrencyManager cs) i \<and>
      fst (acquireImageTimes n (cm_run NewConcurrencyManager cs) i) = replicate n True \<and>
      fst (acquireVideoTimes n (cm_run NewConcurrencyManager cs) i) = replicate n True)"
proof -
  have one: "CanAcquireImage c i \<and> CanAcquireVideo c i \<and>
      AcquireImage c i =
        (True, c\<lparr>imageSlots := (imageSlots c)(i \<mapsto> slot_count (imageSlots c) i + 1)\<rparr>) \<and>
      AcquireVideo c i =
        (True, c\<lparr>videoSlots := (videoSlots c)(i \<mapsto> slot_count (videoSlots c) i + 1)\<rparr>) \<and>
      fst (acquireImageTimes n c i) = replicate n True \<and>
      fst (acquireVideoTimes n c i) = replicate n True" if "limits c i = None" for c
    using that acquireImageTimes_unlimited [of c i n] acquireVideoTimes_unlimited [of c i n]
    by (simp add: CanAcquireImage_def CanAcquireVideo_def AcquireImage_def AcquireVideo_def
        incImage_def incVideo_def)
  have run: "limits (cm_run NewConcurrencyManager cs) i = None"
    if "\<forall>c \<in> set cs. \<not> registers c i"
    using cm_run_limits_unregistered [OF that, of NewConcurrencyManager]
    by (simp add: NewConcurrencyManager_def)
  show ?thesis using one run by blast
qed

theorem unregistered_is_unlimited_witness:
  "limits cm_example 9 = None \<and>
   list_all (\<lambda>c. \<not> registers c 9)
     [CallUpdateTokenLimits 7 1 1, CallAcquireImage 9, CallAcquireImage 9, CallReleaseVideo 9] \<and>
   CanAcquireImage cm_example 9 \<and>
   fst (acquireImageTimes 3 cm_example 9) = replicate 3 True \<and>
   fst (acquireVideoTimes 3
         (cm_run NewConcurrencyManager
            [CallUpdateTokenLimits 7 1 1, CallAcquireImage 9, CallAcquireImage 9, CallReleaseVideo 9]) 9)
     = replicate 3 True"
proof -
  have unreg: "limits cm_example 9 = None"
    by (simp add: cm_example_def)
  have calls: "\<forall>c \<in> set [CallUpdateTokenLimits 7 1 1, CallAcquireImage 9, CallAcquireImage 9,
      CallReleaseVideo 9]. \<not> registers c 9"
    by simp
  show ?thesis
    using unreg calls
      calls [unfolded list_all_iff [symmetric]]
      unregistered_is_unlimited
        [of cm_example 9 3
            "[CallUpdateTokenLimits 7 1 1, CallAcquireImage 9, CallAcquireImage 9, CallReleaseVideo 9]"]
    by blast
qed

subsection \<open>Counters stay between zero and the number of calls made\<close>

lemma AcquireImage_bounded:
  assumes "0 \<le> sint (slot_count (imageSlots cm) j)" "sint (slot_count (imageSlots cm) j) \<le> int n"
    and small: "int n < 9223372036854775807"
  shows "0 \<le> sint (slot_count (imageSlots (snd (AcquireImage cm i))) j) \<and>
         sint (slot_count (imageSlots (snd (AcquireImage cm i))) j) \<le> int n + 1"
proof -
  have "sint (slot_count (imageSlots cm) j) < 9223372036854775807"
    using assms by linarith
  then have inc: "sint (slot_count (imageSlots cm) j + 1) = sint (slot_count (imageSlots cm) j) + 1"
    by (rule sint_inc)
  have "AcquireImage cm i = (False, cm) \<or> AcquireImage cm i = (True, incImage cm i)"
    by (simp add: AcquireImage_def split: option.splits)
  then show ?thesis
  proof
    assume "AcquireImage cm i = (False, cm)"
    then show ?thesis using assms by simp
  next
    assume "AcquireImage cm i = (True, incImage cm i)"
    then show ?thesis using assms inc by (cases "j = i") simp_all
  qed
qed

lemma ReleaseImage_bounded:
  assumes "0 \<le> sint (slot_count (imageSlots cm) j)" "sint (slot_count (imageSlots cm) j) \<le> int n"
  shows "0 \<le> sint (slot_count (imageSlots (ReleaseImage cm i)) j) \<and>
         sint (slot_count (imageSlots (ReleaseImage cm i)) j) \<le> int n"
proof (cases "0 <s slot_count (imageSlots cm) i")
  case True
  then have "sint (slot_count (imageSlots cm) i - 1) = sint (slot_count (imageSlots cm) i) - 1"
    by (intro sint_dec) (simp add: word_sless_alt)
  moreover have "0 < sint (slot_count (imageSlots cm) i)"
    using True by (simp add: word_sless_alt)
  ultimately show ?thesis
    using True assms by (cases "j = i") (simp_all add: ReleaseImage_def slot_count_def)
next
  case False
  then show ?thesis using assms by (simp add: ReleaseImage_def)
qed


lemma AcquireImage_within_limit:
  assumes reg: "limits cm j = Some l"
    and inv: "0 \<le> sint (slot_count (imageSlots cm) j)"
             "sint (slot_count (imageSlots cm) j) \<le> sint (imageLimit l)"
  shows "0 \<le> sint (slot_count (imageSlots (snd (AcquireImage cm i))) j) \<and>
         sint (slot_count (imageSlots (snd (AcquireImage cm i))) j) \<le> sint (imageLimit l)"
proof (cases "i = j")
  case False
  have "AcquireImage cm i = (False, cm) \<or> AcquireImage cm i = (True, incImage cm i)"
    by (simp add: AcquireImage_def split: option.splits)
  then show ?thesis using False inv by auto
next
  case True
  show ?thesis
  proof (cases "slot_count (imageSlots cm) j <s imageLimit l")
    case lt: True
    then have "sint (slot_count (imageSlots cm) j + 1) = sint (slot_count (imageSlots cm) j) + 1"
      by (intro sint_inc_below [of _ "imageLimit l"]) (simp add: word_sless_alt)
    moreover have "AcquireImage cm j = (True, incImage cm j)"
      using lt by (intro AcquireImage_granted [OF reg]) simp
    ultimately show ?thesis using True lt inv by (simp add: word_sless_alt)
  next
    case ge: False
    then have "AcquireImage cm j = (False, cm)"
      using inv by (intro AcquireImage_denied [OF reg]) (simp_all add: word_sle_eq word_sless_alt)
    then show ?thesis using True inv by simp
  qed
qed


lemma AcquireVideo_bounded:
  assumes "0 \<le> sint (slot_count (videoSlots cm) j)" "sint (slot_count (videoSlots cm) j) \<le> int n"
    and small: "int n < 9223372036854775807"
  shows "0 \<le> sint (slot_count (videoSlots (snd (AcquireVideo cm i))) j) \<and>
         sint (slot_count (videoSlots (snd (AcquireVideo cm i))) j) \<le> int n + 1"
proof -
  have "sint (slot_count (videoSlots cm) j) < 9223372036854775807"
    using assms by linarith
  then have inc: "sint (slot_count (videoSlots cm) j + 1) = sint (slot_count (videoSlots cm) j) + 1"
    by (rule sint_inc)
  have "AcquireVideo cm i = (False, cm) \<or> AcquireVideo cm i = (True, incVideo cm i)"
    by (simp add: AcquireVideo_def split: option.splits)
  then show ?thesis
  proof
    assume "AcquireVideo cm i = (False, cm)"
    then show ?thesis using assms by simp
  next
    assume "AcquireVideo cm i = (True, incVideo cm i)"
    then show ?thesis using assms inc by (cases "j = i") simp_all
  qed
qed

lemma ReleaseVideo_bounded:
  assumes "0 \<le> sint (slot_count (videoSlots cm) j)" "sint (slot_count (videoSlots cm) j) \<le> int n"
  shows "0 \<le> sint (slot_count (videoSlots (ReleaseVideo cm i)) j) \<and>
         sint (slot_count (videoSlots (ReleaseVideo cm i)) j) \<le> int n"
proof (cases "0 <s slot_count (videoSlots cm) i")
  case True
  then have "sint (slot_count (videoSlots cm) i - 1) = sint (slot_count (videoSlots cm) i) - 1"
    by (intro sint_dec) (simp add: word_sless_alt)
  moreover have "0 < sint (slot_count (videoSlots cm) i)"
    using True by (simp add: word_sless_alt)
  ultimately show ?thesis
    using True assms by (cases "j = i") (simp_all add: ReleaseVideo_def slot_count_def)
next
  case False
  then show ?thesis using assms by (simp add: ReleaseVideo_def)
qed


lemma AcquireVideo_within_limit:
  assumes reg: "limits cm j = Some l"
    and inv: "0 \<le> sint (slot_count (videoSlots cm) j)"
             "sint (slot_count (videoSlots cm) j) \<le> sint (videoLimit l)"
  shows "0 \<le> sint (slot_count (videoSlots (snd (AcquireVideo cm i))) j) \<and>
         sint (slot_count (videoSlots (snd (AcquireVideo cm i))) j) \<le> sint (videoLimit l)"
proof (cases "i = j")
  case False
  have "AcquireVideo cm i = (False, cm) \<or> AcquireVideo cm i = (True, incVideo cm i)"
    by (simp add: AcquireVideo_def split: option.splits)
  then show ?thesis using False inv by auto
next
  case True
  show ?thesis
  proof (cases "slot_count (videoSlots cm) j <s videoLimit l")
    case lt: True
    then have "sint (slot_count (videoSlots cm) j + 1) = sint (slot_count (videoSlots cm) j) + 1"
      by (intro sint_inc_below [of _ "videoLimit l"]) (simp add: word_sless_alt)
    moreover have "AcquireVideo cm j = (True, incVideo cm j)"
      using lt by (intro AcquireVideo_granted [OF reg]) simp
    ultimately show ?thesis using True lt inv by (simp add: word_sless_alt)
  next
    case ge: False
    then have "AcquireVideo cm j = (False, cm)"
      using inv by (intro AcquireVideo_denied [OF reg]) (simp_all add: word_sle_eq word_sless_alt)
    then show ?thesis using True inv by simp
  qed
qed

lemma cm_step_bounded:
  assumes "0 \<le> sint (slot_count (imageSlots cm) j)" "sint (slot_count (imageSlots cm) j) \<le> int n"
    and "0 \<le> sint (slot_count (videoSlots cm) j)" "sint (slot_count (videoSlots cm) j) \<le> int n"
    and small: "int n < 9223372036854775807"
  shows "0 \<le> sint (slot_count (imageSlots (cm_step cm c)) j) \<and>
         sint (slot_count (imageSlots (cm_step cm c)) j) \<le> int (Suc n) \<and>
         0 \<le> sint (slot_count (videoSlots (cm_step cm c)) j) \<and>
         sint (slot_count (videoSlots (cm_step cm c)) j) \<le> int (Suc n)"
proof (cases c)
  case (CallInitialize ts)
  then show ?thesis using assms by simp
next
  case (CallUpdateTokenLimits i il vl)
  then show ?thesis using assms by (simp add: UpdateTokenLimits_def)
next
  case (CallAcquireImage i)
  then show ?thesis
    using assms AcquireImage_bounded [of cm j n i] by simp
next
  case (CallReleaseImage i)
  then show ?thesis
    using assms ReleaseImage_bounded [of cm j n i] by simp
next
  case (CallAcquireVideo i)
  then show ?thesis
    using assms AcquireVideo_bounded [of cm j n i] by simp
next
  case (CallReleaseVideo i)
  then show ?thesis
    using assms ReleaseVideo_bounded [of cm j n i] by simp
qed

lemma cm_run_bounded:
  "0 \<le> sint (slot_count (imageSlots cm) j) \<Longrightarrow> sint (slot_count (imageSlots cm) j) \<le> int n \<Longrightarrow>
   0 \<le> sint (slot_count (videoSlots cm) j) \<Longrightarrow> sint (slot_count (videoSlots cm) j) \<le> int n \<Longrightarrow>
   int n + int (length cs) \<le> 9223372036854775807 \<Longrightarrow>
   0 \<le> sint (slot_count (imageSlots (cm_run cm cs)) j) \<and>
   0 \<le> sint (slot_count (videoSlots (cm_run cm cs)) j)"
proof (induction cs arbitrary: cm n)
  case Nil
  then show ?case by simp
next
  case (Cons c cs)
  have small: "int n < 9223372036854775807" using Cons.prems(5) by simp
  note step = cm_step_bounded [OF Cons.prems(1-4) small, of c]
  have "0 \<le> sint (slot_count (imageSlots (cm_run (cm_step cm c) cs)) j) \<and>
        0 \<le> sint (slot_count (videoSlots (cm_run (cm_step cm c) cs)) j)"
  proof (rule Cons.IH [of "cm_step cm c" "Suc n"])
    show "int (Suc n) + int (length cs) \<le> 9223372036854775807"
      using Cons.prems(5) by simp
  qed (use step in simp_all)
  then show ?case by simp
qed

lemma cm_step_within_limit:
  assumes reg: "limits cm j = Some l" and unreg: "\<not> registers c j"
    and "0 \<le> sint (slot_count (imageSlots cm) j)"
        "sint (slot_count (imageSlots cm) j) \<le> sint (imageLimit l)"
  shows "0 \<le> sint (slot_count (imageSlots (cm_step cm c)) j) \<and>
         sint (slot_count (imageSlots (cm_step cm c)) j) \<le> sint (imageLimit l)"
proof (cases c)
  case (CallAcquireImage i)
  then show ?thesis using AcquireImage_within_limit [OF assms(1,3,4), of i] by simp
next
  case (CallReleaseImage i)
  then show ?thesis
    using assms(3,4) ReleaseImage_bounded [of cm j "nat (sint (imageLimit l))" i] by simp
qed (use assms in \<open>simp_all add: UpdateTokenLimits_def\<close>)

lemma cm_step_within_limit_video:
  assumes reg: "limits cm j = Some l" and unreg: "\<not> registers c j"
    and "0 \<le> sint (slot_count (videoSlots cm) j)"
        "sint (slot_count (videoSlots cm) j) \<le> sint (videoLimit l)"
  shows "0 \<le> sint (slot_count (videoSlots (cm_step cm c)) j) \<and>
         sint (slot_count (videoSlots (cm_step cm c)) j) \<le> sint (videoLimit l)"
proof (cases c)
  case (CallAcquireVideo i)
  then show ?thesis using AcquireVideo_within_limit [OF assms(1,3,4), of i] by simp
next
  case (CallReleaseVideo i)
  then show ?thesis
    using assms(3,4) ReleaseVideo_bounded [of cm j "nat (sint (videoLimit l))" i] by simp
qed (use assms in \<open>simp_all add: UpdateTokenLimits_def\<close>)

lemma cm_run_within_limit:
  "limits cm j = Some l \<Longrightarrow> \<forall>c \<in> set cs. \<not> registers c j \<Longrightarrow>
   0 \<le> sint (slot_count (imageSlots cm) j) \<Longrightarrow>
   sint (slot_count (imageSlots cm) j) \<le> sint (imageLimit l) \<Longrightarrow>
   0 \<le> sint (slot_count (imageSlots (cm_run cm cs)) j) \<and>
   sint (slot_count (imageSlots (cm_run cm cs)) j) \<le> sint (imageLimit l)"
proof (induction cs arbitrary: cm)
  case Nil
  then show ?case by simp
next
  case (Cons c cs)
  have unreg: "\<not> registers c j" using Cons.prems(2) by simp
  have "limits (cm_step cm c) j = Some l"
    using Cons.prems(1) unreg by (simp add: cm_step_limits_unregistered)
  moreover note cm_step_within_limit [OF Cons.prems(1) unreg Cons.prems(3,4)]
  ultimately show ?case using Cons.prems(2) Cons.IH [of "cm_step cm c"] by simp
qed

lemma cm_run_within_limit_video:
  "limits cm j = Some l \<Longrightarrow> \<forall>c \<in> set cs. \<not> registers c j \<Longrightarrow>
   0 \<le> sint (slot_count (videoSlots cm) j) \<Longrightarrow>
   sint (slot_count (videoSlots cm) j) \<le> sint (videoLimit l) \<Longrightarrow>
   0 \<le> sint (slot_count (videoSlots (cm_run cm cs)) j) \<and>
   sint (slot_count (videoSlots (cm_run cm cs)) j) \<le> sint (videoLimit l)"
proof (induction cs arbitrary: cm)
  case Nil
  then show ?case by simp
next
  case (Cons c cs)
  have unreg: "\<not> registers c j" using Cons.prems(2) by simp
  have "limits (cm_step cm c) j = Some l"
    using Cons.prems(1) unreg by (simp add: cm_step_limits_unregistered)
  moreover note cm_step_within_limit_video [OF Cons.prems(1) unreg Cons.prems(3,4)]
  ultimately show ?case using Cons.prems(2) Cons.IH [of "cm_step cm c"] by simp
qed

text \<open>
  C3, as the code has it. From the empty manager and for every sequence of at most
  \<open>2^63 - 1\<close> calls, both counters of every credential are non-negative. While the limit
  pair of a credential is not replaced, acquire and release keep a counter that lies
  between zero and a non-negative limit within those bounds. A release at a counter that
  is not positive changes nothing, so releasing more often than acquiring stops at zero.
  \<open>Initialize\<close> and \<open>UpdateTokenLimits\<close> store the new pair without looking at the
  counters, so the bound by the limit is not an invariant across them.
\<close>

theorem slot_counter_bounds:
  "(int (length cs) \<le> 9223372036854775807 \<longrightarrow>
      0 \<le>s slot_count (imageSlots (cm_run NewConcurrencyManager cs)) i \<and>
      0 \<le>s slot_count (videoSlots (cm_run NewConcurrencyManager cs)) i) \<and>
   (limits cm i = Some l \<and> (\<forall>c \<in> set cs. \<not> registers c i) \<longrightarrow>
      (0 \<le>s slot_count (imageSlots cm) i \<and> slot_count (imageSlots cm) i \<le>s imageLimit l \<longrightarrow>
         0 \<le>s slot_count (imageSlots (cm_run cm cs)) i \<and>
         slot_count (imageSlots (cm_run cm cs)) i \<le>s imageLimit l) \<and>
      (0 \<le>s slot_count (videoSlots cm) i \<and> slot_count (videoSlots cm) i \<le>s videoLimit l \<longrightarrow>
         0 \<le>s slot_count (videoSlots (cm_run cm cs)) i \<and>
         slot_count (videoSlots (cm_run cm cs)) i \<le>s videoLimit l)) \<and>
   (\<not> 0 <s slot_count (imageSlots cm) i \<longrightarrow> ReleaseImage cm i = cm) \<and>
   (\<not> 0 <s slot_count (videoSlots cm) i \<longrightarrow> ReleaseVideo cm i = cm)"
proof (intro conjI impI)
  assume len: "int (length cs) \<le> 9223372036854775807"
  have "0 \<le> sint (slot_count (imageSlots (cm_run NewConcurrencyManager cs)) i) \<and>
        0 \<le> sint (slot_count (videoSlots (cm_run NewConcurrencyManager cs)) i)"
    using len by (intro cm_run_bounded [of _ _ 0]) (simp_all add: NewConcurrencyManager_def slot_count_def)
  then show "0 \<le>s slot_count (imageSlots (cm_run NewConcurrencyManager cs)) i"
    and "0 \<le>s slot_count (videoSlots (cm_run NewConcurrencyManager cs)) i"
    by (simp_all add: word_sle_eq)
next
  assume a: "limits cm i = Some l \<and> (\<forall>c \<in> set cs. \<not> registers c i)"
    and b: "0 \<le>s slot_count (imageSlots cm) i \<and> slot_count (imageSlots cm) i \<le>s imageLimit l"
  have "0 \<le> sint (slot_count (imageSlots (cm_run cm cs)) i) \<and>
        sint (slot_count (imageSlots (cm_run cm cs)) i) \<le> sint (imageLimit l)"
    using a b by (intro cm_run_within_limit) (simp_all add: word_sle_eq)
  then show "0 \<le>s slot_count (imageSlots (cm_run cm cs)) i"
    and "slot_count (imageSlots (cm_run cm cs)) i \<le>s imageLimit l"
    by (simp_all add: word_sle_eq)
next
  assume a: "limits cm i = Some l \<and> (\<forall>c \<in> set cs. \<not> registers c i)"
    and b: "0 \<le>s slot_count (videoSlots cm) i \<and> slot_count (videoSlots cm) i \<le>s videoLimit l"
  have "0 \<le> sint (slot_count (videoSlots (cm_run cm cs)) i) \<and>
        sint (slot_count (videoSlots (cm_run cm cs)) i) \<le> sint (videoLimit l)"
    using a b by (intro cm_run_within_limit_video) (simp_all add: word_sle_eq)
  then show "0 \<le>s slot_count (videoSlots (cm_run cm cs)) i"
    and "slot_count (videoSlots (cm_run cm cs)) i \<le>s videoLimit l"
    by (simp_all add: word_sle_eq)
next
  assume "\<not> 0 <s slot_count (imageSlots cm) i"
  then show "ReleaseImage cm i = cm" by (simp add: ReleaseImage_def)
next
  assume "\<not> 0 <s slot_count (videoSlots cm) i"
  then show "ReleaseVideo cm i = cm" by (simp add: ReleaseVideo_def)
qed

theorem slot_counter_bounds_witness:
  "int (length calls_steady) \<le> 9223372036854775807 \<and>
   limits cm_example 7 = Some \<lparr>imageLimit = 2, videoLimit = 1\<rparr> \<and>
   list_all (\<lambda>c. \<not> registers c 7) calls_steady \<and>
   0 \<le>s slot_count (imageSlots cm_example) 7 \<and> slot_count (imageSlots cm_example) 7 \<le>s 2 \<and>
   0 \<le>s slot_count (videoSlots cm_example) 7 \<and> slot_count (videoSlots cm_example) 7 \<le>s 1 \<and>
   \<not> 0 <s slot_count (imageSlots cm_example) 7 \<and>
   \<not> 0 <s slot_count (videoSlots cm_example) 8 \<and>
   0 \<le>s slot_count (imageSlots (cm_run NewConcurrencyManager calls_steady)) 7 \<and>
   slot_count (imageSlots (cm_run cm_example calls_steady)) 7 \<le>s 2 \<and>
   slot_count (videoSlots (cm_run cm_example calls_steady)) 7 \<le>s 1 \<and>
   ReleaseImage cm_example 7 = cm_example \<and>
   ReleaseVideo cm_example 8 = cm_example"
proof -
  have h1: "int (length calls_steady) \<le> 9223372036854775807"
    by (simp add: calls_steady_def)
  have h2: "limits cm_example 7 = Some \<lparr>imageLimit = 2, videoLimit = 1\<rparr>"
    by (simp add: cm_example_def)
  have h3: "\<forall>c \<in> set calls_steady. \<not> registers c 7"
    by (simp add: calls_steady_def)
  have h4: "0 \<le>s slot_count (imageSlots cm_example) 7 \<and> slot_count (imageSlots cm_example) 7 \<le>s 2"
    by (simp add: cm_example_def slot_count_def word_sle_eq)
  have h5: "0 \<le>s slot_count (videoSlots cm_example) 7 \<and> slot_count (videoSlots cm_example) 7 \<le>s 1"
    by (simp add: cm_example_def slot_count_def word_sle_eq)
  have h6: "\<not> 0 <s slot_count (imageSlots cm_example) 7"
    by (simp add: cm_example_def slot_count_def word_sless_alt)
  have h7: "\<not> 0 <s slot_count (videoSlots cm_example) 8"
    by (simp add: cm_example_def slot_count_def word_sless_alt)
  show ?thesis
    using h1 h2 h3 h3 [unfolded list_all_iff [symmetric]] h4 h5 h6 h7
      slot_counter_bounds [of calls_steady 7 cm_example "\<lparr>imageLimit = 2, videoLimit = 1\<rparr>"]
      slot_counter_bounds [of calls_steady 8 cm_example "\<lparr>imageLimit = 2, videoLimit = 1\<rparr>"]
    by simp
qed

theorem limit_lowered_below_counter:
  "limits (cm_run NewConcurrencyManager calls_lowering) 1 = Some \<lparr>imageLimit = 1, videoLimit = 1\<rparr> \<and>
   (0 :: go_int) \<le>s 1 \<and>
   slot_count (imageSlots (cm_run NewConcurrencyManager calls_lowering)) 1 = 3 \<and>
   \<not> (3 :: go_int) \<le>s 1"
  by (simp add: calls_lowering_def NewConcurrencyManager_def UpdateTokenLimits_def AcquireImage_def
      incImage_def slot_count_def word_sle_eq word_sless_alt)

section \<open>Properties of the score\<close>

lemma float64_of_int_exact: "\<bar>n\<bar> < 2 ^ 53 \<Longrightarrow> float64_of_int n = of_int n"
  by (simp add: float64_of_int_def fl_of_int)

lemma float64_of_int_mono: "m \<le> n \<Longrightarrow> float64_of_int m \<le> float64_of_int n"
  by (simp add: float64_of_int_def fl_mono)

lemma go_div_mod_nonneg:
  "0 \<le> d \<Longrightarrow> go_div d 1000000000 = d div 1000000000 \<and> go_mod d 1000000000 = d mod 1000000000"
  by (cases "d = 0") (simp_all add: go_div_def go_mod_def minus_mult_div_eq_mod)

lemma go_div_mod_minus:
  "go_div (- d) 1000000000 = - go_div d 1000000000 \<and> go_mod (- d) 1000000000 = - go_mod d 1000000000"
  by (simp add: go_div_def go_mod_def)

lemma Duration_Seconds_minus: "Duration_Seconds (- d) = - Duration_Seconds d"
proof -
  have "Duration_Seconds (- d) =
      fl (- (float64_of_int (go_div d 1000000000) +
             fl (float64_of_int (go_mod d 1000000000) / 1000000000)))"
    by (simp add: Duration_Seconds_def go_div_mod_minus float64_of_int_def fl_minus)
  then show ?thesis by (simp only: fl_minus Duration_Seconds_def)
qed

lemma Duration_Seconds_nonneg_eq:
  assumes "0 \<le> d" "d \<le> 9223372036854775808"
  shows "Duration_Seconds d =
    fl (of_int (d div 1000000000) + fl (of_int (d mod 1000000000) / 1000000000))"
proof -
  have "\<bar>d div 1000000000\<bar> < 2 ^ 53" using assms by simp
  moreover have "\<bar>d mod 1000000000\<bar> < 2 ^ 53"
    using pos_mod_bound [of 1000000000 d] pos_mod_sign [of 1000000000 d] by simp
  ultimately show ?thesis
    using assms(1) by (simp add: Duration_Seconds_def go_div_mod_nonneg float64_of_int_exact)
qed

lemma fl_one: "fl 1 = 1"
  using fl_of_int [of 1] by simp

lemma Duration_Seconds_nonneg:
  assumes "0 \<le> d" "d \<le> 9223372036854775808"
  shows "0 \<le> Duration_Seconds d"
proof -
  have "0 \<le> (of_int (d mod 1000000000) :: rat) / 1000000000"
    using pos_mod_sign [of 1000000000 d] by simp
  then have "0 \<le> fl (of_int (d mod 1000000000) / 1000000000)" by (rule fl_nonneg)
  moreover have "0 \<le> (of_int (d div 1000000000) :: rat)"
    using assms(1) by (simp add: pos_imp_zdiv_nonneg_iff)
  ultimately show ?thesis
    by (simp add: Duration_Seconds_nonneg_eq [OF assms] fl_nonneg)
qed

lemma Duration_Seconds_mono_nonneg:
  assumes "0 \<le> d1" "d1 \<le> d2" "d2 \<le> 9223372036854775808"
  shows "Duration_Seconds d1 \<le> Duration_Seconds d2"
proof -
  let ?s1 = "d1 div 1000000000" and ?s2 = "d2 div 1000000000"
  let ?r1 = "d1 mod 1000000000" and ?r2 = "d2 mod 1000000000"
  let ?f1 = "fl (of_int ?r1 / 1000000000)" and ?f2 = "fl (of_int ?r2 / 1000000000)"
  have le: "?s1 \<le> ?s2" using assms(2) by (simp add: zdiv_mono1)
  have "(of_int ?s1 :: rat) + ?f1 \<le> of_int ?s2 + ?f2"
  proof (cases "?s1 = ?s2")
    case True
    have "d1 = ?s1 * 1000000000 + ?r1" "d2 = ?s2 * 1000000000 + ?r2" by simp_all
    then have "?r1 \<le> ?r2" using assms(2) True by linarith
    then have "(of_int ?r1 :: rat) / 1000000000 \<le> of_int ?r2 / 1000000000"
      by (simp add: divide_right_mono)
    then have "?f1 \<le> ?f2" by (rule fl_mono)
    then show ?thesis using True by simp
  next
    case False
    then have "?s1 + 1 \<le> ?s2" using le by simp
    then have s: "(of_int ?s1 :: rat) + 1 \<le> of_int ?s2"
      by (metis of_int_1 of_int_add of_int_le_iff)
    have "(of_int ?r1 :: rat) / 1000000000 \<le> 1"
      using pos_mod_bound [of 1000000000 d1] by simp
    then have "?f1 \<le> 1" using fl_mono [of "of_int ?r1 / 1000000000" 1] by (simp add: fl_one)
    moreover have "0 \<le> (of_int ?r2 :: rat) / 1000000000"
      using pos_mod_sign [of 1000000000 d2] by simp
    then have "0 \<le> ?f2" by (rule fl_nonneg)
    ultimately show ?thesis using s by linarith
  qed
  then have "fl (of_int ?s1 + ?f1) \<le> fl (of_int ?s2 + ?f2)" by (rule fl_mono)
  then show ?thesis
    using assms by (simp add: Duration_Seconds_nonneg_eq)
qed

lemma Duration_Seconds_mono:
  assumes "- 9223372036854775808 \<le> d1" "d1 \<le> d2" "d2 \<le> 9223372036854775808"
  shows "Duration_Seconds d1 \<le> Duration_Seconds d2"
proof -
  consider "0 \<le> d1" | "d1 < 0" "0 \<le> d2" | "d2 < 0" using assms(2) by linarith
  then show ?thesis
  proof cases
    case 1
    then show ?thesis using assms by (intro Duration_Seconds_mono_nonneg)
  next
    case 2
    have "0 \<le> Duration_Seconds (- d1)"
      using 2 assms by (intro Duration_Seconds_nonneg) simp_all
    moreover have "0 \<le> Duration_Seconds d2"
      using 2 assms by (intro Duration_Seconds_nonneg) simp_all
    ultimately show ?thesis by (simp add: Duration_Seconds_minus)
  next
    case 3
    have "Duration_Seconds (- d2) \<le> Duration_Seconds (- d1)"
      using 3 assms by (intro Duration_Seconds_mono_nonneg) simp_all
    then show ?thesis by (simp add: Duration_Seconds_minus)
  qed
qed

lemma time_Sub_range: "- 9223372036854775808 \<le> time_Sub t u \<and> time_Sub t u \<le> 9223372036854775807"
  by (simp add: time_Sub_def)

lemma time_Sub_nonneg: "u \<le> t \<Longrightarrow> 0 \<le> time_Sub t u"
  by (simp add: time_Sub_def)

lemma score_used_mono:
  assumes "Credits a = Credits b" "LastUsedAt a = Some la" "LastUsedAt b = Some lb"
    "time_Sub now lb \<le> time_Sub now la"
  shows "token_score now b \<le> token_score now a"
proof -
  have "Duration_Seconds (time_Sub now lb) \<le> Duration_Seconds (time_Sub now la)"
    using assms(4) time_Sub_range [of now lb] time_Sub_range [of now la]
    by (intro Duration_Seconds_mono) simp_all
  then have "fl (Duration_Seconds (time_Sub now lb) / 60) \<le> fl (Duration_Seconds (time_Sub now la) / 60)"
    by (intro fl_mono) (simp add: divide_right_mono)
  then show ?thesis using assms(1-3) by (simp add: token_score_def fl_mono)
qed

lemma Duration_Seconds_1000_minutes: "Duration_Seconds 60000000000000 = 60000"
  using fl_of_int [of 60000] by (simp add: Duration_Seconds_nonneg_eq)

lemma fl_1000: "fl 1000 = 1000"
  using fl_of_int [of 1000] by simp

lemma score_never_used:
  assumes "Credits a = Credits b" "LastUsedAt a = None" "LastUsedAt b = Some lb"
    "time_Sub now lb \<le> 60000000000000"
  shows "token_score now b \<le> token_score now a"
proof -
  have "Duration_Seconds (time_Sub now lb) \<le> Duration_Seconds 60000000000000"
    using assms(4) time_Sub_range [of now lb] by (intro Duration_Seconds_mono) simp_all
  then have "Duration_Seconds (time_Sub now lb) / 60 \<le> 1000"
    by (simp add: Duration_Seconds_1000_minutes)
  then have "fl (Duration_Seconds (time_Sub now lb) / 60) \<le> 1000"
    using fl_mono [of "Duration_Seconds (time_Sub now lb) / 60" 1000] by (simp add: fl_1000)
  then show ?thesis using assms(1-3) by (simp add: token_score_def fl_mono)
qed

lemma score_nonneg:
  assumes "0 \<le>s Credits t" "\<forall>l. LastUsedAt t = Some l \<longrightarrow> l \<le> now"
  shows "0 \<le> token_score now t"
proof -
  have "0 \<le> sint (Credits t)" using assms(1) by (simp add: word_sle_eq)
  then have "(0::rat) \<le> of_int (sint (Credits t))" by (simp only: of_int_0_le_iff)
  then have c: "0 \<le> float64_of_int (sint (Credits t))"
    unfolding float64_of_int_def by (rule fl_nonneg)
  show ?thesis
  proof (cases "LastUsedAt t")
    case None
    then show ?thesis using c by (simp add: token_score_def fl_nonneg)
  next
    case (Some l)
    then have "0 \<le> time_Sub now l" using assms(2) by (simp add: time_Sub_nonneg)
    then have "0 \<le> Duration_Seconds (time_Sub now l)"
      using time_Sub_range [of now l] by (intro Duration_Seconds_nonneg) simp_all
    then have "0 \<le> fl (Duration_Seconds (time_Sub now l) / 60)" by (intro fl_nonneg) simp
    then show ?thesis using c Some by (simp add: token_score_def fl_nonneg)
  qed
qed

section \<open>Properties of the scheduler\<close>

lemma select_loop_Cons:
  "select_loop cm fi fv now (t # ts) (b, s) =
     select_loop cm fi fv now ts
       (if survives cm fi fv now t \<and> s < token_score now t then (Some t, token_score now t) else (b, s))"
  by (simp add: survives_def)

lemma select_loop_result:
  "select_loop cm fi fv now ts (b, s) = (b', s') \<Longrightarrow>
   (b' = b \<and> s' = s \<and> (\<forall>u \<in> set (filter (survives cm fi fv now) ts). token_score now u \<le> s)) \<or>
   (\<exists>t pre post. b' = Some t \<and> s' = token_score now t \<and> s < token_score now t \<and>
      filter (survives cm fi fv now) ts = pre @ t # post \<and>
      (\<forall>u \<in> set pre. token_score now u < token_score now t) \<and>
      (\<forall>u \<in> set post. token_score now u \<le> token_score now t))"
proof (induction ts arbitrary: b s)
  case Nil
  then show ?case by simp
next
  case (Cons a ts)
  let ?P = "survives cm fi fv now"
  let ?sc = "token_score now"
  show ?case
  proof (cases "?P a \<and> s < ?sc a")
    case False
    then have run: "select_loop cm fi fv now ts (b, s) = (b', s')"
      using Cons.prems by (auto simp add: select_loop_Cons simp del: select_loop.simps split: if_splits)
    from Cons.IH [OF run] show ?thesis
    proof
      assume keep: "b' = b \<and> s' = s \<and> (\<forall>u \<in> set (filter ?P ts). ?sc u \<le> s)"
      then show ?thesis using False by auto
    next
      assume "\<exists>t pre post. b' = Some t \<and> s' = ?sc t \<and> s < ?sc t \<and>
        filter ?P ts = pre @ t # post \<and> (\<forall>u \<in> set pre. ?sc u < ?sc t) \<and>
        (\<forall>u \<in> set post. ?sc u \<le> ?sc t)"
      then obtain t pre post where t: "b' = Some t" "s' = ?sc t" "s < ?sc t"
        "filter ?P ts = pre @ t # post" "\<forall>u \<in> set pre. ?sc u < ?sc t"
        "\<forall>u \<in> set post. ?sc u \<le> ?sc t"
        by blast
      show ?thesis
      proof (cases "?P a")
        case True
        then have "?sc a \<le> s" using False by simp
        then have "?sc a < ?sc t" using t(3) by simp
        then have "filter ?P (a # ts) = (a # pre) @ t # post \<and>
            (\<forall>u \<in> set (a # pre). ?sc u < ?sc t)"
          using True t by simp
        then show ?thesis using t by blast
      next
        case nP: False
        then have "filter ?P (a # ts) = pre @ t # post" using t by simp
        then show ?thesis using t by blast
      qed
    qed
  next
    case True
    then have run: "select_loop cm fi fv now ts (Some a, ?sc a) = (b', s')"
      using Cons.prems by (auto simp add: select_loop_Cons simp del: select_loop.simps split: if_splits)
    from Cons.IH [OF run] show ?thesis
    proof
      assume keep: "b' = Some a \<and> s' = ?sc a \<and> (\<forall>u \<in> set (filter ?P ts). ?sc u \<le> ?sc a)"
      then have "filter ?P (a # ts) = [] @ a # filter ?P ts" using True by simp
      then show ?thesis using keep True by (metis empty_iff list.set(1))
    next
      assume "\<exists>t pre post. b' = Some t \<and> s' = ?sc t \<and> ?sc a < ?sc t \<and>
        filter ?P ts = pre @ t # post \<and> (\<forall>u \<in> set pre. ?sc u < ?sc t) \<and>
        (\<forall>u \<in> set post. ?sc u \<le> ?sc t)"
      then obtain t pre post where t: "b' = Some t" "s' = ?sc t" "?sc a < ?sc t"
        "filter ?P ts = pre @ t # post" "\<forall>u \<in> set pre. ?sc u < ?sc t"
        "\<forall>u \<in> set post. ?sc u \<le> ?sc t"
        by blast
      have "filter ?P (a # ts) = (a # pre) @ t # post \<and>
            (\<forall>u \<in> set (a # pre). ?sc u < ?sc t)"
        using True t by simp
      moreover have "s < ?sc t" using True t(3) by simp
      ultimately show ?thesis using t by blast
    qed
  qed
qed

lemma SelectToken_cases:
  "(SelectToken d cm fi fv model now = None \<and>
      (\<forall>u \<in> set (filter (survives cm fi fv now) (GetActiveTokens d)). token_score now u \<le> - 1)) \<or>
   (\<exists>t pre post. SelectToken d cm fi fv model now = Some t \<and> - 1 < token_score now t \<and>
      filter (survives cm fi fv now) (GetActiveTokens d) = pre @ t # post \<and>
      (\<forall>u \<in> set pre. token_score now u < token_score now t) \<and>
      (\<forall>u \<in> set post. token_score now u \<le> token_score now t))"
proof -
  obtain b' s' where run:
    "select_loop cm fi fv now (GetActiveTokens d) (None, - 1) = (b', s')"
    by (cases "select_loop cm fi fv now (GetActiveTokens d) (None, - 1)") blast
  then have sel: "SelectToken d cm fi fv model now = b'"
    by (simp add: SelectToken_def)
  from select_loop_result [OF run] show ?thesis
    unfolding sel by blast
qed

lemma SelectToken_Some_survivor:
  assumes "SelectToken d cm fi fv model now = Some t"
  shows "t \<in> set (GetActiveTokens d) \<and> survives cm fi fv now t \<and> - 1 < token_score now t \<and>
         (\<forall>u \<in> set (GetActiveTokens d). survives cm fi fv now u \<longrightarrow> token_score now u \<le> token_score now t)"
proof -
  from SelectToken_cases [of d cm fi fv model now] assms
  obtain pre post where t: "- 1 < token_score now t"
    "filter (survives cm fi fv now) (GetActiveTokens d) = pre @ t # post"
    "\<forall>u \<in> set pre. token_score now u < token_score now t"
    "\<forall>u \<in> set post. token_score now u \<le> token_score now t"
    by auto
  have mem: "t \<in> set (filter (survives cm fi fv now) (GetActiveTokens d))"
    unfolding t(2) by simp
  have "\<forall>u \<in> set (filter (survives cm fi fv now) (GetActiveTokens d)). token_score now u \<le> token_score now t"
    unfolding t(2) using t(3,4) by auto
  then show ?thesis using mem t(1) by auto
qed

text \<open>
  C4. The scheduler returns only a credential of the active list that has the capability
  flag of each requested kind, whose access token has no known expiry before now, and
  that, when it declares a positive limit for a requested kind, passes the slot check of
  that kind; it returns none when no credential of the active list passes the filters.
\<close>

theorem select_respects_filters:
  "(SelectToken d cm forImage forVideo model now = Some t \<longrightarrow>
      t \<in> set (GetActiveTokens d) \<and>
      (forImage \<longrightarrow> ImageEnabled t) \<and>
      (forVideo \<longrightarrow> VideoEnabled t) \<and>
      (\<forall>e. ATExpires t = Some e \<longrightarrow> \<not> time_Before e now) \<and>
      (forImage \<and> 0 <s ImageConcurrency t \<longrightarrow> CanAcquireImage cm (ID t)) \<and>
      (forVideo \<and> 0 <s VideoConcurrency t \<longrightarrow> CanAcquireVideo cm (ID t))) \<and>
   ((\<forall>u \<in> set (GetActiveTokens d). \<not> survives cm forImage forVideo now u) \<longrightarrow>
      SelectToken d cm forImage forVideo model now = None)"
proof (intro conjI impI)
  assume "\<forall>u \<in> set (GetActiveTokens d). \<not> survives cm forImage forVideo now u"
  then have "filter (survives cm forImage forVideo now) (GetActiveTokens d) = []"
    by (simp add: filter_empty_conv)
  then show "SelectToken d cm forImage forVideo model now = None"
    using SelectToken_cases [of d cm forImage forVideo model now] by auto
next
  assume sel: "SelectToken d cm forImage forVideo model now = Some t"
  note s = SelectToken_Some_survivor [OF sel]
  then have sv: "survives cm forImage forVideo now t" by blast
  show "t \<in> set (GetActiveTokens d)" using s by blast
  show "\<forall>e. ATExpires t = Some e \<longrightarrow> \<not> time_Before e now"
    using sv by (auto simp: survives_def at_expired_def)
  { assume forImage
    then show "ImageEnabled t" using sv by (simp add: survives_def) }
  { assume forVideo
    then show "VideoEnabled t" using sv by (simp add: survives_def) }
  { assume "forImage \<and> 0 <s ImageConcurrency t"
    then show "CanAcquireImage cm (ID t)" using sv by (simp add: survives_def) }
  { assume "forVideo \<and> 0 <s VideoConcurrency t"
    then show "CanAcquireVideo cm (ID t)" using sv by (simp add: survives_def) }
qed

theorem select_respects_filters_witness:
  "SelectToken (db_of [tok 1, (tok 2)\<lparr>ImageEnabled := False\<rparr>]) NewConcurrencyManager True False ''m'' 0
     = Some (tok 1) \<and>
   tok 1 \<in> set (GetActiveTokens (db_of [tok 1, (tok 2)\<lparr>ImageEnabled := False\<rparr>])) \<and>
   ImageEnabled (tok 1) \<and>
   list_all (\<lambda>u. \<not> survives NewConcurrencyManager True False 10 u)
     (GetActiveTokens (db_of [(tok 1)\<lparr>ATExpires := Some 5\<rparr>])) \<and>
   SelectToken (db_of [(tok 1)\<lparr>ATExpires := Some 5\<rparr>]) NewConcurrencyManager True False ''m'' 10 = None"
proof -
  have act: "GetActiveTokens (db_of [tok 1, (tok 2)\<lparr>ImageEnabled := False\<rparr>])
      = [tok 1, (tok 2)\<lparr>ImageEnabled := False\<rparr>]"
    by (simp add: GetActiveTokens_def db_of_def tok_def GetToken_def)
  have sc: "- 1 < token_score 0 (tok 1)"
    using score_nonneg [of "tok 1" 0] by (simp add: tok_def word_sle_eq)
  have s1: "survives NewConcurrencyManager True False 0 (tok 1)"
    by (simp add: survives_def tok_def at_expired_def word_sless_alt)
  have s2: "\<not> survives NewConcurrencyManager True False 0 ((tok 2)\<lparr>ImageEnabled := False\<rparr>)"
    by (simp add: survives_def)
  have sel: "SelectToken (db_of [tok 1, (tok 2)\<lparr>ImageEnabled := False\<rparr>]) NewConcurrencyManager
      True False ''m'' 0 = Some (tok 1)"
    using sc s1 s2 by (simp add: SelectToken_def act select_loop_Cons del: select_loop.simps(2))
  have none: "\<forall>u \<in> set (GetActiveTokens (db_of [(tok 1)\<lparr>ATExpires := Some 5\<rparr>])).
      \<not> survives NewConcurrencyManager True False 10 u"
    by (simp add: GetActiveTokens_def db_of_def tok_def GetToken_def survives_def at_expired_def
        time_Before_def)
  show ?thesis
    using sel none none [unfolded list_all_iff [symmetric]]
      select_respects_filters
        [of "db_of [tok 1, (tok 2)\<lparr>ImageEnabled := False\<rparr>]" NewConcurrencyManager True False "''m''" 0 "tok 1"]
      select_respects_filters
        [of "db_of [(tok 1)\<lparr>ATExpires := Some 5\<rparr>]" NewConcurrencyManager True False "''m''" 10 "tok 1"]
    by blast
qed

lemma select_tie_first:
  assumes sel: "SelectToken d cm fi fv model now = Some b"
    and mem: "a \<in> set (GetActiveTokens d)" and sa: "survives cm fi fv now a"
    and le: "token_score now b \<le> token_score now a"
  shows "token_score now b = token_score now a \<and>
         (\<exists>pre post. filter (survives cm fi fv now) (GetActiveTokens d) = pre @ b # post \<and> a \<notin> set pre)"
proof -
  from SelectToken_cases [of d cm fi fv model now] sel
  obtain pre post where t:
    "filter (survives cm fi fv now) (GetActiveTokens d) = pre @ b # post"
    "\<forall>u \<in> set pre. token_score now u < token_score now b"
    "\<forall>u \<in> set post. token_score now u \<le> token_score now b"
    by auto
  from SelectToken_Some_survivor [OF sel] mem sa
  have "token_score now a \<le> token_score now b" by blast
  then have eq: "token_score now b = token_score now a" using le by simp
  then have "a \<notin> set pre" using t(2) by auto
  then show ?thesis using eq t(1) by blast
qed

lemma select_some:
  assumes mem: "a \<in> set (GetActiveTokens d)" and sa: "survives cm fi fv now a"
    and pos: "- 1 < token_score now a"
  shows "SelectToken d cm fi fv model now \<noteq> None"
proof -
  have "a \<in> set (filter (survives cm fi fv now) (GetActiveTokens d))" using mem sa by simp
  then have "\<not> (\<forall>u \<in> set (filter (survives cm fi fv now) (GetActiveTokens d)). token_score now u \<le> - 1)"
    using pos by (meson not_less)
  then show ?thesis using SelectToken_cases [of d cm fi fv model now] by auto
qed

lemma select_of_two:
  assumes two: "GetActiveTokens d = [a, b] \<or> GetActiveTokens d = [b, a] \<and> token_score now b \<noteq> token_score now a"
    and sa: "survives cm fi fv now a"
    and le: "token_score now b \<le> token_score now a"
    and pos: "- 1 < token_score now a"
  shows "SelectToken d cm fi fv model now = Some a"
  using two
proof
  assume "GetActiveTokens d = [a, b]"
  then show ?thesis
    using sa le pos by (simp add: SelectToken_def select_loop_Cons del: select_loop.simps(2))
next
  assume "GetActiveTokens d = [b, a] \<and> token_score now b \<noteq> token_score now a"
  then have "GetActiveTokens d = [b, a]" "token_score now b < token_score now a" using le by simp_all
  then show ?thesis
    using sa pos by (simp add: SelectToken_def select_loop_Cons del: select_loop.simps(2))
qed

lemma score_example_1: "token_score 600000000000 (tok_used 1 540000000000) = 11"
  by code_simp

lemma score_example_2: "token_score 600000000000 (tok_used 2 0) = 20"
  by code_simp

lemma score_example_3: "token_score 600000000000 (tok 2) = 1010"
  by code_simp

lemma score_rich_1: "token_score 600000000001 (tok_rich 1 1) = 300010"
  by code_simp

lemma score_rich_2: "token_score 600000000001 (tok_rich 2 0) = 300010"
  by code_simp

text \<open>
  C9, as the code has it. The score is computed in \<open>float64\<close>: the credits converted, plus
  1000 for a credential never used, else plus \<open>now.Sub(lastUsedAt).Seconds() / 60\<close>, the
  saturating elapsed time in minutes, every operation rounded. A credential that the
  scheduler returns is the first surviving candidate of maximal computed score, and one
  is returned whenever a surviving candidate has a non-negative balance and was not used
  after \<open>now\<close>. Of two candidates of equal credit, the one with the larger
  \<open>now.Sub(lastUsedAt)\<close>, or the one never used against one used at most 1000 minutes ago,
  has a computed score at least as large: the other one is returned only when the two
  computed scores are equal and it comes first among the survivors. With exactly these
  two in the list, the preferred one is returned when it comes first or the computed
  scores differ.
\<close>

theorem select_prefers_best_score:
  "(SelectToken d cm forImage forVideo model now = Some t \<longrightarrow>
      (\<exists>pre post.
          filter (survives cm forImage forVideo now) (GetActiveTokens d) = pre @ t # post \<and>
          (\<forall>u \<in> set pre. token_score now u < token_score now t) \<and>
          (\<forall>u \<in> set post. token_score now u \<le> token_score now t))) \<and>
   (a \<in> set (GetActiveTokens d) \<and> survives cm forImage forVideo now a \<and>
    0 \<le>s Credits a \<and> (\<forall>l. LastUsedAt a = Some l \<longrightarrow> l \<le> now) \<longrightarrow>
      SelectToken d cm forImage forVideo model now \<noteq> None) \<and>
   token_score now t =
      (case LastUsedAt t of
         None \<Rightarrow> fl (float64_of_int (sint (Credits t)) + 1000)
       | Some l \<Rightarrow>
           fl (float64_of_int (sint (Credits t)) + fl (Duration_Seconds (time_Sub now l) / 60))) \<and>
   (a \<in> set (GetActiveTokens d) \<and> survives cm forImage forVideo now a \<and> Credits a = Credits b \<and>
    LastUsedAt b = Some lb \<and>
    (LastUsedAt a = None \<and> time_Sub now lb \<le> 60000000000000 \<or>
     (\<exists>la. LastUsedAt a = Some la \<and> time_Sub now lb \<le> time_Sub now la)) \<longrightarrow>
      token_score now b \<le> token_score now a \<and>
      (SelectToken d cm forImage forVideo model now = Some b \<longrightarrow>
         token_score now b = token_score now a \<and>
         (\<exists>pre post.
             filter (survives cm forImage forVideo now) (GetActiveTokens d) = pre @ b # post \<and>
             a \<notin> set pre)) \<and>
      ((GetActiveTokens d = [a, b] \<or>
        GetActiveTokens d = [b, a] \<and> token_score now b \<noteq> token_score now a) \<and>
       0 \<le>s Credits a \<and> (\<forall>l. LastUsedAt a = Some l \<longrightarrow> l \<le> now) \<longrightarrow>
         SelectToken d cm forImage forVideo model now = Some a))"
proof (intro conjI impI)
  assume sel: "SelectToken d cm forImage forVideo model now = Some t"
  from SelectToken_cases [of d cm forImage forVideo model now] sel
  show "\<exists>pre post.
          filter (survives cm forImage forVideo now) (GetActiveTokens d) = pre @ t # post \<and>
          (\<forall>u \<in> set pre. token_score now u < token_score now t) \<and>
          (\<forall>u \<in> set post. token_score now u \<le> token_score now t)"
    by auto
next
  assume h: "a \<in> set (GetActiveTokens d) \<and> survives cm forImage forVideo now a \<and>
    0 \<le>s Credits a \<and> (\<forall>l. LastUsedAt a = Some l \<longrightarrow> l \<le> now)"
  then have "0 \<le> token_score now a" by (intro score_nonneg) simp_all
  then have "- 1 < token_score now a" by simp
  then show "SelectToken d cm forImage forVideo model now \<noteq> None"
    using h by (intro select_some [of a]) simp_all
next
  show "token_score now t =
      (case LastUsedAt t of
         None \<Rightarrow> fl (float64_of_int (sint (Credits t)) + 1000)
       | Some l \<Rightarrow>
           fl (float64_of_int (sint (Credits t)) + fl (Duration_Seconds (time_Sub now l) / 60)))"
    by (simp add: token_score_def split: option.splits)
next
  assume h: "a \<in> set (GetActiveTokens d) \<and> survives cm forImage forVideo now a \<and> Credits a = Credits b \<and>
    LastUsedAt b = Some lb \<and>
    (LastUsedAt a = None \<and> time_Sub now lb \<le> 60000000000000 \<or>
     (\<exists>la. LastUsedAt a = Some la \<and> time_Sub now lb \<le> time_Sub now la))"
  then show le: "token_score now b \<le> token_score now a"
    using score_used_mono [of a b _ lb now] score_never_used [of a b lb now] by blast
  { assume "SelectToken d cm forImage forVideo model now = Some b"
    from select_tie_first [OF this _ _ le] h
    show "token_score now b = token_score now a"
      and "\<exists>pre post.
             filter (survives cm forImage forVideo now) (GetActiveTokens d) = pre @ b # post \<and>
             a \<notin> set pre"
      by simp_all }
  assume two: "(GetActiveTokens d = [a, b] \<or>
        GetActiveTokens d = [b, a] \<and> token_score now b \<noteq> token_score now a) \<and>
       0 \<le>s Credits a \<and> (\<forall>l. LastUsedAt a = Some l \<longrightarrow> l \<le> now)"
  then have "0 \<le> token_score now a" by (intro score_nonneg) simp_all
  then have "- 1 < token_score now a" by simp
  then show "SelectToken d cm forImage forVideo model now = Some a"
    using two h le by (intro select_of_two [of d a b]) simp_all
qed

theorem select_prefers_best_score_witness:
  "GetActiveTokens (db_of [tok_used 1 540000000000, tok_used 2 0]) = [tok_used 1 540000000000, tok_used 2 0] \<and>
   survives NewConcurrencyManager True False 600000000000 (tok_used 2 0) \<and>
   Credits (tok_used 2 0) = Credits (tok_used 1 540000000000) \<and>
   0 \<le>s Credits (tok_used 2 0) \<and>
   LastUsedAt (tok_used 2 0) = Some 0 \<and>
   time_Sub 600000000000 540000000000 \<le> time_Sub 600000000000 0 \<and>
   token_score 600000000000 (tok_used 1 540000000000) = 11 \<and>
   token_score 600000000000 (tok_used 2 0) = 20 \<and>
   SelectToken (db_of [tok_used 1 540000000000, tok_used 2 0]) NewConcurrencyManager True False ''m''
     600000000000 = Some (tok_used 2 0) \<and>
   GetActiveTokens (db_of [tok_used 1 540000000000, tok 2]) = [tok_used 1 540000000000, tok 2] \<and>
   survives NewConcurrencyManager True False 600000000000 (tok 2) \<and>
   LastUsedAt (tok 2) = None \<and>
   time_Sub 600000000000 540000000000 \<le> 60000000000000 \<and>
   token_score 600000000000 (tok 2) = 1010 \<and>
   SelectToken (db_of [tok_used 1 540000000000, tok 2]) NewConcurrencyManager True False ''m''
     600000000000 = Some (tok 2)"
proof -
  have act1: "GetActiveTokens (db_of [tok_used 1 540000000000, tok_used 2 0])
      = [tok_used 1 540000000000, tok_used 2 0]"
    by (simp add: GetActiveTokens_def db_of_def tok_used_def tok_def GetToken_def)
  have act2: "GetActiveTokens (db_of [tok_used 1 540000000000, tok 2]) = [tok_used 1 540000000000, tok 2]"
    by (simp add: GetActiveTokens_def db_of_def tok_used_def tok_def GetToken_def)
  have sv1: "survives NewConcurrencyManager True False 600000000000 (tok_used 2 0)"
    by (simp add: survives_def tok_used_def tok_def at_expired_def word_sless_alt)
  have sv2: "survives NewConcurrencyManager True False 600000000000 (tok 2)"
    by (simp add: survives_def tok_def at_expired_def word_sless_alt)
  have cr: "Credits (tok_used 2 0) = Credits (tok_used 1 540000000000)"
    "Credits (tok 2) = Credits (tok_used 1 540000000000)"
    "LastUsedAt (tok_used 2 0) = Some 0" "LastUsedAt (tok_used 1 540000000000) = Some 540000000000"
    "LastUsedAt (tok 2) = None"
    "0 \<le>s Credits (tok_used 2 0)" "0 \<le>s Credits (tok 2)"
    by (simp_all add: tok_used_def tok_def word_sle_eq)
  have el: "time_Sub 600000000000 540000000000 \<le> time_Sub 600000000000 0"
    "time_Sub 600000000000 540000000000 \<le> 60000000000000"
    by (simp_all add: time_Sub_def)
  note sc = score_example_1 score_example_2 score_example_3
  have r1: "SelectToken (db_of [tok_used 1 540000000000, tok_used 2 0]) NewConcurrencyManager True False ''m''
     600000000000 = Some (tok_used 2 0)"
    using select_prefers_best_score
      [of "db_of [tok_used 1 540000000000, tok_used 2 0]" NewConcurrencyManager True False "''m''"
          600000000000 "tok_used 2 0" "tok_used 2 0" "tok_used 1 540000000000" 540000000000]
      act1 sv1 cr el sc
    by simp
  have r2: "SelectToken (db_of [tok_used 1 540000000000, tok 2]) NewConcurrencyManager True False ''m''
     600000000000 = Some (tok 2)"
    using select_prefers_best_score
      [of "db_of [tok_used 1 540000000000, tok 2]" NewConcurrencyManager True False "''m''"
          600000000000 "tok 2" "tok 2" "tok_used 1 540000000000" 540000000000]
      act2 sv2 cr el sc
    by simp
  show ?thesis using act1 act2 sv1 sv2 cr el sc r1 r2 by simp
qed

theorem select_float_tie:
  "GetActiveTokens (db_of [tok_rich 1 1, tok_rich 2 0]) = [tok_rich 1 1, tok_rich 2 0] \<and>
   survives NewConcurrencyManager True False 600000000001 (tok_rich 1 1) \<and>
   survives NewConcurrencyManager True False 600000000001 (tok_rich 2 0) \<and>
   Credits (tok_rich 1 1) = Credits (tok_rich 2 0) \<and>
   LastUsedAt (tok_rich 1 1) = Some 1 \<and>
   LastUsedAt (tok_rich 2 0) = Some 0 \<and>
   time_Sub 600000000001 1 = 600000000000 \<and>
   time_Sub 600000000001 0 = 600000000001 \<and>
   token_score 600000000001 (tok_rich 1 1) = 300010 \<and>
   token_score 600000000001 (tok_rich 2 0) = 300010 \<and>
   SelectToken (db_of [tok_rich 1 1, tok_rich 2 0]) NewConcurrencyManager True False ''m'' 600000000001
     = Some (tok_rich 1 1)"
proof -
  have act: "GetActiveTokens (db_of [tok_rich 1 1, tok_rich 2 0]) = [tok_rich 1 1, tok_rich 2 0]"
    by (simp add: GetActiveTokens_def db_of_def tok_rich_def tok_def GetToken_def)
  have sv: "survives NewConcurrencyManager True False 600000000001 (tok_rich 1 1)"
    "survives NewConcurrencyManager True False 600000000001 (tok_rich 2 0)"
    by (simp_all add: survives_def tok_rich_def tok_def at_expired_def word_sless_alt)
  have sel: "SelectToken (db_of [tok_rich 1 1, tok_rich 2 0]) NewConcurrencyManager True False ''m''
      600000000001 = Some (tok_rich 1 1)"
    using sv by (simp add: SelectToken_def act select_loop_Cons score_rich_1 score_rich_2
        del: select_loop.simps(2))
  show ?thesis
    using act sv sel score_rich_1 score_rich_2 by (simp add: tok_rich_def tok_def time_Sub_def)
qed

section \<open>Properties of the credential pool\<close>

subsection \<open>Reading back what the store operations wrote\<close>

lemma find_map_same_ID:
  assumes "\<And>t. ID (f t) = ID t"
  shows "find (\<lambda>t. ID t = i) (map f ts) = map_option f (find (\<lambda>t. ID t = i) ts)"
  using assms by (induction ts) simp_all

lemma ID_foldl_apply_update [simp]: "ID (foldl apply_update t ups) = ID t"
proof (induction ups arbitrary: t)
  case Nil
  show ?case by simp
next
  case (Cons u ups)
  have "ID (apply_update t u) = ID t" by (cases u) simp_all
  then show ?case using Cons.IH [of "apply_update t u"] by simp
qed

lemma GetToken_UpdateToken:
  "GetToken (UpdateToken d i ups) j =
     (case GetToken d j of
        Inl e \<Rightarrow> Inl e
      | Inr t \<Rightarrow> Inr (if j = i then foldl apply_update t ups else t))"
proof (cases "ups = []")
  case True
  then show ?thesis by (simp add: UpdateToken_def split: sum.splits)
next
  case False
  have "find (\<lambda>t. ID t = j) (map (\<lambda>t. if ID t = i then foldl apply_update t ups else t) (tokens_tbl d))
      = map_option (\<lambda>t. if ID t = i then foldl apply_update t ups else t) (find (\<lambda>t. ID t = j) (tokens_tbl d))"
    by (rule find_map_same_ID) simp
  then show ?thesis
    using False by (auto simp: UpdateToken_def GetToken_def split: option.splits dest: find_Some_iff [THEN iffD1])
qed

lemma UpdateToken_frame [simp]:
  "token_stats_tbl (UpdateToken d i ups) = token_stats_tbl d"
  "admin_config_tbl (UpdateToken d i ups) = admin_config_tbl d"
  "projects_tbl (UpdateToken d i ups) = projects_tbl d"
  "tasks_tbl (UpdateToken d i ups) = tasks_tbl d"
  by (simp_all add: UpdateToken_def)

lemma update_stats_frame [simp]:
  "tokens_tbl (update_stats d i f) = tokens_tbl d"
  "admin_config_tbl (update_stats d i f) = admin_config_tbl d"
  "projects_tbl (update_stats d i f) = projects_tbl d"
  "tasks_tbl (update_stats d i f) = tasks_tbl d"
  by (simp_all add: update_stats_def split: option.splits)

lemma token_stats_update_stats:
  "token_stats_tbl (update_stats d i f) j =
     (if j = i then map_option f (token_stats_tbl d i) else token_stats_tbl d j)"
  by (simp add: update_stats_def split: option.splits)

lemma GetToken_update_stats [simp]: "GetToken (update_stats d i f) j = GetToken d j"
  by (simp add: GetToken_def)

lemma GetTokenStats_UpdateToken [simp]: "GetTokenStats (UpdateToken d i ups) j = GetTokenStats d j"
  by (simp add: GetTokenStats_def)

lemma GetAdminConfig_frame [simp]:
  "GetAdminConfig (update_stats d i f) = GetAdminConfig d"
  "GetAdminConfig (UpdateToken d i ups) = GetAdminConfig d"
  by (simp_all add: GetAdminConfig_def)

lemma ConsecutiveErrorCount_reset_today [simp]:
  "ConsecutiveErrorCount (reset_today today s) = ConsecutiveErrorCount s"
  by (simp add: reset_today_def)

lemma IncrementTokenStats_error:
  "fst (IncrementTokenStats d i ''error'' now today) = None"
  "tokens_tbl (snd (IncrementTokenStats d i ''error'' now today)) = tokens_tbl d"
  "admin_config_tbl (snd (IncrementTokenStats d i ''error'' now today)) = admin_config_tbl d"
  "token_stats_tbl d i = Some s \<Longrightarrow>
     ConsecutiveErrorCount (GetTokenStats (snd (IncrementTokenStats d i ''error'' now today)) i)
       = ConsecutiveErrorCount s + 1"
  "token_stats_tbl d i = Some s \<Longrightarrow>
     token_stats_tbl (snd (IncrementTokenStats d i ''error'' now today)) i \<noteq> None"
  by (simp_all add: IncrementTokenStats_def Let_def GetTokenStats_def token_stats_update_stats)

subsection \<open>Error accounting\<close>

lemma RecordError_step:
  assumes row: "token_stats_tbl d i = Some s" and cfg: "admin_config_tbl d = Some c"
  shows "fst (RecordError d i now today) = None"
    and "ConsecutiveErrorCount (GetTokenStats (snd (RecordError d i now today)) i)
           = ConsecutiveErrorCount s + 1"
    and "token_stats_tbl (snd (RecordError d i now today)) i \<noteq> None"
    and "admin_config_tbl (snd (RecordError d i now today)) = Some c"
    and "ConsecutiveErrorCount s + 1 < ErrorBanThreshold c \<Longrightarrow>
           tokens_tbl (snd (RecordError d i now today)) = tokens_tbl d"
    and "ErrorBanThreshold c \<le> ConsecutiveErrorCount s + 1 \<Longrightarrow>
           snd (RecordError d i now today)
             = DisableToken (snd (IncrementTokenStats d i ''error'' now today)) i"
proof -
  obtain d1 where inc: "IncrementTokenStats d i ''error'' now today = (None, d1)"
    using IncrementTokenStats_error(1) [of d i now today]
    by (cases "IncrementTokenStats d i ''error'' now today") simp
  have d1: "tokens_tbl d1 = tokens_tbl d" "admin_config_tbl d1 = Some c"
    "ConsecutiveErrorCount (GetTokenStats d1 i) = ConsecutiveErrorCount s + 1"
    "token_stats_tbl d1 i \<noteq> None"
    using IncrementTokenStats_error(2,3) [of d i now today]
      IncrementTokenStats_error(4,5) [OF row, of now today] cfg inc
    by simp_all
  have re: "RecordError d i now today =
      (if ErrorBanThreshold c \<le> ConsecutiveErrorCount s + 1 then (None, DisableToken d1 i) else (None, d1))"
    using inc d1 by (simp add: RecordError_def GetAdminConfig_def)
  show "fst (RecordError d i now today) = None" by (simp add: re)
  show "ConsecutiveErrorCount (GetTokenStats (snd (RecordError d i now today)) i)
           = ConsecutiveErrorCount s + 1"
    using d1 by (simp add: re DisableToken_def)
  show "token_stats_tbl (snd (RecordError d i now today)) i \<noteq> None"
    using d1 by (simp add: re DisableToken_def)
  show "admin_config_tbl (snd (RecordError d i now today)) = Some c"
    using d1 by (simp add: re DisableToken_def)
  show "ConsecutiveErrorCount s + 1 < ErrorBanThreshold c \<Longrightarrow>
           tokens_tbl (snd (RecordError d i now today)) = tokens_tbl d"
    using d1 by (simp add: re)
  show "ErrorBanThreshold c \<le> ConsecutiveErrorCount s + 1 \<Longrightarrow>
           snd (RecordError d i now today)
             = DisableToken (snd (IncrementTokenStats d i ''error'' now today)) i"
    using inc by (simp add: re)
qed

lemma recordErrors_below_threshold:
  "token_stats_tbl d i = Some s \<Longrightarrow> admin_config_tbl d = Some c \<Longrightarrow>
   ConsecutiveErrorCount s + int (length clock) < ErrorBanThreshold c \<Longrightarrow>
   tokens_tbl (recordErrors d i clock) = tokens_tbl d \<and>
   admin_config_tbl (recordErrors d i clock) = Some c \<and>
   token_stats_tbl (recordErrors d i clock) i \<noteq> None \<and>
   ConsecutiveErrorCount (GetTokenStats (recordErrors d i clock) i)
     = ConsecutiveErrorCount s + int (length clock)"
proof (induction clock arbitrary: d s)
  case Nil
  then show ?case by (simp add: GetTokenStats_def)
next
  case (Cons r clock)
  obtain now today where r: "r = (now, today)" by (cases r)
  let ?d = "snd (RecordError d i now today)"
  note st = RecordError_step [OF Cons.prems(1,2), of now today]
  obtain s' where s': "token_stats_tbl ?d i = Some s'" using st(3) by blast
  have cnt: "ConsecutiveErrorCount s' = ConsecutiveErrorCount s + 1"
    using st(2) s' by (simp add: GetTokenStats_def)
  have tk: "tokens_tbl ?d = tokens_tbl d"
    using Cons.prems(3) by (intro st(5)) simp
  have "tokens_tbl (recordErrors ?d i clock) = tokens_tbl ?d \<and>
        admin_config_tbl (recordErrors ?d i clock) = Some c \<and>
        token_stats_tbl (recordErrors ?d i clock) i \<noteq> None \<and>
        ConsecutiveErrorCount (GetTokenStats (recordErrors ?d i clock) i)
          = ConsecutiveErrorCount s' + int (length clock)"
    using Cons.prems(3) cnt by (intro Cons.IH [OF s' st(4)]) simp
  then show ?case using r tk cnt by simp
qed

lemma GetToken_tokens_tbl:
  "tokens_tbl d' = tokens_tbl d \<Longrightarrow> GetToken d' j = GetToken d j"
  by (simp add: GetToken_def)

lemma recordErrors_append:
  "recordErrors d i (clock @ [(now, today)]) = snd (RecordError (recordErrors d i clock) i now today)"
  by (induction clock arbitrary: d) auto

lemma RecordError_disables:
  assumes row: "token_stats_tbl d i = Some s" and cfg: "admin_config_tbl d = Some c"
    and reach: "ErrorBanThreshold c \<le> ConsecutiveErrorCount s + 1"
    and tok: "GetToken d i = Inr t"
  shows "GetToken (snd (RecordError d i now today)) i = Inr (t\<lparr>IsActive := False\<rparr>)"
proof -
  let ?d1 = "snd (IncrementTokenStats d i ''error'' now today)"
  have "GetToken ?d1 i = Inr t"
    using tok GetToken_tokens_tbl [OF IncrementTokenStats_error(2) [of d i now today], of i] by simp
  then show ?thesis
    using RecordError_step(6) [OF row cfg reach, of now today]
    by (simp add: DisableToken_def GetToken_UpdateToken)
qed

lemma RecordSuccess_resets:
  "ConsecutiveErrorCount (GetTokenStats (RecordSuccess d i) i) = 0"
  "tokens_tbl (RecordSuccess d i) = tokens_tbl d"
  "admin_config_tbl (RecordSuccess d i) = admin_config_tbl d"
  "token_stats_tbl d i = Some s \<Longrightarrow>
     token_stats_tbl (RecordSuccess d i) i = Some (s\<lparr>ConsecutiveErrorCount := 0\<rparr>)"
  by (simp_all add: RecordSuccess_def ResetErrorCount_def GetTokenStats_def token_stats_update_stats
      empty_stats_def split: option.splits)

text \<open>
  C6. For a credential with a statistics row (\<open>AddToken\<close> inserts one) and with the admin
  configuration present, each \<open>RecordError\<close> adds one to the consecutive-error count; when
  the new count has reached the threshold the credential is made inactive and nothing else
  of its row changes (no ban reason, no ban time); below the threshold the token table is
  untouched. \<open>RecordSuccess\<close> sets the count to 0, and after it fewer errors than the
  threshold leave the credential as it was, while the error that completes a run of
  threshold many disables it.
\<close>

theorem record_error_circuit_breaker:
  "token_stats_tbl d i = Some s \<and> admin_config_tbl d = Some c \<longrightarrow>
     fst (RecordError d i now today) = None \<and>
     ConsecutiveErrorCount (GetTokenStats (snd (RecordError d i now today)) i)
       = ConsecutiveErrorCount s + 1 \<and>
     (ErrorBanThreshold c \<le> ConsecutiveErrorCount s + 1 \<longrightarrow>
        (\<forall>t. GetToken d i = Inr t \<longrightarrow>
           GetToken (snd (RecordError d i now today)) i = Inr (t\<lparr>IsActive := False\<rparr>))) \<and>
     (ConsecutiveErrorCount s + 1 < ErrorBanThreshold c \<longrightarrow>
        tokens_tbl (snd (RecordError d i now today)) = tokens_tbl d) \<and>
     ConsecutiveErrorCount (GetTokenStats (RecordSuccess d i) i) = 0 \<and>
     tokens_tbl (RecordSuccess d i) = tokens_tbl d \<and>
     (int (length clock) < ErrorBanThreshold c \<longrightarrow>
        tokens_tbl (recordErrors (RecordSuccess d i) i clock) = tokens_tbl d \<and>
        ConsecutiveErrorCount (GetTokenStats (recordErrors (RecordSuccess d i) i clock) i)
          = int (length clock)) \<and>
     (int (length clock) + 1 = ErrorBanThreshold c \<longrightarrow>
        (\<forall>t. GetToken d i = Inr t \<longrightarrow>
           GetToken (recordErrors (RecordSuccess d i) i (clock @ [(now, today)])) i
             = Inr (t\<lparr>IsActive := False\<rparr>)))"
proof (intro impI)
  assume h: "token_stats_tbl d i = Some s \<and> admin_config_tbl d = Some c"
  then have row: "token_stats_tbl d i = Some s" and cfg: "admin_config_tbl d = Some c" by simp_all
  note st = RecordError_step [OF row cfg, of now today]
  let ?d0 = "RecordSuccess d i"
  have row0: "token_stats_tbl ?d0 i = Some (s\<lparr>ConsecutiveErrorCount := 0\<rparr>)"
    by (rule RecordSuccess_resets(4) [OF row])
  have cfg0: "admin_config_tbl ?d0 = Some c"
    using cfg by (simp add: RecordSuccess_resets(3))
  have below: "tokens_tbl (recordErrors ?d0 i clock) = tokens_tbl d \<and>
        ConsecutiveErrorCount (GetTokenStats (recordErrors ?d0 i clock) i) = int (length clock)"
    if "int (length clock) < ErrorBanThreshold c"
    using recordErrors_below_threshold [OF row0 cfg0, of clock] that
    by (simp add: RecordSuccess_resets(2))
  have last: "GetToken (recordErrors ?d0 i (clock @ [(now, today)])) i = Inr (t\<lparr>IsActive := False\<rparr>)"
    if len: "int (length clock) + 1 = ErrorBanThreshold c" and tok: "GetToken d i = Inr t" for t
  proof -
    let ?d1 = "recordErrors ?d0 i clock"
    have run: "tokens_tbl ?d1 = tokens_tbl ?d0 \<and> admin_config_tbl ?d1 = Some c \<and>
        token_stats_tbl ?d1 i \<noteq> None \<and>
        ConsecutiveErrorCount (GetTokenStats ?d1 i) = 0 + int (length clock)"
      using recordErrors_below_threshold [OF row0 cfg0, of clock] len by simp
    then obtain s1 where s1: "token_stats_tbl ?d1 i = Some s1" by blast
    have c1: "ConsecutiveErrorCount s1 = int (length clock)"
      using run s1 by (simp add: GetTokenStats_def)
    have "tokens_tbl ?d1 = tokens_tbl d"
      using run by (simp add: RecordSuccess_resets(2))
    then have t1: "GetToken ?d1 i = Inr t"
      using tok GetToken_tokens_tbl [of ?d1 d i] by simp
    have cfg1: "admin_config_tbl ?d1 = Some c" using run by blast
    have reach: "ErrorBanThreshold c \<le> ConsecutiveErrorCount s1 + 1" using len c1 by simp
    have "GetToken (snd (RecordError ?d1 i now today)) i = Inr (t\<lparr>IsActive := False\<rparr>)"
      by (rule RecordError_disables [OF s1 cfg1 reach t1])
    then show ?thesis by (simp add: recordErrors_append)
  qed
  show "fst (RecordError d i now today) = None \<and>
     ConsecutiveErrorCount (GetTokenStats (snd (RecordError d i now today)) i)
       = ConsecutiveErrorCount s + 1 \<and>
     (ErrorBanThreshold c \<le> ConsecutiveErrorCount s + 1 \<longrightarrow>
        (\<forall>t. GetToken d i = Inr t \<longrightarrow>
           GetToken (snd (RecordError d i now today)) i = Inr (t\<lparr>IsActive := False\<rparr>))) \<and>
     (ConsecutiveErrorCount s + 1 < ErrorBanThreshold c \<longrightarrow>
        tokens_tbl (snd (RecordError d i now today)) = tokens_tbl d) \<and>
     ConsecutiveErrorCount (GetTokenStats (RecordSuccess d i) i) = 0 \<and>
     tokens_tbl (RecordSuccess d i) = tokens_tbl d \<and>
     (int (length clock) < ErrorBanThreshold c \<longrightarrow>
        tokens_tbl (recordErrors (RecordSuccess d i) i clock) = tokens_tbl d \<and>
        ConsecutiveErrorCount (GetTokenStats (recordErrors (RecordSuccess d i) i clock) i)
          = int (length clock)) \<and>
     (int (length clock) + 1 = ErrorBanThreshold c \<longrightarrow>
        (\<forall>t. GetToken d i = Inr t \<longrightarrow>
           GetToken (recordErrors (RecordSuccess d i) i (clock @ [(now, today)])) i
             = Inr (t\<lparr>IsActive := False\<rparr>)))"
  proof (intro conjI impI allI)
    show "fst (RecordError d i now today) = None" by (rule st(1))
    show "ConsecutiveErrorCount (GetTokenStats (snd (RecordError d i now today)) i)
       = ConsecutiveErrorCount s + 1" by (rule st(2))
    show "GetToken (snd (RecordError d i now today)) i = Inr (t\<lparr>IsActive := False\<rparr>)"
      if "ErrorBanThreshold c \<le> ConsecutiveErrorCount s + 1" "GetToken d i = Inr t" for t
      using that by (rule RecordError_disables [OF row cfg])
    show "tokens_tbl (snd (RecordError d i now today)) = tokens_tbl d"
      if "ConsecutiveErrorCount s + 1 < ErrorBanThreshold c"
      using that by (rule st(5))
    show "ConsecutiveErrorCount (GetTokenStats (RecordSuccess d i) i) = 0"
      by (rule RecordSuccess_resets(1))
    show "tokens_tbl (RecordSuccess d i) = tokens_tbl d"
      by (rule RecordSuccess_resets(2))
    show "tokens_tbl (recordErrors (RecordSuccess d i) i clock) = tokens_tbl d"
      if "int (length clock) < ErrorBanThreshold c"
      using below [OF that] by simp
    show "ConsecutiveErrorCount (GetTokenStats (recordErrors (RecordSuccess d i) i clock) i)
          = int (length clock)"
      if "int (length clock) < ErrorBanThreshold c"
      using below [OF that] by simp
    show "GetToken (recordErrors (RecordSuccess d i) i (clock @ [(now, today)])) i
             = Inr (t\<lparr>IsActive := False\<rparr>)"
      if "int (length clock) + 1 = ErrorBanThreshold c" "GetToken d i = Inr t" for t
      using that by (rule last)
  qed
qed

theorem record_error_circuit_breaker_witness:
  "token_stats_tbl (db_of [tok 1]) 1 = Some empty_stats \<and>
   admin_config_tbl (db_of [tok 1]) = Some admin_example \<and>
   GetToken (db_of [tok 1]) 1 = Inr (tok 1) \<and>
   ConsecutiveErrorCount empty_stats + 1 < ErrorBanThreshold admin_example \<and>
   int (length clock_example) < ErrorBanThreshold admin_example \<and>
   int (length clock_example) + 1 = ErrorBanThreshold admin_example \<and>
   ConsecutiveErrorCount (GetTokenStats (snd (RecordError (db_of [tok 1]) 1 5 ''2026-01-01'')) 1) = 1 \<and>
   tokens_tbl (snd (RecordError (db_of [tok 1]) 1 5 ''2026-01-01'')) = [tok 1] \<and>
   tokens_tbl (recordErrors (RecordSuccess (db_of [tok 1]) 1) 1 clock_example) = [tok 1] \<and>
   GetToken (recordErrors (RecordSuccess (db_of [tok 1]) 1) 1 (clock_example @ [(5, ''2026-01-01'')])) 1
     = Inr ((tok 1)\<lparr>IsActive := False\<rparr>)"
proof -
  have h: "token_stats_tbl (db_of [tok 1]) 1 = Some empty_stats"
    "admin_config_tbl (db_of [tok 1]) = Some admin_example"
    "GetToken (db_of [tok 1]) 1 = Inr (tok 1)"
    "tokens_tbl (db_of [tok 1]) = [tok 1]"
    by (simp_all add: db_of_def tok_def admin_example_def GetToken_def)
  have n: "ConsecutiveErrorCount empty_stats + 1 < ErrorBanThreshold admin_example"
    "int (length clock_example) < ErrorBanThreshold admin_example"
    "int (length clock_example) + 1 = ErrorBanThreshold admin_example"
    "ConsecutiveErrorCount empty_stats = 0"
    by (simp_all add: empty_stats_def admin_example_def clock_example_def)
  show ?thesis
    using h n
      record_error_circuit_breaker
        [of "db_of [tok 1]" 1 empty_stats admin_example 5 "''2026-01-01''" clock_example]
    by simp
qed

subsection \<open>The sweep that lifts rate-limit bans\<close>

lemma time_Sub_ge_iff:
  "d \<le> 9223372036854775807 \<Longrightarrow> - 9223372036854775808 < d \<Longrightarrow> (d \<le> time_Sub t u) = (d \<le> t - u)"
  by (auto simp: time_Sub_def)

lemma time_Sub_less_iff:
  "d \<le> 9223372036854775807 \<Longrightarrow> - 9223372036854775808 < d \<Longrightarrow> (time_Sub t u < d) = (t - u < d)"
  by (auto simp: time_Sub_def)

lemma unban_token_eq:
  "unban_token now d t =
     (if unban_due now t
      then ResetErrorCount
             (UpdateToken d (ID t) [Set_is_active True, Set_ban_reason None, Set_banned_at None]) (ID t)
      else d)"
  by (auto simp: unban_token_def unban_due_def at_expired_def time_Before_def Hour_def
      time_Sub_ge_iff split: option.splits)

lemma GetToken_ResetErrorCount [simp]: "GetToken (ResetErrorCount d j) i = GetToken d i"
  by (simp add: ResetErrorCount_def)

lemma GetTokenStats_ResetErrorCount:
  "GetTokenStats (ResetErrorCount d j) i =
     (if i = j then (GetTokenStats d i)\<lparr>ConsecutiveErrorCount := 0\<rparr> else GetTokenStats d i)"
  by (simp add: ResetErrorCount_def GetTokenStats_def token_stats_update_stats empty_stats_def
      split: option.splits)

lemma GetToken_unban_token:
  "GetToken (unban_token now d t) i =
     (case GetToken d i of
        Inl e \<Rightarrow> Inl e
      | Inr x \<Rightarrow> Inr (if unban_due now t \<and> ID t = i then unbanned x else x))"
  by (auto simp: unban_token_eq GetToken_UpdateToken unbanned_def split: sum.splits)

lemma GetTokenStats_unban_token:
  "GetTokenStats (unban_token now d t) i =
     (if unban_due now t \<and> ID t = i then (GetTokenStats d i)\<lparr>ConsecutiveErrorCount := 0\<rparr>
      else GetTokenStats d i)"
  by (auto simp: unban_token_eq GetTokenStats_ResetErrorCount)

lemma unbanned_idem [simp]: "unbanned (unbanned x) = unbanned x"
  by (simp add: unbanned_def)

lemma GetToken_foldl_unban:
  "GetToken (foldl (unban_token now) d ts) i =
     (case GetToken d i of
        Inl e \<Rightarrow> Inl e
      | Inr x \<Rightarrow> Inr (if \<exists>t \<in> set ts. unban_due now t \<and> ID t = i then unbanned x else x))"
proof (induction ts arbitrary: d)
  case Nil
  show ?case by (simp split: sum.splits)
next
  case (Cons t ts)
  show ?case
    by (simp add: Cons.IH GetToken_unban_token split: sum.splits) auto
qed

lemma GetTokenStats_foldl_unban:
  "GetTokenStats (foldl (unban_token now) d ts) i =
     (if \<exists>t \<in> set ts. unban_due now t \<and> ID t = i
      then (GetTokenStats d i)\<lparr>ConsecutiveErrorCount := 0\<rparr>
      else GetTokenStats d i)"
proof (induction ts arbitrary: d)
  case Nil
  show ?case by simp
next
  case (Cons t ts)
  show ?case
    by (simp add: Cons.IH GetTokenStats_unban_token) auto
qed

lemma GetToken_Inr_ID: "GetToken d j = Inr t \<Longrightarrow> ID t = j \<and> t \<in> set (tokens_tbl d)"
  by (auto simp: GetToken_def find_Some_iff split: option.splits)

lemma GetToken_found: "j \<in> set (map ID (tokens_tbl d)) \<Longrightarrow> \<exists>t. GetToken d j = Inr t"
  by (cases "find (\<lambda>t. ID t = j) (tokens_tbl d)") (auto simp: GetToken_def find_None_iff)

lemma set_fetch_tokens: "set (fetch_tokens d ids) = {t. \<exists>j \<in> set ids. GetToken d j = Inr t}"
  by (induction ids) (auto split: sum.splits)

lemma GetAllTokens_due_iff:
  assumes "GetToken d i = Inr x"
  shows "(\<exists>t \<in> set (GetAllTokens d). unban_due now t \<and> ID t = i) = unban_due now x"
proof
  assume "\<exists>t \<in> set (GetAllTokens d). unban_due now t \<and> ID t = i"
  then obtain t j where t: "GetToken d j = Inr t" "unban_due now t" "ID t = i"
    by (auto simp: GetAllTokens_def set_fetch_tokens)
  then have "j = i" using GetToken_Inr_ID [of d j t] by simp
  then show "unban_due now x" using t assms by simp
next
  assume due: "unban_due now x"
  have "i \<in> set (map ID (tokens_tbl d))" using GetToken_Inr_ID [OF assms] by auto
  then have "x \<in> set (GetAllTokens d)"
    using assms by (auto simp: GetAllTokens_def set_fetch_tokens)
  then show "\<exists>t \<in> set (GetAllTokens d). unban_due now t \<and> ID t = i"
    using due GetToken_Inr_ID [OF assms] by blast
qed

text \<open>
  C8. After the sweep every credential reads back as before, except those that were
  inactive with the rate-limit ban reason, a recorded ban time at least twelve hours old
  and no known expiry of the access token before now: these are active, with the ban
  reason and the ban time cleared, and their consecutive-error count reads 0. A credential
  banned less than twelve hours before stays as it was, and so one banned by
  \<open>BanTokenFor429\<close> is reactivated by the sweep exactly when twelve hours have passed
  and its access token has not expired.
\<close>

theorem auto_unban_reactivates_due:
  "GetToken (AutoUnban429Tokens d now) i =
     (case GetToken d i of
        Inl e \<Rightarrow> Inl e
      | Inr t \<Rightarrow>
          Inr (if unban_due now t then t\<lparr>IsActive := True, BanReason := [], BannedAt := None\<rparr> else t)) \<and>
   (GetToken d i = Inr t \<longrightarrow>
      GetTokenStats (AutoUnban429Tokens d now) i =
        (if unban_due now t then (GetTokenStats d i)\<lparr>ConsecutiveErrorCount := 0\<rparr>
         else GetTokenStats d i)) \<and>
   (GetToken d i = Inr t \<and> BannedAt t = Some b \<and> now - b < 12 * Hour \<longrightarrow>
      GetToken (AutoUnban429Tokens d now) i = Inr t) \<and>
   (GetToken d i = Inr t \<longrightarrow>
      GetToken (AutoUnban429Tokens (BanTokenFor429 d i b) now) i =
        Inr (if 12 * Hour \<le> now - b \<and> \<not> at_expired t now
             then t\<lparr>IsActive := True, BanReason := [], BannedAt := None\<rparr>
             else t\<lparr>IsActive := False, BanReason := ''429_rate_limit'', BannedAt := Some b\<rparr>))"
proof -
  have get: "GetToken (AutoUnban429Tokens d' now) j =
     (case GetToken d' j of
        Inl e \<Rightarrow> Inl e
      | Inr t \<Rightarrow> Inr (if unban_due now t then unbanned t else t))" for d' j
  proof (cases "GetToken d' j")
    case (Inl e)
    then show ?thesis by (simp add: AutoUnban429Tokens_def GetToken_foldl_unban)
  next
    case (Inr x)
    then show ?thesis
      using GetAllTokens_due_iff [OF Inr, of now]
      by (simp add: AutoUnban429Tokens_def GetToken_foldl_unban)
  qed
  have stats: "GetTokenStats (AutoUnban429Tokens d now) i =
        (if unban_due now t then (GetTokenStats d i)\<lparr>ConsecutiveErrorCount := 0\<rparr>
         else GetTokenStats d i)" if "GetToken d i = Inr t"
    using GetAllTokens_due_iff [OF that, of now]
    by (simp add: AutoUnban429Tokens_def GetTokenStats_foldl_unban)
  have early: "GetToken (AutoUnban429Tokens d now) i = Inr t"
    if "GetToken d i = Inr t \<and> BannedAt t = Some b \<and> now - b < 12 * Hour"
    using that by (simp add: get unban_due_def)
  have ban: "GetToken (BanTokenFor429 d i b) i =
      Inr (t\<lparr>IsActive := False, BanReason := ''429_rate_limit'', BannedAt := Some b\<rparr>)"
    if "GetToken d i = Inr t"
    using that by (simp add: BanTokenFor429_def GetToken_UpdateToken)
  have after: "GetToken (AutoUnban429Tokens (BanTokenFor429 d i b) now) i =
        Inr (if 12 * Hour \<le> now - b \<and> \<not> at_expired t now
             then t\<lparr>IsActive := True, BanReason := [], BannedAt := None\<rparr>
             else t\<lparr>IsActive := False, BanReason := ''429_rate_limit'', BannedAt := Some b\<rparr>)"
    if "GetToken d i = Inr t"
    using ban [OF that]
    by (simp add: get unban_due_def unbanned_def at_expired_def time_Before_def split: option.splits)
  show ?thesis
    using get [of d i, unfolded unbanned_def] stats early after by simp
qed

theorem auto_unban_reactivates_due_witness:
  "GetToken (db_of [tok_banned 1 0, tok_banned 2 Hour]) 1 = Inr (tok_banned 1 0) \<and>
   GetToken (db_of [tok_banned 1 0, tok_banned 2 Hour]) 2 = Inr (tok_banned 2 Hour) \<and>
   unban_due (12 * Hour) (tok_banned 1 0) \<and>
   BannedAt (tok_banned 2 Hour) = Some Hour \<and> 12 * Hour - Hour < 12 * Hour \<and>
   GetToken (AutoUnban429Tokens (db_of [tok_banned 1 0, tok_banned 2 Hour]) (12 * Hour)) 1 = Inr (tok 1) \<and>
   ConsecutiveErrorCount
     (GetTokenStats (AutoUnban429Tokens (db_of [tok_banned 1 0, tok_banned 2 Hour]) (12 * Hour)) 1) = 0 \<and>
   GetToken (AutoUnban429Tokens (db_of [tok_banned 1 0, tok_banned 2 Hour]) (12 * Hour)) 2
     = Inr (tok_banned 2 Hour) \<and>
   GetToken (db_of [tok 1]) 1 = Inr (tok 1) \<and>
   GetToken (AutoUnban429Tokens (BanTokenFor429 (db_of [tok 1]) 1 0) (11 * Hour)) 1 = Inr (tok_banned 1 0) \<and>
   GetToken (AutoUnban429Tokens (BanTokenFor429 (db_of [tok 1]) 1 0) (12 * Hour)) 1 = Inr (tok 1)"
proof -
  have g: "GetToken (db_of [tok_banned 1 0, tok_banned 2 Hour]) 1 = Inr (tok_banned 1 0)"
    "GetToken (db_of [tok_banned 1 0, tok_banned 2 Hour]) 2 = Inr (tok_banned 2 Hour)"
    "GetToken (db_of [tok 1]) 1 = Inr (tok 1)"
    by (simp_all add: db_of_def GetToken_def tok_banned_def tok_def)
  have due: "unban_due (12 * Hour) (tok_banned 1 0)"
    "BannedAt (tok_banned 2 Hour) = Some Hour" "12 * Hour - Hour < 12 * Hour"
    "\<not> at_expired (tok 1) (11 * Hour)" "\<not> at_expired (tok 1) (12 * Hour)"
    "\<not> 12 * Hour \<le> 11 * Hour - 0" "12 * Hour \<le> 12 * Hour - 0"
    by (simp_all add: unban_due_def tok_banned_def tok_def Hour_def at_expired_def)
  have shape: "(tok_banned 1 0)\<lparr>IsActive := True, BanReason := [], BannedAt := None\<rparr> = tok 1"
    "(tok 1)\<lparr>IsActive := False, BanReason := ''429_rate_limit'', BannedAt := Some 0\<rparr> = tok_banned 1 0"
    "(tok 1)\<lparr>IsActive := True, BanReason := [], BannedAt := None\<rparr> = tok 1"
    by (simp_all add: tok_banned_def tok_def)
  note thm1 = auto_unban_reactivates_due
      [of "db_of [tok_banned 1 0, tok_banned 2 Hour]" "12 * Hour" 1 "tok_banned 1 0" 0]
  note thm2 = auto_unban_reactivates_due
      [of "db_of [tok_banned 1 0, tok_banned 2 Hour]" "12 * Hour" 2 "tok_banned 2 Hour" Hour]
  note thm3 = auto_unban_reactivates_due [of "db_of [tok 1]" "11 * Hour" 1 "tok 1" 0]
  note thm4 = auto_unban_reactivates_due [of "db_of [tok 1]" "12 * Hour" 1 "tok 1" 0]
  have r1: "GetToken (AutoUnban429Tokens (db_of [tok_banned 1 0, tok_banned 2 Hour]) (12 * Hour)) 1
      = Inr (tok 1)"
    using thm1 [THEN conjunct1] g(1) due(1) shape(1) by simp
  have r2: "ConsecutiveErrorCount
     (GetTokenStats (AutoUnban429Tokens (db_of [tok_banned 1 0, tok_banned 2 Hour]) (12 * Hour)) 1) = 0"
    using thm1 [THEN conjunct2, THEN conjunct1] g(1) due(1) by simp
  have r3: "GetToken (AutoUnban429Tokens (db_of [tok_banned 1 0, tok_banned 2 Hour]) (12 * Hour)) 2
     = Inr (tok_banned 2 Hour)"
    using thm2 [THEN conjunct2, THEN conjunct2, THEN conjunct1] g(2) due(2,3) by blast
  have r4: "GetToken (AutoUnban429Tokens (BanTokenFor429 (db_of [tok 1]) 1 0) (11 * Hour)) 1
      = Inr (tok_banned 1 0)"
    using thm3 [THEN conjunct2, THEN conjunct2, THEN conjunct2] g(3) due(6) shape(2) by simp
  have r5: "GetToken (AutoUnban429Tokens (BanTokenFor429 (db_of [tok 1]) 1 0) (12 * Hour)) 1 = Inr (tok 1)"
    using thm4 [THEN conjunct2, THEN conjunct2, THEN conjunct2] g(3) due(5,7) shape(3) by simp
  show ?thesis
    using g due(1,2,3) r1 r2 r3 r4 r5 by blast
qed

subsection \<open>Freshness of the access token\<close>

lemma refreshATInternal_calls_exchange:
  assumes "GetToken (w_db w) i = Inr t"
  shows "\<exists>rest. w_calls (snd (refreshATInternal up w i)) = w_calls w @ Call_STToAT (ST t) # rest"
  using assms
  by (auto simp: refreshATInternal_def called_def Let_def split: sum.splits option.splits prod.splits)

lemma refreshATInternal_failure:
  assumes "GetToken (w_db w) i = Inr t" "STToAT up (ST t) = Inl err"
  shows "refreshATInternal up w i =
           ((False, Some err),
            w\<lparr>w_calls := w_calls w @ [Call_STToAT (ST t)], w_db := DisableToken (w_db w) i\<rparr>)"
    and "GetToken (w_db (snd (refreshATInternal up w i))) i = Inr (t\<lparr>IsActive := False\<rparr>)"
  using assms
  by (simp_all add: refreshATInternal_def called_def Let_def DisableToken_def GetToken_UpdateToken)

lemma refreshATInternal_success:
  assumes "GetToken (w_db w) i = Inr t" "STToAT up (ST t) = Inr (newAT, newExp)"
  shows "fst (refreshATInternal up w i) = (True, None)"
    and "\<exists>t'. GetToken (w_db (snd (refreshATInternal up w i))) i = Inr t' \<and> AT t' = newAT \<and>
           ATExpires t' = (case newExp of None \<Rightarrow> ATExpires t | Some e \<Rightarrow> Some e) \<and>
           IsActive t' = IsActive t"
  using assms
  by (auto simp: refreshATInternal_def called_def Let_def GetToken_UpdateToken
      split: sum.splits option.splits)

lemma IsATValid_fresh:
  assumes "GetToken (w_db w) i = Inr t" "AT t \<noteq> []" "ATExpires t = Some e" "Hour \<le> e - now"
  shows "IsATValid up now w i = ((True, None), w)"
  using assms by (simp add: IsATValid_def time_Sub_less_iff Hour_def)

lemma IsATValid_stale:
  assumes "GetToken (w_db w) i = Inr t"
    and "AT t = [] \<or> ATExpires t = None \<or> (\<exists>e. ATExpires t = Some e \<and> e - now < Hour)"
  shows "IsATValid up now w i = refreshATInternal up w i"
  using assms by (auto simp: IsATValid_def time_Sub_less_iff Hour_def split: option.splits)

text \<open>
  C7. For a stored credential, \<open>IsATValid\<close> returns true and leaves everything as it
  was, making no upstream call, when the access token is present and expires an hour or
  more from now. When the access token is absent, its expiry unknown, or the expiry less
  than an hour away, the next recorded call is the exchange for the credential's session
  token; if the exchange fails the result is false with the error of the exchange and
  the credential is inactive with the rest of its row, the ban reason included,
  untouched; if it succeeds the result is true and the credential carries the new access
  token, and the new expiry when one was given.
\<close>

theorem ensure_fresh_secret:
  "GetToken (w_db w) i = Inr t \<longrightarrow>
     (AT t \<noteq> [] \<and> (\<exists>e. ATExpires t = Some e \<and> Hour < e - now) \<longrightarrow>
        IsATValid up now w i = ((True, None), w)) \<and>
     (AT t = [] \<or> ATExpires t = None \<or> (\<exists>e. ATExpires t = Some e \<and> e - now < Hour) \<longrightarrow>
        (\<exists>rest. w_calls (snd (IsATValid up now w i)) = w_calls w @ Call_STToAT (ST t) # rest) \<and>
        (\<forall>err. STToAT up (ST t) = Inl err \<longrightarrow>
           IsATValid up now w i =
             ((False, Some err),
              w\<lparr>w_calls := w_calls w @ [Call_STToAT (ST t)], w_db := DisableToken (w_db w) i\<rparr>) \<and>
           GetToken (w_db (snd (IsATValid up now w i))) i = Inr (t\<lparr>IsActive := False\<rparr>)) \<and>
        (\<forall>newAT newExp. STToAT up (ST t) = Inr (newAT, newExp) \<longrightarrow>
           fst (IsATValid up now w i) = (True, None) \<and>
           (\<exists>t'. GetToken (w_db (snd (IsATValid up now w i))) i = Inr t' \<and> AT t' = newAT \<and>
              ATExpires t' = (case newExp of None \<Rightarrow> ATExpires t | Some e \<Rightarrow> Some e) \<and>
              IsActive t' = IsActive t)))"
proof (intro impI conjI allI)
  assume tok: "GetToken (w_db w) i = Inr t"
  { assume "AT t \<noteq> [] \<and> (\<exists>e. ATExpires t = Some e \<and> Hour < e - now)"
    then obtain e where "AT t \<noteq> []" "ATExpires t = Some e" "Hour \<le> e - now" by auto
    then show "IsATValid up now w i = ((True, None), w)"
      by (rule IsATValid_fresh [OF tok]) }
  assume stale: "AT t = [] \<or> ATExpires t = None \<or> (\<exists>e. ATExpires t = Some e \<and> e - now < Hour)"
  note eq = IsATValid_stale [OF tok stale, of up]
  show "\<exists>rest. w_calls (snd (IsATValid up now w i)) = w_calls w @ Call_STToAT (ST t) # rest"
    unfolding eq by (rule refreshATInternal_calls_exchange [OF tok])
  { fix err assume f: "STToAT up (ST t) = Inl err"
    show "IsATValid up now w i =
             ((False, Some err),
              w\<lparr>w_calls := w_calls w @ [Call_STToAT (ST t)], w_db := DisableToken (w_db w) i\<rparr>)"
      unfolding eq by (rule refreshATInternal_failure(1) [OF tok f])
    show "GetToken (w_db (snd (IsATValid up now w i))) i = Inr (t\<lparr>IsActive := False\<rparr>)"
      unfolding eq by (rule refreshATInternal_failure(2) [OF tok f]) }
  { fix newAT newExp assume s: "STToAT up (ST t) = Inr (newAT, newExp)"
    show "fst (IsATValid up now w i) = (True, None)"
      unfolding eq by (rule refreshATInternal_success(1) [OF tok s])
    show "\<exists>t'. GetToken (w_db (snd (IsATValid up now w i))) i = Inr t' \<and> AT t' = newAT \<and>
              ATExpires t' = (case newExp of None \<Rightarrow> ATExpires t | Some e \<Rightarrow> Some e) \<and>
              IsActive t' = IsActive t"
      unfolding eq by (rule refreshATInternal_success(2) [OF tok s]) }
qed

theorem ensure_fresh_secret_witness:
  "GetToken (w_db (world_of [(tok 1)\<lparr>ATExpires := Some (3 * Hour)\<rparr>])) 1
     = Inr ((tok 1)\<lparr>ATExpires := Some (3 * Hour)\<rparr>) \<and>
   Hour < 3 * Hour - Hour \<and>
   IsATValid (upstream_example (Inl ''401'') pending) Hour (world_of [(tok 1)\<lparr>ATExpires := Some (3 * Hour)\<rparr>]) 1
     = ((True, None), world_of [(tok 1)\<lparr>ATExpires := Some (3 * Hour)\<rparr>]) \<and>
   GetToken (w_db (world_of [tok 1])) 1 = Inr (tok 1) \<and>
   ATExpires (tok 1) = None \<and>
   STToAT (upstream_example (Inl ''401'') pending) (ST (tok 1)) = Inl ''401'' \<and>
   IsATValid (upstream_example (Inl ''401'') pending) Hour (world_of [tok 1]) 1
     = ((False, Some ''401''),
        (world_of [tok 1])\<lparr>w_calls := [Call_STToAT ''st''],
                            w_db := DisableToken (w_db (world_of [tok 1])) 1\<rparr>) \<and>
   GetToken (w_db (snd (IsATValid (upstream_example (Inl ''401'') pending) Hour (world_of [tok 1]) 1))) 1
     = Inr ((tok 1)\<lparr>IsActive := False\<rparr>) \<and>
   STToAT (upstream_example (Inr (''at2'', Some (9 * Hour))) pending) (ST (tok 1))
     = Inr (''at2'', Some (9 * Hour)) \<and>
   fst (IsATValid (upstream_example (Inr (''at2'', Some (9 * Hour))) pending) Hour (world_of [tok 1]) 1)
     = (True, None)"
proof -
  have g: "GetToken (w_db (world_of [(tok 1)\<lparr>ATExpires := Some (3 * Hour)\<rparr>])) 1
     = Inr ((tok 1)\<lparr>ATExpires := Some (3 * Hour)\<rparr>)"
    "GetToken (w_db (world_of [tok 1])) 1 = Inr (tok 1)"
    by (simp_all add: world_of_def db_of_def GetToken_def tok_def)
  have f: "AT ((tok 1)\<lparr>ATExpires := Some (3 * Hour)\<rparr>) \<noteq> []"
    "ATExpires ((tok 1)\<lparr>ATExpires := Some (3 * Hour)\<rparr>) = Some (3 * Hour)"
    "Hour < 3 * Hour - Hour" "ATExpires (tok 1) = None" "ST (tok 1) = ''st''"
    "w_calls (world_of [tok 1]) = []"
    by (simp_all add: tok_def Hour_def world_of_def)
  have u: "STToAT (upstream_example (Inl ''401'') pending) (ST (tok 1)) = Inl ''401''"
    "STToAT (upstream_example (Inr (''at2'', Some (9 * Hour))) pending) (ST (tok 1))
       = Inr (''at2'', Some (9 * Hour))"
    by (simp_all add: upstream_example_def)
  note fresh = ensure_fresh_secret
      [of "world_of [(tok 1)\<lparr>ATExpires := Some (3 * Hour)\<rparr>]" 1
          "(tok 1)\<lparr>ATExpires := Some (3 * Hour)\<rparr>" Hour "upstream_example (Inl ''401'') pending"]
  note fail = ensure_fresh_secret
      [of "world_of [tok 1]" 1 "tok 1" Hour "upstream_example (Inl ''401'') pending"]
  note ok = ensure_fresh_secret
      [of "world_of [tok 1]" 1 "tok 1" Hour "upstream_example (Inr (''at2'', Some (9 * Hour))) pending"]
  have r1: "IsATValid (upstream_example (Inl ''401'') pending) Hour
      (world_of [(tok 1)\<lparr>ATExpires := Some (3 * Hour)\<rparr>]) 1
     = ((True, None), world_of [(tok 1)\<lparr>ATExpires := Some (3 * Hour)\<rparr>])"
    using fresh g(1) f(1,2,3) by blast
  have r2: "IsATValid (upstream_example (Inl ''401'') pending) Hour (world_of [tok 1]) 1
     = ((False, Some ''401''),
        (world_of [tok 1])\<lparr>w_calls := w_calls (world_of [tok 1]) @ [Call_STToAT (ST (tok 1))],
                            w_db := DisableToken (w_db (world_of [tok 1])) 1\<rparr>)"
    "GetToken (w_db (snd (IsATValid (upstream_example (Inl ''401'') pending) Hour (world_of [tok 1]) 1))) 1
     = Inr ((tok 1)\<lparr>IsActive := False\<rparr>)"
    using fail g(2) f(4) u(1) by blast+
  have r3: "fst (IsATValid (upstream_example (Inr (''at2'', Some (9 * Hour))) pending) Hour (world_of [tok 1]) 1)
     = (True, None)"
    using ok g(2) f(4) u(2) by blast
  show ?thesis
    using g f(3,4) u r1 r2 [unfolded f(5,6)] r3 by simp
qed

section \<open>Properties of the poll loop\<close>

lemma poll_calls_step:
  "a < n \<Longrightarrow> poll_calls cfg a n =
     [Call_Sleep (PollInterval cfg), Call_CheckVideoStatus a] @ poll_calls cfg (Suc a) n"
  by (simp add: poll_calls_def upt_conv_Cons)

lemma poll_calls_empty [simp]: "poll_calls cfg a a = []"
  by (simp add: poll_calls_def)

lemma poll_calls_one:
  "poll_calls cfg a (Suc a) = [Call_Sleep (PollInterval cfg), Call_CheckVideoStatus a]"
  by (simp add: poll_calls_def)

lemma poll_calls_count:
  "length (filter is_probe (poll_calls cfg a n)) = n - a"
  "length (filter is_sleep (poll_calls cfg a n)) = n - a"
proof -
  have "length (filter is_probe (poll_calls cfg a (a + k))) = k \<and>
        length (filter is_sleep (poll_calls cfg a (a + k))) = k" for k
    by (induction k) (simp_all add: poll_calls_def)
  from this [of "n - a"] show "length (filter is_probe (poll_calls cfg a n)) = n - a"
    and "length (filter is_sleep (poll_calls cfg a n)) = n - a"
    by (cases "a \<le> n"; simp add: poll_calls_def)+
qed

lemma w_calls_called [simp]: "w_calls (called w c) = w_calls w @ [c]"
  "w_db (called w c) = w_db w" "w_cm (called w c) = w_cm w"
  by (simp_all add: called_def)

lemma poll_loop_timeout:
  "0 \<le> a \<Longrightarrow>
   (\<forall>k. nat a \<le> k \<and> k < nat (MaxPollAttempts cfg) \<longrightarrow> keeps_polling (CheckVideoStatus up k)) \<Longrightarrow>
   fst (poll_loop up cfg rd a w out) = Failed (timeout_message cfg) \<and>
   w_calls (fst (snd (poll_loop up cfg rd a w out))) =
     w_calls w @ poll_calls cfg (nat a) (max (nat a) (nat (MaxPollAttempts cfg))) \<and>
   w_db (fst (snd (poll_loop up cfg rd a w out))) = w_db w \<and>
   w_cm (fst (snd (poll_loop up cfg rd a w out))) = w_cm w"
proof (induction up cfg rd a w out rule: poll_loop.induct)
  case (1 up cfg rd attempt w out)
  let ?M = "MaxPollAttempts cfg"
  show ?case
  proof (cases "attempt < ?M")
    case False
    then have "max (nat attempt) (nat ?M) = nat attempt" by simp
    then show ?thesis using False by (simp add: poll_loop.simps [of up cfg rd attempt w out])
  next
    case True
    let ?w1 = "called (called w (Call_Sleep (PollInterval cfg))) (Call_CheckVideoStatus (nat attempt))"
    have keep: "keeps_polling (CheckVideoStatus up (nat attempt))"
      using "1.prems" True by simp
    have next_prems: "0 \<le> attempt + 1"
      "\<forall>k. nat (attempt + 1) \<le> k \<and> k < nat ?M \<longrightarrow> keeps_polling (CheckVideoStatus up k)"
      using "1.prems" by auto
    have shape: "w_calls ?w1 @ poll_calls cfg (nat (attempt + 1)) (max (nat (attempt + 1)) (nat ?M))
        = w_calls w @ poll_calls cfg (nat attempt) (max (nat attempt) (nat ?M))"
    proof -
      have lt: "nat attempt < nat ?M" using True "1.prems"(1) by simp
      have "nat (attempt + 1) = Suc (nat attempt)" using "1.prems"(1) by simp
      moreover have "max (Suc (nat attempt)) (nat ?M) = nat ?M" "max (nat attempt) (nat ?M) = nat ?M"
        using lt by linarith+
      ultimately show ?thesis using poll_calls_step [OF lt, of cfg] by simp
    qed
    show ?thesis
    proof (cases "CheckVideoStatus up (nat attempt)")
      case (ProbeError err)
      note IH = "1.IH"(1) [OF True refl ProbeError next_prems]
      show ?thesis
        using IH shape ProbeError True by (simp add: poll_loop.simps [of up cfg rd attempt w out])
    next
      case ProbeNoOperations
      note IH = "1.IH"(2) [OF True refl ProbeNoOperations next_prems]
      show ?thesis
        using IH shape ProbeNoOperations True by (simp add: poll_loop.simps [of up cfg rd attempt w out])
    next
      case ProbeMalformed
      then show ?thesis using keep by simp
    next
      case (ProbeStatus status payload)
      then have st: "status \<noteq> ''MEDIA_GENERATION_STATUS_SUCCESSFUL''"
        "\<not> strings_HasPrefix status ''MEDIA_GENERATION_STATUS_ERROR''"
        using keep by simp_all
      note IH = "1.IH"(3) [OF True refl ProbeStatus refl st next_prems]
      show ?thesis
        using IH shape ProbeStatus True st
        by (simp add: poll_loop.simps [of up cfg rd attempt w out] Let_def)
    qed
  qed
qed

lemma poll_loop_calls:
  "0 \<le> a \<Longrightarrow>
   \<exists>n rest. nat a \<le> n \<and> n \<le> max (nat a) (nat (MaxPollAttempts cfg)) \<and>
     w_calls (fst (snd (poll_loop up cfg rd a w out))) = w_calls w @ poll_calls cfg (nat a) n @ rest \<and>
     list_all (\<lambda>c. \<not> is_probe c \<and> \<not> is_sleep c) rest"
proof (induction up cfg rd a w out rule: poll_loop.induct)
  case (1 up cfg rd attempt w out)
  let ?M = "MaxPollAttempts cfg"
  let ?res = "poll_loop up cfg rd attempt w out"
  let ?goal = "\<lambda>r. \<exists>n rest. nat attempt \<le> n \<and> n \<le> max (nat attempt) (nat ?M) \<and>
     w_calls (fst (snd r)) = w_calls w @ poll_calls cfg (nat attempt) n @ rest \<and>
     list_all (\<lambda>c. \<not> is_probe c \<and> \<not> is_sleep c) rest"
  show ?case
  proof (cases "attempt < ?M")
    case False
    then have "w_calls (fst (snd ?res)) = w_calls w @ poll_calls cfg (nat attempt) (nat attempt) @ []"
      by (simp add: poll_loop.simps [of up cfg rd attempt w out])
    then show ?thesis by (intro exI [of _ "nat attempt"] exI [of _ "[]"]) simp
  next
    case True
    let ?w1 = "called (called w (Call_Sleep (PollInterval cfg))) (Call_CheckVideoStatus (nat attempt))"
    have lt: "nat attempt < nat ?M" using True "1.prems" by simp
    have suc: "nat (attempt + 1) = Suc (nat attempt)" using "1.prems" by simp
    have w1: "w_calls ?w1 = w_calls w @ poll_calls cfg (nat attempt) (Suc (nat attempt))"
      by (simp add: poll_calls_one)
    have one_round: "?goal r"
      if "w_calls (fst (snd r)) = w_calls ?w1 @ rest"
        "list_all (\<lambda>c. \<not> is_probe c \<and> \<not> is_sleep c) rest" for r rest
    proof (intro exI [of _ "Suc (nat attempt)"] exI [of _ rest] conjI)
      show "Suc (nat attempt) \<le> max (nat attempt) (nat ?M)" using lt by linarith
      show "w_calls (fst (snd r)) = w_calls w @ poll_calls cfg (nat attempt) (Suc (nat attempt)) @ rest"
        using that(1) w1 by simp
    qed (use that in simp_all)
    have continue: "?goal r"
      if "\<exists>n rest. nat (attempt + 1) \<le> n \<and> n \<le> max (nat (attempt + 1)) (nat ?M) \<and>
            w_calls (fst (snd r)) = w_calls ?w1 @ poll_calls cfg (nat (attempt + 1)) n @ rest \<and>
            list_all (\<lambda>c. \<not> is_probe c \<and> \<not> is_sleep c) rest" for r
    proof -
      from that obtain n rest where n: "Suc (nat attempt) \<le> n" "n \<le> max (Suc (nat attempt)) (nat ?M)"
        "w_calls (fst (snd r)) = w_calls ?w1 @ poll_calls cfg (Suc (nat attempt)) n @ rest"
        "list_all (\<lambda>c. \<not> is_probe c \<and> \<not> is_sleep c) rest"
        unfolding suc by blast
      have "nat attempt < n" using n(1) by simp
      from poll_calls_step [OF this, of cfg]
      have "w_calls (fst (snd r)) = w_calls w @ poll_calls cfg (nat attempt) n @ rest"
        using n(3) by simp
      moreover have "n \<le> max (nat attempt) (nat ?M)" using n(2) lt by linarith
      moreover have "nat attempt \<le> n" using n(1) by simp
      ultimately show ?thesis using n(4) by blast
    qed
    have next_prem: "0 \<le> attempt + 1" using "1.prems" by simp
    show ?thesis
    proof (cases "CheckVideoStatus up (nat attempt)")
      case (ProbeError err)
      have "?res = poll_loop up cfg rd (attempt + 1) ?w1 out"
        using ProbeError True by (simp add: poll_loop.simps [of up cfg rd attempt w out])
      then show ?thesis
        using continue [OF "1.IH"(1) [OF True refl ProbeError next_prem]] by simp
    next
      case ProbeNoOperations
      have "?res = poll_loop up cfg rd (attempt + 1) ?w1 out"
        using ProbeNoOperations True by (simp add: poll_loop.simps [of up cfg rd attempt w out])
      then show ?thesis
        using continue [OF "1.IH"(2) [OF True refl ProbeNoOperations next_prem]] by simp
    next
      case ProbeMalformed
      have "w_calls (fst (snd ?res)) = w_calls ?w1 @ []"
        using ProbeMalformed True by (simp add: poll_loop.simps [of up cfg rd attempt w out])
      then show ?thesis by (rule one_round) simp
    next
      case (ProbeStatus status payload)
      show ?thesis
      proof (cases "status = ''MEDIA_GENERATION_STATUS_SUCCESSFUL''")
        case True
        have "w_calls (fst (snd ?res)) = w_calls ?w1 @ [] \<or>
              (\<exists>u. w_calls (fst (snd ?res)) = w_calls ?w1 @ [Call_cacheFile u])"
          using ProbeStatus True \<open>attempt < ?M\<close>
          by (auto simp add: poll_loop.simps [of up cfg rd attempt w out] Let_def
              split: option.splits sum.splits prod.splits)
        then show ?thesis
        proof (elim disjE exE)
          assume "w_calls (fst (snd ?res)) = w_calls ?w1 @ []"
          then show ?thesis by (rule one_round) simp
        next
          fix u assume "w_calls (fst (snd ?res)) = w_calls ?w1 @ [Call_cacheFile u]"
          then show ?thesis by (rule one_round) simp
        qed
      next
        case False
        show ?thesis
        proof (cases "strings_HasPrefix status ''MEDIA_GENERATION_STATUS_ERROR''")
          case err: True
          have "w_calls (fst (snd ?res)) = w_calls ?w1 @ []"
            using ProbeStatus False err \<open>attempt < ?M\<close>
            by (simp add: poll_loop.simps [of up cfg rd attempt w out] Let_def)
          then show ?thesis by (rule one_round) simp
        next
          case noerr: False
          have "?res = poll_loop up cfg rd (attempt + 1) ?w1
              (if attempt mod 7 = 0
               then out @ [Progress (''Progress: '' @
                      string_of_int (progress_percent attempt ?M) @ ''%'')]
               else out)"
            using ProbeStatus False noerr \<open>attempt < ?M\<close>
            by (simp add: poll_loop.simps [of up cfg rd attempt w out] Let_def)
          then show ?thesis
            using continue [OF "1.IH"(3) [OF \<open>attempt < ?M\<close> refl ProbeStatus refl False noerr next_prem]]
            by simp
        qed
      qed
    qed
  qed
qed

lemma filter_rest_empty:
  "list_all (\<lambda>c. \<not> is_probe c \<and> \<not> is_sleep c) rest \<Longrightarrow>
   filter is_probe rest = [] \<and> filter is_sleep rest = []"
  by (induction rest) auto

text \<open>
  C5. The poll loop is a total function. Its calls are rounds of one sleep of the
  configured interval followed by one status probe, numbered from 0, at most
  \<open>MaxPollAttempts\<close> of them (none when that is not positive), followed at most by the
  call that caches the result. When every probe within the budget fails or reports a
  status that is neither the success status nor an error status, the loop makes exactly
  \<open>MaxPollAttempts\<close> rounds, returns the timeout error and leaves the store as it was.
\<close>

theorem poll_terminates_within_budget:
  "(\<exists>n rest. n \<le> nat (MaxPollAttempts cfg) \<and>
      w_calls (fst (snd (pollVideoResult up cfg rd w))) = w_calls w @ poll_calls cfg 0 n @ rest \<and>
      length (filter is_probe (poll_calls cfg 0 n @ rest)) = n \<and>
      length (filter is_sleep (poll_calls cfg 0 n @ rest)) = n) \<and>
   ((\<forall>k < nat (MaxPollAttempts cfg). keeps_polling (CheckVideoStatus up k)) \<longrightarrow>
      fst (pollVideoResult up cfg rd w) = Failed (timeout_message cfg) \<and>
      w_calls (fst (snd (pollVideoResult up cfg rd w))) =
        w_calls w @ poll_calls cfg 0 (nat (MaxPollAttempts cfg)) \<and>
      length (filter is_probe (poll_calls cfg 0 (nat (MaxPollAttempts cfg)))) = nat (MaxPollAttempts cfg) \<and>
      w_db (fst (snd (pollVideoResult up cfg rd w))) = w_db w)"
proof (intro conjI impI)
  from poll_loop_calls [of 0 cfg up rd w "[]"]
  obtain n rest where n: "n \<le> nat (MaxPollAttempts cfg)"
    "w_calls (fst (snd (poll_loop up cfg rd 0 w []))) = w_calls w @ poll_calls cfg 0 n @ rest"
    "list_all (\<lambda>c. \<not> is_probe c \<and> \<not> is_sleep c) rest"
    by auto
  have "length (filter is_probe (poll_calls cfg 0 n @ rest)) = n"
    "length (filter is_sleep (poll_calls cfg 0 n @ rest)) = n"
    using filter_rest_empty [OF n(3)] by (simp_all add: poll_calls_count)
  then show "\<exists>n rest. n \<le> nat (MaxPollAttempts cfg) \<and>
      w_calls (fst (snd (pollVideoResult up cfg rd w))) = w_calls w @ poll_calls cfg 0 n @ rest \<and>
      length (filter is_probe (poll_calls cfg 0 n @ rest)) = n \<and>
      length (filter is_sleep (poll_calls cfg 0 n @ rest)) = n"
    using n(1,2) unfolding pollVideoResult_def by blast
next
  assume "\<forall>k < nat (MaxPollAttempts cfg). keeps_polling (CheckVideoStatus up k)"
  then have "\<forall>k. nat 0 \<le> k \<and> k < nat (MaxPollAttempts cfg) \<longrightarrow> keeps_polling (CheckVideoStatus up k)"
    by simp
  from poll_loop_timeout [OF _ this, of rd w "[]"]
  show "fst (pollVideoResult up cfg rd w) = Failed (timeout_message cfg)"
    and "w_calls (fst (snd (pollVideoResult up cfg rd w))) =
        w_calls w @ poll_calls cfg 0 (nat (MaxPollAttempts cfg))"
    and "w_db (fst (snd (pollVideoResult up cfg rd w))) = w_db w"
    by (simp_all add: pollVideoResult_def)
  show "length (filter is_probe (poll_calls cfg 0 (nat (MaxPollAttempts cfg)))) = nat (MaxPollAttempts cfg)"
    by (simp add: poll_calls_count)
qed

theorem poll_terminates_within_budget_witness:
  "list_all (\<lambda>k. keeps_polling (CheckVideoStatus (upstream_example (Inl ''401'') pending) k)) [0..<3] \<and>
   nat (MaxPollAttempts cfg_example) = 3 \<and>
   fst (pollVideoResult (upstream_example (Inl ''401'') pending) cfg_example rd_example (world_of [tok 1]))
     = Failed ''Video generation timeout (polled 3 times)'' \<and>
   w_calls (fst (snd (pollVideoResult (upstream_example (Inl ''401'') pending) cfg_example rd_example
       (world_of [tok 1]))))
     = [Call_Sleep 1000000, Call_CheckVideoStatus 0, Call_Sleep 1000000, Call_CheckVideoStatus 1,
        Call_Sleep 1000000, Call_CheckVideoStatus 2]"
proof -
  have k: "\<forall>k < nat (MaxPollAttempts cfg_example).
      keeps_polling (CheckVideoStatus (upstream_example (Inl ''401'') pending) k)"
    by (simp add: upstream_example_def pending_def strings_HasPrefix_def)
  have k': "list_all (\<lambda>k. keeps_polling (CheckVideoStatus (upstream_example (Inl ''401'') pending) k)) [0..<3]"
    by (simp add: upstream_example_def pending_def strings_HasPrefix_def list_all_iff)
  have m: "nat (MaxPollAttempts cfg_example) = 3" by (simp add: cfg_example_def)
  have msg: "timeout_message cfg_example = ''Video generation timeout (polled 3 times)''"
    by (simp add: timeout_message_def cfg_example_def string_of_int_def string_of_nat.simps)
  have calls: "poll_calls cfg_example 0 3
      = [Call_Sleep 1000000, Call_CheckVideoStatus 0, Call_Sleep 1000000, Call_CheckVideoStatus 1,
         Call_Sleep 1000000, Call_CheckVideoStatus 2]"
    by (simp add: poll_calls_def cfg_example_def upt_rec numeral_eq_Suc)
  have w0: "w_calls (world_of [tok 1]) = []" by (simp add: world_of_def)
  show ?thesis
    using poll_terminates_within_budget
        [of cfg_example "upstream_example (Inl ''401'') pending" rd_example "world_of [tok 1]"]
      k k' m msg calls w0
    by simp
qed

section \<open>Properties of the request handler\<close>

lemma Acquire_refused:
  "\<not> fst (AcquireImage cm i) \<Longrightarrow> AcquireImage cm i = (False, cm)"
  "\<not> fst (AcquireVideo cm i) \<Longrightarrow> AcquireVideo cm i = (False, cm)"
  by (auto simp: AcquireImage_def AcquireVideo_def split: option.splits if_splits)

lemma not_429:
  "\<not> strings_Contains ''Image concurrency limit reached'' ''429''"
  "\<not> strings_Contains ''Video concurrency limit reached'' ''429''"
  by (simp_all add: strings_Contains_def sublist_code)

lemma world_same_cm [simp]: "w\<lparr>w_cm := w_cm w\<rparr> = w"
  by simp

lemma generate_image_refused:
  assumes "Type mc = ''image''" "\<not> fst (AcquireImage (w_cm w) (ID token))"
  shows "generate up cfg rd w token projectID mc prompt images =
     (Failed ''Image concurrency limit reached'',
      w\<lparr>w_db := snd (RecordError (w_db w) (ID token) (ck_record rd) (ck_today rd))\<rparr>,
      [Progress ''Image concurrency limit reached'', ErrorResponse ''Image concurrency limit reached''])"
  using assms(1) Acquire_refused(1) [OF assms(2)] not_429
  by (simp add: generate_def handleImageGeneration_def)

lemma generate_video_refused:
  assumes "Type mc \<noteq> ''image''" "\<not> fst (AcquireVideo (w_cm w) (ID token))"
  shows "generate up cfg rd w token projectID mc prompt images =
     (Failed ''Video concurrency limit reached'',
      w\<lparr>w_db := snd (RecordError (w_db w) (ID token) (ck_record rd) (ck_today rd))\<rparr>,
      [Progress ''Video concurrency limit reached'', ErrorResponse ''Video concurrency limit reached''])"
  using assms(1) Acquire_refused(2) [OF assms(2)] not_429
  by (simp add: generate_def handleVideoGeneration_def)

lemma generate_i2v_count:
  assumes "Type mc \<noteq> ''image''" "fst (AcquireVideo (w_cm w) (ID token))"
    and "VideoType mc = ''i2v''"
    and "int (length images) < MinImages mc \<or> MaxImages mc < int (length images)"
    and "\<not> strings_Contains (i2v_count_message mc (length images)) ''429''"
  shows "generate up cfg rd w token projectID mc prompt images =
     (Failed (i2v_count_message mc (length images)),
      w\<lparr>w_cm := ReleaseVideo (snd (AcquireVideo (w_cm w) (ID token))) (ID token),
        w_db := snd (RecordError (w_db w) (ID token) (ck_record rd) (ck_today rd))\<rparr>,
      [Progress (i2v_count_message mc (length images)),
       ErrorResponse (i2v_count_message mc (length images))])"
proof -
  obtain cm1 where acq: "AcquireVideo (w_cm w) (ID token) = (True, cm1)"
    using assms(2) by (cases "AcquireVideo (w_cm w) (ID token)") simp
  then have cm1: "snd (AcquireVideo (w_cm w) (ID token)) = cm1" by simp
  show ?thesis
    unfolding cm1 using assms(1,3,4,5) acq
    by (simp add: generate_def handleVideoGeneration_def video_body_def)
qed

lemma HandleGeneration_dispatch:
  assumes "ModelConfigs model = Some mc"
    and "SelectToken (w_db w) (w_cm w) (Type mc = ''image'') (Type mc = ''video'') model (ck_select rd)
           = Some token0"
    and "IsATValid up (ck_check rd) w (ID token0) = ((True, None), w1)"
    and "GetToken (w_db w1) (ID token0) = Inr token"
    and "EnsureProjectExists up (ck_project_name rd) w1 (ID token) = (Inr projectID, w2)"
  shows "fst (HandleGeneration up cfg rd w model prompt images True)
           = fst (generate up cfg rd w2 token projectID mc prompt images)"
    and "fst (snd (HandleGeneration up cfg rd w model prompt images True))
           = fst (snd (generate up cfg rd w2 token projectID mc prompt images))"
  using assms by (simp_all add: HandleGeneration_def Let_def split: prod.splits)

text \<open>
  C2, as the code has it. A request that has selected a credential, found its access
  token fresh and its project present hands over to the dispatch and its accounting.
  There a refused slot, for images and for video, makes the request fail with the
  concurrency message, and the credential is accounted with \<open>RecordError\<close>: the store
  afterwards is the store after \<open>RecordError\<close> for this credential, the rest of the state
  is untouched. An image count outside the bounds of an image-to-video model fails the
  request after the slot was taken; the slot is released and, when the message does not
  contain \<open>429\<close>, the credential is accounted with \<open>RecordError\<close> as well. For a
  credential with a statistics row and with the admin configuration present that
  accounting raises the consecutive-error count by one.
\<close>

theorem refusals_are_error_accounted:
  "(ModelConfigs model = Some mc \<and>
    SelectToken (w_db w0) (w_cm w0) (Type mc = ''image'') (Type mc = ''video'') model (ck_select rd)
      = Some token0 \<and>
    IsATValid up (ck_check rd) w0 (ID token0) = ((True, None), w1) \<and>
    GetToken (w_db w1) (ID token0) = Inr token \<and>
    EnsureProjectExists up (ck_project_name rd) w1 (ID token) = (Inr projectID, w) \<longrightarrow>
      fst (HandleGeneration up cfg rd w0 model prompt images True)
        = fst (generate up cfg rd w token projectID mc prompt images) \<and>
      fst (snd (HandleGeneration up cfg rd w0 model prompt images True))
        = fst (snd (generate up cfg rd w token projectID mc prompt images))) \<and>
   (Type mc = ''image'' \<and> \<not> fst (AcquireImage (w_cm w) (ID token)) \<longrightarrow>
      fst (generate up cfg rd w token projectID mc prompt images)
        = Failed ''Image concurrency limit reached'' \<and>
      fst (snd (generate up cfg rd w token projectID mc prompt images))
        = w\<lparr>w_db := snd (RecordError (w_db w) (ID token) (ck_record rd) (ck_today rd))\<rparr>) \<and>
   (Type mc \<noteq> ''image'' \<and> \<not> fst (AcquireVideo (w_cm w) (ID token)) \<longrightarrow>
      fst (generate up cfg rd w token projectID mc prompt images)
        = Failed ''Video concurrency limit reached'' \<and>
      fst (snd (generate up cfg rd w token projectID mc prompt images))
        = w\<lparr>w_db := snd (RecordError (w_db w) (ID token) (ck_record rd) (ck_today rd))\<rparr>) \<and>
   (Type mc \<noteq> ''image'' \<and> fst (AcquireVideo (w_cm w) (ID token)) \<and> VideoType mc = ''i2v'' \<and>
    (int (length images) < MinImages mc \<or> MaxImages mc < int (length images)) \<and>
    \<not> strings_Contains (i2v_count_message mc (length images)) ''429'' \<longrightarrow>
      fst (generate up cfg rd w token projectID mc prompt images)
        = Failed (i2v_count_message mc (length images)) \<and>
      fst (snd (generate up cfg rd w token projectID mc prompt images))
        = w\<lparr>w_cm := ReleaseVideo (snd (AcquireVideo (w_cm w) (ID token))) (ID token),
            w_db := snd (RecordError (w_db w) (ID token) (ck_record rd) (ck_today rd))\<rparr>) \<and>
   (token_stats_tbl (w_db w) (ID token) = Some s \<and> admin_config_tbl (w_db w) = Some c \<longrightarrow>
      ConsecutiveErrorCount
        (GetTokenStats (snd (RecordError (w_db w) (ID token) (ck_record rd) (ck_today rd))) (ID token))
        = ConsecutiveErrorCount s + 1)"
proof (intro conjI impI)
  assume h: "ModelConfigs model = Some mc \<and>
    SelectToken (w_db w0) (w_cm w0) (Type mc = ''image'') (Type mc = ''video'') model (ck_select rd)
      = Some token0 \<and>
    IsATValid up (ck_check rd) w0 (ID token0) = ((True, None), w1) \<and>
    GetToken (w_db w1) (ID token0) = Inr token \<and>
    EnsureProjectExists up (ck_project_name rd) w1 (ID token) = (Inr projectID, w)"
  then show "fst (HandleGeneration up cfg rd w0 model prompt images True)
        = fst (generate up cfg rd w token projectID mc prompt images)"
    by (intro HandleGeneration_dispatch(1) [of model mc w0 rd token0 up w1 token projectID w]) simp_all
  from h show "fst (snd (HandleGeneration up cfg rd w0 model prompt images True))
        = fst (snd (generate up cfg rd w token projectID mc prompt images))"
    by (intro HandleGeneration_dispatch(2) [of model mc w0 rd token0 up w1 token projectID w]) simp_all
next
  assume h: "Type mc = ''image'' \<and> \<not> fst (AcquireImage (w_cm w) (ID token))"
  then have "generate up cfg rd w token projectID mc prompt images =
     (Failed ''Image concurrency limit reached'',
      w\<lparr>w_db := snd (RecordError (w_db w) (ID token) (ck_record rd) (ck_today rd))\<rparr>,
      [Progress ''Image concurrency limit reached'', ErrorResponse ''Image concurrency limit reached''])"
    by (intro generate_image_refused) simp_all
  then show "fst (generate up cfg rd w token projectID mc prompt images)
        = Failed ''Image concurrency limit reached''"
    and "fst (snd (generate up cfg rd w token projectID mc prompt images))
        = w\<lparr>w_db := snd (RecordError (w_db w) (ID token) (ck_record rd) (ck_today rd))\<rparr>"
    by simp_all
next
  assume h: "Type mc \<noteq> ''image'' \<and> \<not> fst (AcquireVideo (w_cm w) (ID token))"
  then have "generate up cfg rd w token projectID mc prompt images =
     (Failed ''Video concurrency limit reached'',
      w\<lparr>w_db := snd (RecordError (w_db w) (ID token) (ck_record rd) (ck_today rd))\<rparr>,
      [Progress ''Video concurrency limit reached'', ErrorResponse ''Video concurrency limit reached''])"
    by (intro generate_video_refused) simp_all
  then show "fst (generate up cfg rd w token projectID mc prompt images)
        = Failed ''Video concurrency limit reached''"
    and "fst (snd (generate up cfg rd w token projectID mc prompt images))
        = w\<lparr>w_db := snd (RecordError (w_db w) (ID token) (ck_record rd) (ck_today rd))\<rparr>"
    by simp_all
next
  assume h: "Type mc \<noteq> ''image'' \<and> fst (AcquireVideo (w_cm w) (ID token)) \<and> VideoType mc = ''i2v'' \<and>
    (int (length images) < MinImages mc \<or> MaxImages mc < int (length images)) \<and>
    \<not> strings_Contains (i2v_count_message mc (length images)) ''429''"
  then have "generate up cfg rd w token projectID mc prompt images =
     (Failed (i2v_count_message mc (length images)),
      w\<lparr>w_cm := ReleaseVideo (snd (AcquireVideo (w_cm w) (ID token))) (ID token),
        w_db := snd (RecordError (w_db w) (ID token) (ck_record rd) (ck_today rd))\<rparr>,
      [Progress (i2v_count_message mc (length images)),
       ErrorResponse (i2v_count_message mc (length images))])"
    by (intro generate_i2v_count) simp_all
  then show "fst (generate up cfg rd w token projectID mc prompt images)
        = Failed (i2v_count_message mc (length images))"
    and "fst (snd (generate up cfg rd w token projectID mc prompt images))
        = w\<lparr>w_cm := ReleaseVideo (snd (AcquireVideo (w_cm w) (ID token))) (ID token),
            w_db := snd (RecordError (w_db w) (ID token) (ck_record rd) (ck_today rd))\<rparr>"
    by simp_all
next
  assume "token_stats_tbl (w_db w) (ID token) = Some s \<and> admin_config_tbl (w_db w) = Some c"
  then show "ConsecutiveErrorCount
        (GetTokenStats (snd (RecordError (w_db w) (ID token) (ck_record rd) (ck_today rd))) (ID token))
        = ConsecutiveErrorCount s + 1"
    using RecordError_step(2) [of "w_db w" "ID token" s c] by simp
qed

lemma select_single:
  assumes "GetActiveTokens d = [t]" "survives cm fi fv now t" "0 \<le>s Credits t"
    "LastUsedAt t = None"
  shows "SelectToken d cm fi fv model now = Some t"
proof -
  have "0 \<le> token_score now t" using assms(3,4) by (intro score_nonneg) simp_all
  then have "- 1 < token_score now t" by simp
  then show ?thesis
    using assms(1,2) by (simp add: SelectToken_def select_loop_Cons del: select_loop.simps(2))
qed

lemma model_rows:
  "ModelConfigs ''gemini-2.5-flash-image-landscape'' = Some mc_image"
  "ModelConfigs ''veo_3_1_t2v_fast_portrait'' = Some mc_t2v"
  "ModelConfigs ''veo_3_1_i2v_s_fast_fl_portrait'' = Some mc_i2v"
  by (simp_all add: ModelConfigs_def mc_image_def mc_t2v_def mc_i2v_def)

lemma model_kinds:
  "Type mc_image = ''image''" "Type mc_t2v = ''video''" "Type mc_i2v = ''video''"
  "VideoType mc_i2v = ''i2v''" "MinImages mc_i2v = 1" "MaxImages mc_i2v = 2"
  by (simp_all add: mc_image_def mc_t2v_def mc_i2v_def)

lemma i2v_message_example:
  "i2v_count_message mc_i2v 0 = ''I2V model requires 1-2 images, got 0''"
  by (simp add: i2v_count_message_def mc_i2v_def string_of_int_def string_of_nat.simps)

lemma i2v_message_not_429:
  "\<not> strings_Contains ''I2V model requires 1-2 images, got 0'' ''429''"
  by (simp add: strings_Contains_def sublist_code)

lemma single_world:
  assumes "ID t = 1" "IsActive t" "AT t \<noteq> []" "ATExpires t = Some (3 * Hour)"
    "CurrentProjectID t = ''p''" "Credits t = 10" "LastUsedAt t = None"
    "ImageEnabled t" "VideoEnabled t" "\<not> 0 <s ImageConcurrency t" "\<not> 0 <s VideoConcurrency t"
  shows "SelectToken (w_db (world_of [t])) (w_cm (world_of [t])) fi fv model (ck_select rd_example) = Some t"
    and "IsATValid up_example (ck_check rd_example) (world_of [t]) (ID t) = ((True, None), world_of [t])"
    and "GetToken (w_db (world_of [t])) (ID t) = Inr t"
    and "EnsureProjectExists up_example (ck_project_name rd_example) (world_of [t]) (ID t)
           = (Inr ''p'', world_of [t])"
    and "token_stats_tbl (w_db (world_of [t])) (ID t) = Some empty_stats"
    and "admin_config_tbl (w_db (world_of [t])) = Some admin_example"
proof -
  show get: "GetToken (w_db (world_of [t])) (ID t) = Inr t"
    by (simp add: world_of_def db_of_def GetToken_def)
  have act: "GetActiveTokens (w_db (world_of [t])) = [t]"
    using assms(2) get by (simp add: GetActiveTokens_def world_of_def db_of_def)
  have sv: "survives (w_cm (world_of [t])) fi fv (ck_select rd_example) t"
    using assms by (simp add: survives_def at_expired_def time_Before_def rd_example_def Hour_def)
  have cr: "0 \<le>s Credits t" using assms(6) by (simp add: word_sle_eq)
  show "SelectToken (w_db (world_of [t])) (w_cm (world_of [t])) fi fv model (ck_select rd_example) = Some t"
    using act sv cr assms(7) by (rule select_single)
  show "IsATValid up_example (ck_check rd_example) (world_of [t]) (ID t) = ((True, None), world_of [t])"
    using assms(3,4) get by (simp add: IsATValid_def rd_example_def time_Sub_def Hour_def)
  show "EnsureProjectExists up_example (ck_project_name rd_example) (world_of [t]) (ID t)
           = (Inr ''p'', world_of [t])"
    using assms(5) get by (simp add: EnsureProjectExists_def)
  show "token_stats_tbl (w_db (world_of [t])) (ID t) = Some empty_stats"
    by (simp add: world_of_def db_of_def)
  show "admin_config_tbl (w_db (world_of [t])) = Some admin_example"
    by (simp add: world_of_def db_of_def admin_example_def)
qed

lemma zero_limit_world:
  "SelectToken (w_db (world_of [tok_zero_limit])) (w_cm (world_of [tok_zero_limit])) True False
     ''gemini-2.5-flash-image-landscape'' (ck_select rd_example) = Some tok_zero_limit"
  "IsATValid up_example (ck_check rd_example) (world_of [tok_zero_limit]) (ID tok_zero_limit)
     = ((True, None), world_of [tok_zero_limit])"
  "GetToken (w_db (world_of [tok_zero_limit])) (ID tok_zero_limit) = Inr tok_zero_limit"
  "EnsureProjectExists up_example (ck_project_name rd_example) (world_of [tok_zero_limit])
     (ID tok_zero_limit) = (Inr ''p'', world_of [tok_zero_limit])"
  "token_stats_tbl (w_db (world_of [tok_zero_limit])) (ID tok_zero_limit) = Some empty_stats"
  "admin_config_tbl (w_db (world_of [tok_zero_limit])) = Some admin_example"
  "\<not> fst (AcquireImage (w_cm (world_of [tok_zero_limit])) (ID tok_zero_limit))"
proof -
  show "SelectToken (w_db (world_of [tok_zero_limit])) (w_cm (world_of [tok_zero_limit])) True False
     ''gemini-2.5-flash-image-landscape'' (ck_select rd_example) = Some tok_zero_limit"
    by (rule single_world(1)) (simp_all add: tok_zero_limit_def tok_def)
  show "IsATValid up_example (ck_check rd_example) (world_of [tok_zero_limit]) (ID tok_zero_limit)
     = ((True, None), world_of [tok_zero_limit])"
    by (rule single_world(2)) (simp_all add: tok_zero_limit_def tok_def)
  show "GetToken (w_db (world_of [tok_zero_limit])) (ID tok_zero_limit) = Inr tok_zero_limit"
    by (rule single_world(3)) (simp_all add: tok_zero_limit_def tok_def)
  show "EnsureProjectExists up_example (ck_project_name rd_example) (world_of [tok_zero_limit])
     (ID tok_zero_limit) = (Inr ''p'', world_of [tok_zero_limit])"
    by (rule single_world(4)) (simp_all add: tok_zero_limit_def tok_def)
  show "token_stats_tbl (w_db (world_of [tok_zero_limit])) (ID tok_zero_limit) = Some empty_stats"
    by (rule single_world(5)) (simp_all add: tok_zero_limit_def tok_def)
  show "admin_config_tbl (w_db (world_of [tok_zero_limit])) = Some admin_example"
    by (rule single_world(6)) (simp_all add: tok_zero_limit_def tok_def)
  show "\<not> fst (AcquireImage (w_cm (world_of [tok_zero_limit])) (ID tok_zero_limit))"
    by (simp add: AcquireImage_def world_of_def NewConcurrencyManager_def tok_zero_limit_def tok_def
        slot_count_def word_sle_eq word_sless_alt)
qed

lemma zero_video_world:
  "SelectToken (w_db (world_of [tok_zero_video])) (w_cm (world_of [tok_zero_video])) False True
     ''veo_3_1_t2v_fast_portrait'' (ck_select rd_example) = Some tok_zero_video"
  "IsATValid up_example (ck_check rd_example) (world_of [tok_zero_video]) (ID tok_zero_video)
     = ((True, None), world_of [tok_zero_video])"
  "GetToken (w_db (world_of [tok_zero_video])) (ID tok_zero_video) = Inr tok_zero_video"
  "EnsureProjectExists up_example (ck_project_name rd_example) (world_of [tok_zero_video])
     (ID tok_zero_video) = (Inr ''p'', world_of [tok_zero_video])"
  "token_stats_tbl (w_db (world_of [tok_zero_video])) (ID tok_zero_video) = Some empty_stats"
  "admin_config_tbl (w_db (world_of [tok_zero_video])) = Some admin_example"
  "\<not> fst (AcquireVideo (w_cm (world_of [tok_zero_video])) (ID tok_zero_video))"
proof -
  show "SelectToken (w_db (world_of [tok_zero_video])) (w_cm (world_of [tok_zero_video])) False True
     ''veo_3_1_t2v_fast_portrait'' (ck_select rd_example) = Some tok_zero_video"
    by (rule single_world(1)) (simp_all add: tok_zero_video_def tok_def)
  show "IsATValid up_example (ck_check rd_example) (world_of [tok_zero_video]) (ID tok_zero_video)
     = ((True, None), world_of [tok_zero_video])"
    by (rule single_world(2)) (simp_all add: tok_zero_video_def tok_def)
  show "GetToken (w_db (world_of [tok_zero_video])) (ID tok_zero_video) = Inr tok_zero_video"
    by (rule single_world(3)) (simp_all add: tok_zero_video_def tok_def)
  show "EnsureProjectExists up_example (ck_project_name rd_example) (world_of [tok_zero_video])
     (ID tok_zero_video) = (Inr ''p'', world_of [tok_zero_video])"
    by (rule single_world(4)) (simp_all add: tok_zero_video_def tok_def)
  show "token_stats_tbl (w_db (world_of [tok_zero_video])) (ID tok_zero_video) = Some empty_stats"
    by (rule single_world(5)) (simp_all add: tok_zero_video_def tok_def)
  show "admin_config_tbl (w_db (world_of [tok_zero_video])) = Some admin_example"
    by (rule single_world(6)) (simp_all add: tok_zero_video_def tok_def)
  show "\<not> fst (AcquireVideo (w_cm (world_of [tok_zero_video])) (ID tok_zero_video))"
    by (simp add: AcquireVideo_def world_of_def NewConcurrencyManager_def tok_zero_video_def tok_def
        slot_count_def word_sle_eq word_sless_alt)
qed

lemma ready_world:
  "SelectToken (w_db (world_of [tok_ready])) (w_cm (world_of [tok_ready])) False True
     ''veo_3_1_i2v_s_fast_fl_portrait'' (ck_select rd_example) = Some tok_ready"
  "IsATValid up_example (ck_check rd_example) (world_of [tok_ready]) (ID tok_ready)
     = ((True, None), world_of [tok_ready])"
  "GetToken (w_db (world_of [tok_ready])) (ID tok_ready) = Inr tok_ready"
  "EnsureProjectExists up_example (ck_project_name rd_example) (world_of [tok_ready])
     (ID tok_ready) = (Inr ''p'', world_of [tok_ready])"
  "token_stats_tbl (w_db (world_of [tok_ready])) (ID tok_ready) = Some empty_stats"
  "admin_config_tbl (w_db (world_of [tok_ready])) = Some admin_example"
  "fst (AcquireVideo (w_cm (world_of [tok_ready])) (ID tok_ready))"
proof -
  show "SelectToken (w_db (world_of [tok_ready])) (w_cm (world_of [tok_ready])) False True
     ''veo_3_1_i2v_s_fast_fl_portrait'' (ck_select rd_example) = Some tok_ready"
    by (rule single_world(1)) (simp_all add: tok_ready_def tok_def)
  show "IsATValid up_example (ck_check rd_example) (world_of [tok_ready]) (ID tok_ready)
     = ((True, None), world_of [tok_ready])"
    by (rule single_world(2)) (simp_all add: tok_ready_def tok_def)
  show "GetToken (w_db (world_of [tok_ready])) (ID tok_ready) = Inr tok_ready"
    by (rule single_world(3)) (simp_all add: tok_ready_def tok_def)
  show "EnsureProjectExists up_example (ck_project_name rd_example) (world_of [tok_ready])
     (ID tok_ready) = (Inr ''p'', world_of [tok_ready])"
    by (rule single_world(4)) (simp_all add: tok_ready_def tok_def)
  show "token_stats_tbl (w_db (world_of [tok_ready])) (ID tok_ready) = Some empty_stats"
    by (rule single_world(5)) (simp_all add: tok_ready_def tok_def)
  show "admin_config_tbl (w_db (world_of [tok_ready])) = Some admin_example"
    by (rule single_world(6)) (simp_all add: tok_ready_def tok_def)
  show "fst (AcquireVideo (w_cm (world_of [tok_ready])) (ID tok_ready))"
    by (simp add: AcquireVideo_def world_of_def NewConcurrencyManager_def tok_ready_def tok_def
        slot_count_def word_sle_eq word_sless_alt)
qed

theorem refusals_are_error_accounted_witness:
  "ModelConfigs ''gemini-2.5-flash-image-landscape'' = Some mc_image \<and>
   Type mc_image = ''image'' \<and>
   SelectToken (w_db (world_of [tok_zero_limit])) (w_cm (world_of [tok_zero_limit])) True False
     ''gemini-2.5-flash-image-landscape'' (ck_select rd_example) = Some tok_zero_limit \<and>
   \<not> fst (AcquireImage (w_cm (world_of [tok_zero_limit])) (ID tok_zero_limit)) \<and>
   fst (HandleGeneration up_example cfg_example rd_example (world_of [tok_zero_limit])
          ''gemini-2.5-flash-image-landscape'' ''a cat'' [] True)
     = Failed ''Image concurrency limit reached'' \<and>
   fst (snd (HandleGeneration up_example cfg_example rd_example (world_of [tok_zero_limit])
          ''gemini-2.5-flash-image-landscape'' ''a cat'' [] True))
     = (world_of [tok_zero_limit])
         \<lparr>w_db := snd (RecordError (w_db (world_of [tok_zero_limit])) (ID tok_zero_limit)
                        (ck_record rd_example) (ck_today rd_example))\<rparr> \<and>
   ConsecutiveErrorCount
     (GetTokenStats (snd (RecordError (w_db (world_of [tok_zero_limit])) (ID tok_zero_limit)
                            (ck_record rd_example) (ck_today rd_example))) (ID tok_zero_limit))
     = ConsecutiveErrorCount empty_stats + 1 \<and>
   ModelConfigs ''veo_3_1_t2v_fast_portrait'' = Some mc_t2v \<and>
   Type mc_t2v \<noteq> ''image'' \<and>
   \<not> fst (AcquireVideo (w_cm (world_of [tok_zero_video])) (ID tok_zero_video)) \<and>
   fst (HandleGeneration up_example cfg_example rd_example (world_of [tok_zero_video])
          ''veo_3_1_t2v_fast_portrait'' ''a cat'' [] True)
     = Failed ''Video concurrency limit reached'' \<and>
   fst (snd (HandleGeneration up_example cfg_example rd_example (world_of [tok_zero_video])
          ''veo_3_1_t2v_fast_portrait'' ''a cat'' [] True))
     = (world_of [tok_zero_video])
         \<lparr>w_db := snd (RecordError (w_db (world_of [tok_zero_video])) (ID tok_zero_video)
                        (ck_record rd_example) (ck_today rd_example))\<rparr> \<and>
   ModelConfigs ''veo_3_1_i2v_s_fast_fl_portrait'' = Some mc_i2v \<and>
   VideoType mc_i2v = ''i2v'' \<and>
   int (length ([] :: string list)) < MinImages mc_i2v \<and>
   fst (AcquireVideo (w_cm (world_of [tok_ready])) (ID tok_ready)) \<and>
   \<not> strings_Contains (i2v_count_message mc_i2v 0) ''429'' \<and>
   fst (HandleGeneration up_example cfg_example rd_example (world_of [tok_ready])
          ''veo_3_1_i2v_s_fast_fl_portrait'' ''a cat'' [] True)
     = Failed ''I2V model requires 1-2 images, got 0'' \<and>
   fst (snd (HandleGeneration up_example cfg_example rd_example (world_of [tok_ready])
          ''veo_3_1_i2v_s_fast_fl_portrait'' ''a cat'' [] True))
     = (world_of [tok_ready])
         \<lparr>w_cm := ReleaseVideo (snd (AcquireVideo (w_cm (world_of [tok_ready])) (ID tok_ready)))
                    (ID tok_ready),
           w_db := snd (RecordError (w_db (world_of [tok_ready])) (ID tok_ready)
                        (ck_record rd_example) (ck_today rd_example))\<rparr>"
proof -
  note zl = zero_limit_world
  note zv = zero_video_world
  note rv = ready_world
  have n429: "\<not> strings_Contains (i2v_count_message mc_i2v 0) ''429''"
    by (simp only: i2v_message_example i2v_message_not_429 not_False_eq_True)
  have img:
    "fst (HandleGeneration up_example cfg_example rd_example (world_of [tok_zero_limit])
          ''gemini-2.5-flash-image-landscape'' ''a cat'' [] True)
       = Failed ''Image concurrency limit reached''"
    "fst (snd (HandleGeneration up_example cfg_example rd_example (world_of [tok_zero_limit])
          ''gemini-2.5-flash-image-landscape'' ''a cat'' [] True))
     = (world_of [tok_zero_limit])
         \<lparr>w_db := snd (RecordError (w_db (world_of [tok_zero_limit])) (ID tok_zero_limit)
                        (ck_record rd_example) (ck_today rd_example))\<rparr>"
    "ConsecutiveErrorCount
     (GetTokenStats (snd (RecordError (w_db (world_of [tok_zero_limit])) (ID tok_zero_limit)
                            (ck_record rd_example) (ck_today rd_example))) (ID tok_zero_limit))
     = ConsecutiveErrorCount empty_stats + 1"
    using refusals_are_error_accounted
      [of "''gemini-2.5-flash-image-landscape''" mc_image "world_of [tok_zero_limit]" rd_example
          tok_zero_limit up_example "world_of [tok_zero_limit]" tok_zero_limit "''p''"
          "world_of [tok_zero_limit]" cfg_example "''a cat''" "[]" empty_stats admin_example]
      zl model_rows model_kinds
    by simp_all
  have vid:
    "fst (HandleGeneration up_example cfg_example rd_example (world_of [tok_zero_video])
          ''veo_3_1_t2v_fast_portrait'' ''a cat'' [] True)
       = Failed ''Video concurrency limit reached''"
    "fst (snd (HandleGeneration up_example cfg_example rd_example (world_of [tok_zero_video])
          ''veo_3_1_t2v_fast_portrait'' ''a cat'' [] True))
     = (world_of [tok_zero_video])
         \<lparr>w_db := snd (RecordError (w_db (world_of [tok_zero_video])) (ID tok_zero_video)
                        (ck_record rd_example) (ck_today rd_example))\<rparr>"
    using refusals_are_error_accounted
      [of "''veo_3_1_t2v_fast_portrait''" mc_t2v "world_of [tok_zero_video]" rd_example
          tok_zero_video up_example "world_of [tok_zero_video]" tok_zero_video "''p''"
          "world_of [tok_zero_video]" cfg_example "''a cat''" "[]" empty_stats admin_example]
      zv model_rows model_kinds
    by simp_all
  have i2v:
    "fst (HandleGeneration up_example cfg_example rd_example (world_of [tok_ready])
          ''veo_3_1_i2v_s_fast_fl_portrait'' ''a cat'' [] True)
       = Failed ''I2V model requires 1-2 images, got 0''"
    "fst (snd (HandleGeneration up_example cfg_example rd_example (world_of [tok_ready])
          ''veo_3_1_i2v_s_fast_fl_portrait'' ''a cat'' [] True))
     = (world_of [tok_ready])
         \<lparr>w_cm := ReleaseVideo (snd (AcquireVideo (w_cm (world_of [tok_ready])) (ID tok_ready)))
                    (ID tok_ready),
           w_db := snd (RecordError (w_db (world_of [tok_ready])) (ID tok_ready)
                        (ck_record rd_example) (ck_today rd_example))\<rparr>"
    using refusals_are_error_accounted
      [of "''veo_3_1_i2v_s_fast_fl_portrait''" mc_i2v "world_of [tok_ready]" rd_example
          tok_ready up_example "world_of [tok_ready]" tok_ready "''p''"
          "world_of [tok_ready]" cfg_example "''a cat''" "[]" empty_stats admin_example]
      rv model_rows model_kinds n429 i2v_message_example
    by simp_all
  show ?thesis
    using zl zv rv model_rows model_kinds n429 img vid i2v by simp
qed

text \<open>
  A request for an image on a credential whose image limit is 0: the slot is refused, and
  the consecutive-error count of the credential goes from 0 to 1. A request for an
  image-to-video model with no image: the same.
\<close>

theorem refused_slot_is_recorded:
  "SelectToken (w_db (world_of [tok_zero_limit])) (w_cm (world_of [tok_zero_limit])) True False
     ''gemini-2.5-flash-image-landscape'' (ck_select rd_example) = Some tok_zero_limit \<and>
   \<not> fst (AcquireImage (w_cm (world_of [tok_zero_limit])) 1) \<and>
   fst (HandleGeneration up_example cfg_example rd_example (world_of [tok_zero_limit])
          ''gemini-2.5-flash-image-landscape'' ''a cat'' [] True)
     = Failed ''Image concurrency limit reached'' \<and>
   ConsecutiveErrorCount (GetTokenStats (w_db (world_of [tok_zero_limit])) 1) = 0 \<and>
   ConsecutiveErrorCount
     (GetTokenStats
        (w_db (fst (snd (HandleGeneration up_example cfg_example rd_example (world_of [tok_zero_limit])
          ''gemini-2.5-flash-image-landscape'' ''a cat'' [] True)))) 1) = 1 \<and>
   SelectToken (w_db (world_of [tok_ready])) (w_cm (world_of [tok_ready])) False True
     ''veo_3_1_i2v_s_fast_fl_portrait'' (ck_select rd_example) = Some tok_ready \<and>
   fst (HandleGeneration up_example cfg_example rd_example (world_of [tok_ready])
          ''veo_3_1_i2v_s_fast_fl_portrait'' ''a cat'' [] True)
     = Failed ''I2V model requires 1-2 images, got 0'' \<and>
   ConsecutiveErrorCount (GetTokenStats (w_db (world_of [tok_ready])) 1) = 0 \<and>
   ConsecutiveErrorCount
     (GetTokenStats
        (w_db (fst (snd (HandleGeneration up_example cfg_example rd_example (world_of [tok_ready])
          ''veo_3_1_i2v_s_fast_fl_portrait'' ''a cat'' [] True)))) 1) = 1"
proof -
  note zl = zero_limit_world
  note rv = ready_world
  have id: "ID tok_zero_limit = 1" "ID tok_ready = 1"
    by (simp_all add: tok_zero_limit_def tok_ready_def tok_def)
  have zero: "ConsecutiveErrorCount empty_stats = 0" by (simp add: empty_stats_def)
  have n429: "\<not> strings_Contains (i2v_count_message mc_i2v 0) ''429''"
    by (simp only: i2v_message_example i2v_message_not_429 not_False_eq_True)
  have g1: "generate up_example cfg_example rd_example (world_of [tok_zero_limit]) tok_zero_limit ''p''
      mc_image ''a cat'' [] =
     (Failed ''Image concurrency limit reached'',
      (world_of [tok_zero_limit])
        \<lparr>w_db := snd (RecordError (w_db (world_of [tok_zero_limit])) (ID tok_zero_limit)
                       (ck_record rd_example) (ck_today rd_example))\<rparr>,
      [Progress ''Image concurrency limit reached'', ErrorResponse ''Image concurrency limit reached''])"
    using zl(7) by (intro generate_image_refused) (simp_all add: model_kinds)
  have g2: "generate up_example cfg_example rd_example (world_of [tok_ready]) tok_ready ''p''
      mc_i2v ''a cat'' [] =
     (Failed (i2v_count_message mc_i2v (length ([] :: string list))),
      (world_of [tok_ready])
        \<lparr>w_cm := ReleaseVideo (snd (AcquireVideo (w_cm (world_of [tok_ready])) (ID tok_ready)))
                   (ID tok_ready),
          w_db := snd (RecordError (w_db (world_of [tok_ready])) (ID tok_ready)
                       (ck_record rd_example) (ck_today rd_example))\<rparr>,
      [Progress (i2v_count_message mc_i2v (length ([] :: string list))),
       ErrorResponse (i2v_count_message mc_i2v (length ([] :: string list)))])"
    using rv(7) n429 by (intro generate_i2v_count) (simp_all add: model_kinds)
  have s1: "SelectToken (w_db (world_of [tok_zero_limit])) (w_cm (world_of [tok_zero_limit]))
      (Type mc_image = ''image'') (Type mc_image = ''video'') ''gemini-2.5-flash-image-landscape''
      (ck_select rd_example) = Some tok_zero_limit"
    using zl(1) by (simp add: model_kinds)
  have s2: "SelectToken (w_db (world_of [tok_ready])) (w_cm (world_of [tok_ready]))
      (Type mc_i2v = ''image'') (Type mc_i2v = ''video'') ''veo_3_1_i2v_s_fast_fl_portrait''
      (ck_select rd_example) = Some tok_ready"
    using rv(1) by (simp add: model_kinds)
  note h1 = HandleGeneration_dispatch [OF model_rows(1) s1 zl(2) zl(3) zl(4),
      where cfg = cfg_example and prompt = "''a cat''" and images = "[]"]
  note h2 = HandleGeneration_dispatch [OF model_rows(3) s2 rv(2) rv(3) rv(4),
      where cfg = cfg_example and prompt = "''a cat''" and images = "[]"]
  note e1 = RecordError_step(2) [OF zl(5) zl(6), of "ck_record rd_example" "ck_today rd_example"]
  note e2 = RecordError_step(2) [OF rv(5) rv(6), of "ck_record rd_example" "ck_today rd_example"]
  have r1: "fst (HandleGeneration up_example cfg_example rd_example (world_of [tok_zero_limit])
          ''gemini-2.5-flash-image-landscape'' ''a cat'' [] True)
     = Failed ''Image concurrency limit reached''"
    "ConsecutiveErrorCount
     (GetTokenStats
        (w_db (fst (snd (HandleGeneration up_example cfg_example rd_example (world_of [tok_zero_limit])
          ''gemini-2.5-flash-image-landscape'' ''a cat'' [] True)))) (ID tok_zero_limit)) = 1"
    using h1 g1 e1 zero by (simp_all add: model_kinds)
  have r2: "fst (HandleGeneration up_example cfg_example rd_example (world_of [tok_ready])
          ''veo_3_1_i2v_s_fast_fl_portrait'' ''a cat'' [] True)
     = Failed ''I2V model requires 1-2 images, got 0''"
    "ConsecutiveErrorCount
     (GetTokenStats
        (w_db (fst (snd (HandleGeneration up_example cfg_example rd_example (world_of [tok_ready])
          ''veo_3_1_i2v_s_fast_fl_portrait'' ''a cat'' [] True)))) (ID tok_ready)) = 1"
    using h2 g2 e2 zero i2v_message_example by (simp_all add: model_kinds)
  have before: "ConsecutiveErrorCount (GetTokenStats (w_db (world_of [tok_zero_limit])) (ID tok_zero_limit)) = 0"
    "ConsecutiveErrorCount (GetTokenStats (w_db (world_of [tok_ready])) (ID tok_ready)) = 0"
    using zl(5) rv(5) zero by (simp_all add: GetTokenStats_def)
  show ?thesis
    using zl(1,7) rv(1) r1 r2 before unfolding id by simp
qed

end
